(* ===== verification/Core.thy ===== *)
theory Core
  imports Prelude
begin

text \<open>
  The crate \<^verbatim>\<open>aivisor-core\<close>: the error type, the sandbox states, the executable identity, the
  resource specification and the runtime capability grants with their wire form
  (\<^verbatim>\<open>capability.rs\<close>). The capability parser is shown to accept exactly the well-formed
  grants and to be inverse to the printer on them.
\<close>

section \<open>Errors, states and identities\<close>

text \<open>
  Errors carry the fixed part of their message; the values interpolated by \<^verbatim>\<open>format!\<close>
  are left out, except in the capability parser and the egress broker, where they are arguments.
\<close>

datatype error =
    KernelFeatureMissing string string
  | CgroupSetup string
  | NamespaceSetup string
  | MountSetup string
  | LaunchFailed string
  | OomKilled
  | Timeout
  | AlreadyTerminated
  | Io string
  | Serde string
  | PolicyInvalid string
  | LimitParse string
  | Unsupported string

datatype SandboxState =
    Provisioning | Ready | Running | Paused | Checkpointing | Restoring | Terminating | Terminated

type_synonym SandboxId = "128 word"

record ExecIdentity =
  ei_dev :: u64
  ei_inode :: u64

section \<open>Resource specification\<close>

record CpuQuota =
  quota_us :: u64
  period_us :: u64

record IoLimit =
  io_major :: u32
  io_minor :: u32
  rbps :: u64
  wbps :: u64

record ResourceLimits =
  cpu_max :: "CpuQuota option"
  memory_high :: "u64 option"
  memory_max :: "u64 option"
  pids_max :: "u64 option"
  io_max :: "IoLimit list"
  swap_max :: "u64 option"

definition ResourceLimits_default :: ResourceLimits where
  "ResourceLimits_default =
     \<lparr>cpu_max = None, memory_high = None, memory_max = None, pids_max = None, io_max = [],
      swap_max = Some 0\<rparr>"

datatype WorkspaceSpec = Tmpfs u64 | Dir string

record SandboxSpec =
  spec_id :: SandboxId
  template :: string
  limits :: ResourceLimits
  workspace :: WorkspaceSpec
  env :: "(string \<times> string) list"
  spec_timeout :: "u64 option"
  policy_name :: "string option"

section \<open>Capabilities\<close>

datatype Capability =
    Network string "u16 list"
  | Filesystem string "string list"
  | Exec string

fun capability_kind :: "Capability \<Rightarrow> string" where
  "capability_kind (Network _ _) = ''net''"
| "capability_kind (Filesystem _ _) = ''fs''"
| "capability_kind (Exec _) = ''exec''"

datatype CapabilityParseError =
    NoKindPrefix string
  | NoPortList string
  | EmptyCidr string
  | NotAPort string string
  | NoPorts string
  | NoAccessList string
  | NoAccessRights string
  | NotAbsolute string string
  | UnknownKind string string

definition check_absolute :: "string \<Rightarrow> string \<Rightarrow> CapabilityParseError + unit" where
  "check_absolute path full =
     (if \<not> starts_with path ''/'' then Inl (NotAbsolute full path) else Inr ())"

definition parse_port :: "string \<Rightarrow> string \<Rightarrow> CapabilityParseError + u16" where
  "parse_port s p = ok_or (NotAPort s p) (map_option of_nat (parse_uint 16 (trim p)))"

definition capability_from_str :: "string \<Rightarrow> CapabilityParseError + Capability" where
  "capability_from_str s =
     rbind (ok_or (NoKindPrefix s) (split_once CHR '':'' s)) (\<lambda>(kind, rest).
       if kind = ''net'' then
         rbind (ok_or (NoPortList s) (rsplit_once CHR '':'' rest)) (\<lambda>(cidr, ports).
           if cidr = [] then Inl (EmptyCidr s)
           else rbind (traverse (parse_port s) (split_on CHR '','' ports)) (\<lambda>ports.
             if ports = [] then Inl (NoPorts s) else Inr (Network cidr ports)))
       else if kind = ''fs'' then
         rbind (ok_or (NoAccessList s) (rsplit_once CHR '':'' rest)) (\<lambda>(path, access).
           rbind (check_absolute path s) (\<lambda>_.
             let access = filter (\<lambda>a. a \<noteq> []) (map trim (split_on CHR '','' access))
             in if access = [] then Inl (NoAccessRights s) else Inr (Filesystem path access)))
       else if kind = ''exec'' then
         rbind (check_absolute rest s) (\<lambda>_. Inr (Exec rest))
       else Inl (UnknownKind kind s))"

fun capability_to_string :: "Capability \<Rightarrow> string" where
  "capability_to_string (Network cidr ports) =
     ''net:'' @ cidr @ '':'' @ join '','' (map (\<lambda>p. show_uint (unat p)) ports)"
| "capability_to_string (Filesystem path access) = ''fs:'' @ path @ '':'' @ join '','' access"
| "capability_to_string (Exec path) = ''exec:'' @ path"

text \<open>The grants a control plane can express: what the parser accepts, said without the parser.\<close>

fun wf_capability :: "Capability \<Rightarrow> bool" where
  "wf_capability (Network cidr ports) \<longleftrightarrow> cidr \<noteq> [] \<and> ports \<noteq> []"
| "wf_capability (Filesystem path access) \<longleftrightarrow>
     starts_with path ''/'' \<and> access \<noteq> [] \<and>
     (\<forall>a\<in>set access. a \<noteq> [] \<and> trim a = a \<and> CHR '','' \<notin> set a \<and> CHR '':'' \<notin> set a)"
| "wf_capability (Exec path) \<longleftrightarrow> starts_with path ''/''"

lemma set_join: "set (join sep xs) \<subseteq> set sep \<union> (\<Union>x\<in>set xs. set x)"
  by (induction sep xs rule: join.induct) auto

lemma split_on_fields: "x \<in> set (split_on c s) \<Longrightarrow> c \<notin> set x \<and> set x \<subseteq> set s"
  by (induction s arbitrary: x) (fastforce split: list.splits if_splits)+

lemma show_ports_no_colon: "CHR '':'' \<notin> set (join '','' (map (\<lambda>p. show_uint (unat p)) ports))"
  using set_join [of "'',''" "map (\<lambda>p. show_uint (unat p)) ports"]
  by (auto simp: show_uint_not_in)

lemma parse_port_show: "parse_port s (show_uint (unat p)) = Inr p"
proof -
  have "\<not> is_ws c" if "c \<in> set (show_uint (unat p))" for c
    using show_uint_digits [OF that] by (auto simp: is_ws_def)
  then have "trim (show_uint (unat p)) = show_uint (unat p)" by (simp add: trim_no_ws)
  moreover have "parse_uint 16 (show_uint (unat p)) = Some (unat p)"
    by (rule parse_show_uint) (use unsigned_less [of p] in simp)
  ultimately show ?thesis by (simp add: parse_port_def)
qed

lemma split_ports:
  "ports \<noteq> [] \<Longrightarrow>
   split_on CHR '','' (join '','' (map (\<lambda>p. show_uint (unat p)) ports))
     = map (\<lambda>p. show_uint (unat p)) ports"
  by (rule split_on_join) (auto simp: show_uint_not_in)

lemma capability_from_str_to_string:
  assumes "wf_capability c"
  shows "capability_from_str (capability_to_string c) = Inr c"
proof (cases c)
  case (Network cidr ports)
  let ?ps = "join '','' (map (\<lambda>p. show_uint (unat p)) ports)"
  let ?s = "capability_to_string c"
  have k: "split_once CHR '':'' ?s = Some (''net'', cidr @ CHR '':'' # ?ps)"
    by (simp add: split_once_Some_iff Network)
  have r: "rsplit_once CHR '':'' (cidr @ CHR '':'' # ?ps) = Some (cidr, ?ps)"
    by (simp add: rsplit_once_Some_iff show_ports_no_colon)
  have t: "traverse (parse_port ?s) (map (\<lambda>p. show_uint (unat p)) ports) = Inr ports"
    using traverse_all_Inr [of ports "parse_port ?s \<circ> (\<lambda>p. show_uint (unat p))" id]
    by (simp add: traverse_map parse_port_show)
  show ?thesis
    using assms k r t split_ports [of ports]
    by (simp add: capability_from_str_def Network)
next
  case (Filesystem path access)
  let ?s = "capability_to_string c"
  have k: "split_once CHR '':'' ?s = Some (''fs'', path @ CHR '':'' # join '','' access)"
    by (simp add: split_once_Some_iff Filesystem)
  have nc: "CHR '':'' \<notin> set (join '','' access)"
    using assms set_join [of "'',''" access] by (auto simp: Filesystem dest!: subsetD)
  have r: "rsplit_once CHR '':'' (path @ CHR '':'' # join '','' access) = Some (path, join '','' access)"
    using nc by (simp add: rsplit_once_Some_iff)
  have sp: "split_on CHR '','' (join '','' access) = access"
    using assms by (intro split_on_join) (auto simp: Filesystem)
  have mt: "filter (\<lambda>a. a \<noteq> []) (map trim access) = access"
    using assms by (simp add: Filesystem filter_map map_idI cong: filter_cong)
  show ?thesis
    using assms k r sp mt by (simp add: capability_from_str_def check_absolute_def Filesystem)
next
  case (Exec path)
  have "split_once CHR '':'' (capability_to_string c) = Some (''exec'', path)"
    by (simp add: split_once_Some_iff Exec)
  then show ?thesis
    using assms by (simp add: capability_from_str_def check_absolute_def Exec)
qed

lemma capability_from_str_wf:
  assumes "capability_from_str s = Inr c"
  shows "wf_capability c"
proof -
  from assms obtain kind rest where
    "split_once CHR '':'' s = Some (kind, rest)"
    and body: "capability_from_str s = Inr c"
    by (auto simp: capability_from_str_def rbind_Inr_iff)
  then consider
      (net) cidr ps ports where "c = Network cidr ports" "cidr \<noteq> []" "ports \<noteq> []"
    | (fs) path acc where "c = Filesystem path (filter (\<lambda>a. a \<noteq> []) (map trim (split_on CHR '','' acc)))"
        "rsplit_once CHR '':'' rest = Some (path, acc)" "starts_with path ''/''"
        "filter (\<lambda>a. a \<noteq> []) (map trim (split_on CHR '','' acc)) \<noteq> []"
    | (exec) "c = Exec rest" "starts_with rest ''/''"
    unfolding capability_from_str_def
    by (auto simp: rbind_Inr_iff check_absolute_def Let_def split: if_splits)
  then show ?thesis
  proof cases
    case fs
    have "trim a' \<noteq> [] \<Longrightarrow> a' \<in> set (split_on CHR '','' acc) \<Longrightarrow>
        trim (trim a') = trim a' \<and> CHR '','' \<notin> set (trim a') \<and> CHR '':'' \<notin> set (trim a')" for a'
      using split_on_fields [of a' "CHR '',''" acc] fs(2) set_trim [of a']
      by (auto simp: rsplit_once_Some_iff)
    with fs show ?thesis by (auto simp: filter_empty_conv)
  qed auto
qed

text \<open>
  C16. The capability parser accepts exactly the well-formed grants: a capability is the result
  of parsing some string iff it is well formed, and then parsing its printed form gives it back.
  In particular no malformed port list, empty CIDR, relative path or empty access list is ever
  turned into a grant, and printing a parsed grant for the audit record loses nothing.
\<close>
theorem capability_roundtrip:
  "((\<exists>s. capability_from_str s = Inr c) \<longleftrightarrow> wf_capability c) \<and>
   (wf_capability c \<longleftrightarrow> capability_from_str (capability_to_string c) = Inr c)"
  using capability_from_str_to_string capability_from_str_wf by blast

end
