(* ===== verification/Policy_Compile.thy ===== *)
theory Policy_Compile
  imports Core
begin

unbundle bit_operations_syntax

text \<open>
  The policy compiler, \<^verbatim>\<open>aivisor-policy/src/compile.rs\<close>: a policy document and the plans
  compiled from it for Landlock, the BPF maps and seccomp, the ceiling test
  \<^verbatim>\<open>LandlockPlan::permits\<close>, and the policy edits behind runtime capability grants.

  Paths are strings; \<^verbatim>\<open>Path::starts_with\<close> compares components. Pins are taken as ASCII
  strings: slicing a pin inside a multi-byte character, which panics in the source, is not
  represented.
\<close>

section \<open>Policies and plans\<close>

datatype AccessDefault = Deny | Allow

record FsRule =
  fr_path :: string
  fr_access :: "string list"
  fr_recursive :: bool

record FsPolicy =
  fs_default :: AccessDefault
  fs_rules :: "FsRule list"

datatype ExecRule = Path string "string option" | Prefix string

record ExecPolicy =
  ex_default :: AccessDefault
  ex_allow :: "ExecRule list"

datatype NetRule = BrokerRoute "string list" "string list" | Direct string "u16 list"

record NetPolicy =
  net_default :: AccessDefault
  egress :: "NetRule list"
  block_metadata :: bool
  dns_policy :: "string option"

record RuntimeOpts =
  seccomp_profile :: "string option"
  landlock_abi_min :: "u32 option"
  rt_timeout :: "string option"
  max_idle :: "string option"

record AuditOpts =
  level :: "string option"
  sink :: "string option"

record Policy =
  api_version :: string
  kind :: string
  metadata_name :: string
  filesystem :: "FsPolicy option"
  exec :: "ExecPolicy option"
  network :: "NetPolicy option"
  runtime :: "RuntimeOpts option"
  audit :: "AuditOpts option"

record LandlockRule =
  ll_path :: string
  ll_access_mask :: u64

record LandlockPlan =
  ll_rules :: "LandlockRule list"
  ll_abi :: u32

record BpfFsRule =
  bf_path_hash :: u64
  bf_access_mask :: u64

record BpfExecRule =
  be_path :: string
  is_prefix :: bool
  be_hash :: "bytes option"

record BpfNetRule =
  bn_cidr :: string
  bn_ports :: "u16 list"

record BpfPlan =
  bp_fs_rules :: "BpfFsRule list"
  bp_exec_rules :: "BpfExecRule list"
  bp_net_rules :: "BpfNetRule list"
  exec_policy_present :: bool
  bp_block_metadata :: bool

section \<open>Landlock access rights\<close>

definition EXECUTE :: u64 where "EXECUTE = push_bit 0 1"
definition WRITE_FILE :: u64 where "WRITE_FILE = push_bit 1 1"
definition READ_FILE :: u64 where "READ_FILE = push_bit 2 1"
definition READ_DIR :: u64 where "READ_DIR = push_bit 3 1"
definition REMOVE_DIR :: u64 where "REMOVE_DIR = push_bit 4 1"
definition REMOVE_FILE :: u64 where "REMOVE_FILE = push_bit 5 1"
definition MAKE_CHAR :: u64 where "MAKE_CHAR = push_bit 6 1"
definition MAKE_DIR :: u64 where "MAKE_DIR = push_bit 7 1"
definition MAKE_REG :: u64 where "MAKE_REG = push_bit 8 1"
definition MAKE_SOCK :: u64 where "MAKE_SOCK = push_bit 9 1"
definition MAKE_FIFO :: u64 where "MAKE_FIFO = push_bit 10 1"
definition MAKE_BLOCK :: u64 where "MAKE_BLOCK = push_bit 11 1"
definition MAKE_SYM :: u64 where "MAKE_SYM = push_bit 12 1"
definition REFER :: u64 where "REFER = push_bit 13 1"
definition TRUNCATE :: u64 where "TRUNCATE = push_bit 14 1"
definition IOCTL_DEV :: u64 where "IOCTL_DEV = push_bit 15 1"

named_theorems landlock_bits "the Landlock access-right constants"

lemmas [landlock_bits] =
  EXECUTE_def WRITE_FILE_def READ_FILE_def READ_DIR_def REMOVE_DIR_def REMOVE_FILE_def
  MAKE_CHAR_def MAKE_DIR_def MAKE_REG_def MAKE_SOCK_def MAKE_FIFO_def MAKE_BLOCK_def
  MAKE_SYM_def REFER_def TRUNCATE_def IOCTL_DEV_def

definition known_at_abi :: "u32 \<Rightarrow> u64" where
  "known_at_abi abi =
     (let mask = EXECUTE OR WRITE_FILE OR READ_FILE OR READ_DIR OR REMOVE_DIR OR REMOVE_FILE
                 OR MAKE_CHAR OR MAKE_DIR OR MAKE_REG OR MAKE_SOCK OR MAKE_FIFO OR MAKE_BLOCK
                 OR MAKE_SYM;
          mask = (if abi \<ge> 2 then mask OR REFER else mask);
          mask = (if abi \<ge> 3 then mask OR TRUNCATE else mask);
          mask = (if abi \<ge> 5 then mask OR IOCTL_DEV else mask)
      in mask)"

definition access_bits :: "string \<Rightarrow> u64" where
  "access_bits a =
     (if a = ''read'' then READ_FILE OR READ_DIR
      else if a = ''write'' then WRITE_FILE
      else if a = ''execute'' then EXECUTE
      else if a = ''create'' then MAKE_REG OR MAKE_DIR OR MAKE_SYM OR MAKE_FIFO OR MAKE_SOCK
      else if a = ''delete'' then REMOVE_FILE OR REMOVE_DIR
      else if a = ''truncate'' then TRUNCATE
      else 0)"

definition access_to_landlock_mask :: "string list \<Rightarrow> u64" where
  "access_to_landlock_mask access = foldl (\<lambda>mask a. mask OR access_bits a) 0 access"

section \<open>Compilation\<close>

definition hash_path :: "string \<Rightarrow> u64" where
  "hash_path path =
     foldl (\<lambda>h b. (h XOR of_char b) * 0x100000001b3) 0xcbf29ce484222325 path"

fun parse_hex_pairs :: "string \<Rightarrow> bytes option" where
  "parse_hex_pairs [] = Some []"
| "parse_hex_pairs [c] = None"
| "parse_hex_pairs (c # d # s) =
     (case from_str_radix 8 16 [c, d] of
        None \<Rightarrow> None
      | Some n \<Rightarrow> map_option (\<lambda>bs. of_nat n # bs) (parse_hex_pairs s))"

definition parse_sha256_pin :: "string \<Rightarrow> bytes option" where
  "parse_sha256_pin pin =
     (case strip_prefix pin ''sha256:'' of
        None \<Rightarrow> None
      | Some hex \<Rightarrow> if length hex \<noteq> 64 then None else parse_hex_pairs hex)"

fun exec_rule_path :: "ExecRule \<Rightarrow> string" where
  "exec_rule_path (Path path _) = path"
| "exec_rule_path (Prefix p) = p"

definition compile_landlock :: "Policy \<Rightarrow> u32 \<Rightarrow> LandlockPlan" where
  "compile_landlock pol abi =
     (let known = known_at_abi abi;
          fs_part = (case filesystem pol of
              None \<Rightarrow> []
            | Some fs \<Rightarrow> map (\<lambda>r. \<lparr>ll_path = fr_path r,
                               ll_access_mask = access_to_landlock_mask (fr_access r) AND known\<rparr>)
                         (fs_rules fs));
          exec_part = (case exec pol of
              None \<Rightarrow> []
            | Some ex \<Rightarrow> map (\<lambda>r. \<lparr>ll_path = exec_rule_path r,
                               ll_access_mask = (EXECUTE OR READ_FILE) AND known\<rparr>)
                         (ex_allow ex))
      in \<lparr>ll_rules = fs_part @ exec_part, ll_abi = abi\<rparr>)"

fun compile_exec_rule :: "ExecRule \<Rightarrow> BpfExecRule" where
  "compile_exec_rule (Path path pin) =
     \<lparr>be_path = path, is_prefix = False, be_hash = Option.bind pin parse_sha256_pin\<rparr>"
| "compile_exec_rule (Prefix prefix) = \<lparr>be_path = prefix, is_prefix = True, be_hash = None\<rparr>"

fun compile_net_rules :: "NetRule list \<Rightarrow> BpfNetRule list" where
  "compile_net_rules [] = []"
| "compile_net_rules (Direct cidr ports # rs) =
     \<lparr>bn_cidr = cidr, bn_ports = ports\<rparr> # compile_net_rules rs"
| "compile_net_rules (BrokerRoute _ _ # rs) = compile_net_rules rs"

definition compile_bpf :: "Policy \<Rightarrow> BpfPlan" where
  "compile_bpf pol =
     \<lparr>bp_fs_rules = (case filesystem pol of
          None \<Rightarrow> []
        | Some fs \<Rightarrow> map (\<lambda>r. \<lparr>bf_path_hash = hash_path (fr_path r),
                               bf_access_mask = access_to_landlock_mask (fr_access r)\<rparr>) (fs_rules fs)),
      bp_exec_rules = (case exec pol of None \<Rightarrow> [] | Some ex \<Rightarrow> map compile_exec_rule (ex_allow ex)),
      bp_net_rules = (case network pol of None \<Rightarrow> [] | Some net \<Rightarrow> compile_net_rules (egress net)),
      exec_policy_present = (exec pol \<noteq> None),
      bp_block_metadata = (case network pol of None \<Rightarrow> True | Some net \<Rightarrow> block_metadata net)\<rparr>"

definition compile_seccomp :: "Policy \<Rightarrow> string" where
  "compile_seccomp pol =
     (case Option.bind (runtime pol) seccomp_profile of
        None \<Rightarrow> ''aivisor-default'' | Some p \<Rightarrow> p)"

section \<open>The Landlock ceiling\<close>

text \<open>\<^verbatim>\<open>Path::components\<close> on Unix.\<close>

datatype path_component = RootDir | CurDir | ParentDir | Normal string

definition path_components :: "string \<Rightarrow> path_component list" where
  "path_components s =
     (let fs = split_on CHR ''/'' s;
          lead = (if starts_with s ''/'' then [RootDir]
                  else if hd fs = ''.'' then [CurDir] else []);
          body = filter (\<lambda>f. f \<noteq> [] \<and> f \<noteq> ''.'') fs
      in lead @ map (\<lambda>f. if f = ''..'' then ParentDir else Normal f) body)"

definition path_starts_with :: "string \<Rightarrow> string \<Rightarrow> bool" where
  "path_starts_with p base \<longleftrightarrow>
     take (length (path_components base)) (path_components p) = path_components base"

definition permits :: "LandlockPlan \<Rightarrow> string \<Rightarrow> u64 \<Rightarrow> bool" where
  "permits plan path required \<longleftrightarrow>
     (if required = 0 then True
      else \<exists>rule\<in>set (ll_rules plan).
             path_starts_with path (ll_path rule) \<and> ll_access_mask rule AND required = required)"

section \<open>Runtime capability edits\<close>

definition check_runtime_capability :: "Capability \<Rightarrow> error + unit" where
  "check_runtime_capability cap =
     (case cap of
        Network _ _ \<Rightarrow> Inr ()
      | Exec _ \<Rightarrow> Inr ()
      | Filesystem _ _ \<Rightarrow> Inl (Unsupported ''filesystem capability cannot be granted or revoked on a running sandbox''))"

text \<open>\<^verbatim>\<open>for p in ports { if !existing.contains(p) { existing.push(*p) } }\<close>\<close>

definition merge_ports :: "u16 list \<Rightarrow> u16 list \<Rightarrow> u16 list" where
  "merge_ports existing ports =
     sort (foldl (\<lambda>ex p. if p \<in> set ex then ex else ex @ [p]) existing ports)"

text \<open>\<^verbatim>\<open>egress.iter_mut().find(..)\<close>: the first \<^verbatim>\<open>Direct\<close> rule of the CIDR is merged into,
  otherwise a rule is pushed.\<close>

fun grant_net :: "string \<Rightarrow> u16 list \<Rightarrow> NetRule list \<Rightarrow> NetRule list" where
  "grant_net cidr ports [] = [Direct cidr ports]"
| "grant_net cidr ports (Direct c existing # rs) =
     (if c = cidr then Direct c (merge_ports existing ports) # rs
      else Direct c existing # grant_net cidr ports rs)"
| "grant_net cidr ports (BrokerRoute h m # rs) = BrokerRoute h m # grant_net cidr ports rs"

fun is_path_rule :: "string \<Rightarrow> ExecRule \<Rightarrow> bool" where
  "is_path_rule path (Path p _) \<longleftrightarrow> p = path"
| "is_path_rule path (Prefix _) \<longleftrightarrow> False"

definition with_capability_granted :: "Policy \<Rightarrow> Capability \<Rightarrow> error + Policy" where
  "with_capability_granted pol cap =
     rbind (check_runtime_capability cap) (\<lambda>_.
       case cap of
         Network cidr ports \<Rightarrow>
           (let net = (case network pol of
                  None \<Rightarrow> \<lparr>net_default = Deny, egress = [], block_metadata = True, dns_policy = None\<rparr>
                | Some n \<Rightarrow> n)
            in Inr (pol\<lparr>network := Some (net\<lparr>egress := grant_net cidr ports (egress net)\<rparr>)\<rparr>))
       | Exec path \<Rightarrow>
           (let ex = (case exec pol of
                  None \<Rightarrow> \<lparr>ex_default = Deny, ex_allow = []\<rparr> | Some e \<Rightarrow> e);
                already = list_ex (is_path_rule path) (ex_allow ex)
            in Inr (pol\<lparr>exec := Some (if already then ex
                                        else ex\<lparr>ex_allow := ex_allow ex @ [Path path None]\<rparr>)\<rparr>))
       | Filesystem _ _ \<Rightarrow> Inl (Unsupported ''unreachable''))"

fun revoke_ports :: "string \<Rightarrow> u16 list \<Rightarrow> NetRule \<Rightarrow> NetRule" where
  "revoke_ports cidr ports (Direct c existing) =
     (if c = cidr then Direct c (filter (\<lambda>p. p \<notin> set ports) existing) else Direct c existing)"
| "revoke_ports cidr ports (BrokerRoute h m) = BrokerRoute h m"

fun empty_direct :: "NetRule \<Rightarrow> bool" where
  "empty_direct (Direct _ ports) \<longleftrightarrow> ports = []"
| "empty_direct (BrokerRoute _ _) \<longleftrightarrow> False"

definition with_capability_revoked :: "Policy \<Rightarrow> Capability \<Rightarrow> error + Policy" where
  "with_capability_revoked pol cap =
     rbind (check_runtime_capability cap) (\<lambda>_.
       case cap of
         Network cidr ports \<Rightarrow>
           Inr (case network pol of
                  None \<Rightarrow> pol
                | Some net \<Rightarrow>
                    pol\<lparr>network := Some (net\<lparr>egress :=
                      filter (\<lambda>r. \<not> empty_direct r) (map (revoke_ports cidr ports) (egress net))\<rparr>)\<rparr>)
       | Exec path \<Rightarrow>
           Inr (case exec pol of
                  None \<Rightarrow> pol
                | Some ex \<Rightarrow>
                    pol\<lparr>exec := Some (ex\<lparr>ex_allow := filter (\<lambda>r. \<not> is_path_rule path r) (ex_allow ex)\<rparr>)\<rparr>)
       | Filesystem _ _ \<Rightarrow> Inl (Unsupported ''unreachable''))"

section \<open>Properties of the Landlock plan\<close>

lemma path_starts_with_refl [simp]: "path_starts_with p p"
  by (simp add: path_starts_with_def)

lemma path_starts_with_trans:
  assumes "path_starts_with p q" "path_starts_with q r"
  shows "path_starts_with p r"
  using assms unfolding path_starts_with_def
  by (metis append_take_drop_id length_append le_add1 min.absorb2 min.commute take_take)

lemma known_base: "known_at_abi abi AND (EXECUTE OR READ_FILE) = EXECUTE OR READ_FILE"
  by (simp add: known_at_abi_def landlock_bits Let_def)

lemma permits_beneath: "permits plan p required \<Longrightarrow> path_starts_with q p \<Longrightarrow> permits plan q required"
  unfolding permits_def by (metis path_starts_with_trans)

lemma permits_compile_landlock:
  "permits (compile_landlock pol abi) path required \<longleftrightarrow>
     required = 0 \<or>
     (\<exists>fs r. filesystem pol = Some fs \<and> r \<in> set (fs_rules fs) \<and> path_starts_with path (fr_path r) \<and>
        access_to_landlock_mask (fr_access r) AND known_at_abi abi AND required = required) \<or>
     (\<exists>ex r. exec pol = Some ex \<and> r \<in> set (ex_allow ex) \<and> path_starts_with path (exec_rule_path r) \<and>
        (EXECUTE OR READ_FILE) AND required = required)"
proof -
  have k: "(EXECUTE OR READ_FILE) AND known_at_abi abi AND required = (EXECUTE OR READ_FILE) AND required"
    by (metis (no_types) and.assoc and.commute known_base)
  show ?thesis
    unfolding permits_def compile_landlock_def Let_def
    by (cases "filesystem pol"; cases "exec pol"; simp add: and.assoc k bex_Un; blast)
qed

text \<open>
  The Landlock ruleset compiled from a policy never requests an access right that the
  running ABI does not know (which the kernel would answer with EINVAL, leaving the sandbox
  unconfined), whatever the policy asks for.
\<close>
theorem compile_landlock_within_abi:
  "list_all (\<lambda>r. ll_access_mask r AND NOT (known_at_abi abi) = 0) (ll_rules (compile_landlock pol abi))
   \<and> ll_abi (compile_landlock pol abi) = abi"
proof -
  have "(m AND known_at_abi abi) AND NOT (known_at_abi abi) = 0" for m :: u64
    by (rule bit_word_eqI) (auto simp: bit_simps)
  then show ?thesis
    by (auto simp: compile_landlock_def Let_def list_all_iff split: option.splits)
qed


section \<open>What a policy lets out\<close>

text \<open>
  \<open>net_ports\<close> is the effect of the compiled network rules: they are written in order to one
  map key per CIDR, so of several rules with the same CIDR the last one holds
  (\<open>Bpf_Manager\<close> shows it of the map writes).
\<close>

definition direct_pairs :: "NetRule list \<Rightarrow> (string \<times> u16 list) list" where
  "direct_pairs rs = map (\<lambda>r. (bn_cidr r, bn_ports r)) (compile_net_rules rs)"

definition policy_pairs :: "Policy \<Rightarrow> (string \<times> u16 list) list" where
  "policy_pairs pol = map (\<lambda>r. (bn_cidr r, bn_ports r)) (bp_net_rules (compile_bpf pol))"

definition net_ports :: "Policy \<Rightarrow> string \<Rightarrow> u16 set" where
  "net_ports pol cidr =
     (case map_of (rev (policy_pairs pol)) cidr of None \<Rightarrow> {} | Some ps \<Rightarrow> set ps)"

definition direct_distinct :: "Policy \<Rightarrow> bool" where
  "direct_distinct pol \<longleftrightarrow> distinct (map fst (policy_pairs pol))"

definition exec_paths :: "Policy \<Rightarrow> string set" where
  "exec_paths pol =
     (case exec pol of None \<Rightarrow> {} | Some ex \<Rightarrow> {be_path r |r. r \<in> set (bp_exec_rules (compile_bpf pol)) \<and> \<not> is_prefix r})"

lemma direct_pairs_simps [simp]:
  "direct_pairs [] = []"
  "direct_pairs (Direct c ps # rs) = (c, ps) # direct_pairs rs"
  "direct_pairs (BrokerRoute h m # rs) = direct_pairs rs"
  by (simp_all add: direct_pairs_def)

lemma policy_pairs_eq:
  "policy_pairs pol = (case network pol of None \<Rightarrow> [] | Some net \<Rightarrow> direct_pairs (egress net))"
  by (auto simp: policy_pairs_def compile_bpf_def direct_pairs_def split: option.splits)

lemma set_foldl_push:
  "set (foldl (\<lambda>ex p. if p \<in> set ex then ex else ex @ [p]) existing ports) = set existing \<union> set ports"
  by (induction ports arbitrary: existing) auto

lemma set_merge_ports [simp]: "set (merge_ports existing ports) = set existing \<union> set ports"
  by (simp add: merge_ports_def set_foldl_push)

lemma fst_direct_pairs_grant:
  "fst ` set (direct_pairs (grant_net cidr ports rs)) = insert cidr (fst ` set (direct_pairs rs))"
  by (induction cidr ports rs rule: grant_net.induct) auto

lemma distinct_grant:
  "distinct (map fst (direct_pairs rs)) \<Longrightarrow> distinct (map fst (direct_pairs (grant_net cidr ports rs)))"
  by (induction cidr ports rs rule: grant_net.induct) (auto simp: fst_direct_pairs_grant)

lemma in_direct_pairs_grant:
  assumes "distinct (map fst (direct_pairs rs))"
  shows "(\<exists>ps. (c, ps) \<in> set (direct_pairs (grant_net cidr ports rs)) \<and> p \<in> set ps) \<longleftrightarrow>
     (\<exists>ps. (c, ps) \<in> set (direct_pairs rs) \<and> p \<in> set ps) \<or> c = cidr \<and> p \<in> set ports"
  using assms
  by (induction cidr ports rs rule: grant_net.induct) auto

lemma direct_pairs_revoke:
  "direct_pairs (filter (\<lambda>r. \<not> empty_direct r) (map (revoke_ports cidr ports) rs)) =
     filter (\<lambda>(c, ps). ps \<noteq> []) (map (\<lambda>(c, ps). (c, if c = cidr then filter (\<lambda>p. p \<notin> set ports) ps else ps))
       (direct_pairs rs))"
  by (induction rs rule: compile_net_rules.induct) auto

lemma in_revoked_pairs:
  "(\<exists>ps. (c, ps) \<in> set (filter (\<lambda>(c, ps). ps \<noteq> [])
       (map (\<lambda>(c, ps). (c, if c = cidr then filter (\<lambda>p. p \<notin> set ports) ps else ps)) xs)) \<and> p \<in> set ps)
   \<longleftrightarrow> (\<exists>ps. (c, ps) \<in> set xs \<and> p \<in> set ps) \<and> \<not> (c = cidr \<and> p \<in> set ports)"
proof (induction xs)
  case (Cons x xs)
  obtain c' ps' where x: "x = (c', ps')" by (cases x)
  show ?case
    using Cons.IH unfolding x by (auto simp: filter_empty_conv split: if_splits)
qed simp

lemma net_ports_distinct:
  assumes "direct_distinct pol"
  shows "p \<in> net_ports pol c \<longleftrightarrow> (\<exists>ps. (c, ps) \<in> set (policy_pairs pol) \<and> p \<in> set ps)"
proof -
  have "map_of (rev (policy_pairs pol)) c = Some ps \<longleftrightarrow> (c, ps) \<in> set (policy_pairs pol)" for ps
    using assms unfolding direct_distinct_def
    by (metis distinct_rev map_of_eq_Some_iff rev_map set_rev)
  moreover have "p \<in> net_ports pol c \<longleftrightarrow> (\<exists>ps. map_of (rev (policy_pairs pol)) c = Some ps \<and> p \<in> set ps)"
    by (cases "map_of (rev (policy_pairs pol)) c") (simp_all add: net_ports_def)
  ultimately show ?thesis by (simp only:)
qed

lemma distinct_map_fst_filter: "distinct (map fst xs) \<Longrightarrow> distinct (map fst (filter P xs))"
  by (induction xs) auto



definition sample_policy :: Policy where
  "sample_policy =
     \<lparr>api_version = ''aivisor/v1'', kind = ''SandboxPolicy'', metadata_name = ''sample'',
      filesystem = Some \<lparr>fs_default = Deny,
        fs_rules = [\<lparr>fr_path = ''/workspace'', fr_access = [''read'', ''write''], fr_recursive = True\<rparr>]\<rparr>,
      exec = Some \<lparr>ex_default = Deny, ex_allow = [Path ''/usr/bin/git'' None]\<rparr>,
      network = Some \<lparr>net_default = Deny, egress = [Direct ''10.0.0.0/8'' [53]],
        block_metadata = True, dns_policy = None\<rparr>,
      runtime = None, audit = None\<rparr>"

lemma sample_policy_net:
  "direct_distinct sample_policy" "net_ports sample_policy ''10.0.0.0/8'' = {53}"
  by (simp_all add: direct_distinct_def net_ports_def policy_pairs_eq sample_policy_def)



text \<open>
  The condition of one rule per CIDR is needed, and the code does not establish it: a policy
  document with two direct rules for one CIDR lets out the ports of the last one only, and
  revoking those ports empties and drops that rule, so that the earlier rule takes effect. The
  revocation then opens a port that was closed before it.
\<close>
theorem revoke_with_duplicate_cidr_widens:
  "\<exists>pol pol'. with_capability_revoked pol (Network ''10.0.0.0/8'' [53]) = Inr pol' \<and>
     80 \<notin> net_ports pol ''10.0.0.0/8'' \<and> 80 \<in> net_ports pol' ''10.0.0.0/8''"
proof -
  let ?rs = "[Direct ''10.0.0.0/8'' [80], Direct ''10.0.0.0/8'' [53 :: u16]]"
  let ?net = "\<lparr>net_default = Deny, egress = ?rs, block_metadata = True, dns_policy = None\<rparr>"
  show ?thesis
    by (rule exI [of _ "sample_policy\<lparr>network := Some ?net\<rparr>"])
       (simp add: with_capability_revoked_def check_runtime_capability_def net_ports_def policy_pairs_eq)
qed

lemma be_path_compile [simp]: "be_path (compile_exec_rule r) = exec_rule_path r"
  by (cases r) simp_all

lemma exec_paths_eq:
  "exec_paths pol = (case exec pol of None \<Rightarrow> {} | Some ex \<Rightarrow> {p. \<exists>pin. Path p pin \<in> set (ex_allow ex)})"
proof (cases "exec pol")
  case (Some ex)
  have "p \<in> exec_paths pol \<longleftrightarrow> (\<exists>r\<in>set (ex_allow ex). p = exec_rule_path r \<and> \<not> is_prefix (compile_exec_rule r))" for p
    by (auto simp: exec_paths_def compile_bpf_def Some) (metis be_path_compile imageI)
  moreover have "p = exec_rule_path r \<and> \<not> is_prefix (compile_exec_rule r) \<longleftrightarrow> (\<exists>pin. r = Path p pin)" for p r
    by (cases r) auto
  ultimately show ?thesis by (auto simp: Some)
qed (simp add: exec_paths_def)

lemma is_path_rule_iff: "is_path_rule path r \<longleftrightarrow> (\<exists>pin. r = Path path pin)"
  by (cases r) auto

text \<open>
  Granting an exec capability adds exactly the named binary to the binaries the policy lists
  by path, and leaves a rule that already lists it alone (with its pin); revoking removes every
  rule that lists it. Neither touches the filesystem and network sections, and a filesystem
  capability is refused in both directions.
\<close>
theorem exec_capability_exact:
  "(\<exists>g. with_capability_granted pol (Exec path) = Inr g \<and>
      exec_paths g = insert path (exec_paths pol) \<and>
      (if path \<in> exec_paths pol then g = pol
       else bp_exec_rules (compile_bpf g) =
              bp_exec_rules (compile_bpf pol) @ [\<lparr>be_path = path, is_prefix = False, be_hash = None\<rparr>]) \<and>
      network g = network pol \<and> filesystem g = filesystem pol) \<and>
   (\<exists>r. with_capability_revoked pol (Exec path) = Inr r \<and>
      exec_paths r = exec_paths pol - {path} \<and>
      network r = network pol \<and> filesystem r = filesystem pol) \<and>
   with_capability_granted pol (Filesystem p acc) = with_capability_revoked pol (Filesystem p acc) \<and>
   isl (with_capability_granted pol (Filesystem p acc))"
proof -
  have "\<exists>g. with_capability_granted pol (Exec path) = Inr g \<and>
      exec_paths g = insert path (exec_paths pol) \<and>
      (if path \<in> exec_paths pol then g = pol
       else bp_exec_rules (compile_bpf g) =
              bp_exec_rules (compile_bpf pol) @ [\<lparr>be_path = path, is_prefix = False, be_hash = None\<rparr>]) \<and>
      network g = network pol \<and> filesystem g = filesystem pol"
    by (cases "exec pol"; cases "path \<in> exec_paths pol")
       (auto simp: with_capability_granted_def check_runtime_capability_def Let_def exec_paths_eq
        compile_bpf_def list_ex_iff is_path_rule_iff)
  moreover have "\<exists>r. with_capability_revoked pol (Exec path) = Inr r \<and>
      exec_paths r = exec_paths pol - {path} \<and> network r = network pol \<and> filesystem r = filesystem pol"
    by (cases "exec pol")
       (auto simp: with_capability_revoked_def check_runtime_capability_def exec_paths_eq is_path_rule_iff)
  ultimately show ?thesis
    by (simp add: with_capability_granted_def with_capability_revoked_def check_runtime_capability_def)
qed

end
