(* ===== verification/Policy_Parser.thy ===== *)
theory Policy_Parser
  imports Policy_Compile
begin

unbundle bit_operations_syntax

text \<open>
  The policy document parser, \<^verbatim>\<open>aivisor-policy/src/parser.rs\<close>. The YAML library is a
  parameter: a record with the accessors the parser calls (\<^verbatim>\<open>serde_yaml::from_str\<close>,
  indexing, \<^verbatim>\<open>get\<close>, \<^verbatim>\<open>as_str\<close>, \<^verbatim>\<open>as_bool\<close>, \<^verbatim>\<open>as_u64\<close>, \<^verbatim>\<open>as_sequence\<close>).
  Every theorem holds for all accessors.
\<close>

record 'v yaml =
  yaml_from_str :: "string \<Rightarrow> 'v option"
  yaml_index :: "'v \<Rightarrow> string \<Rightarrow> 'v"
  yaml_get :: "'v \<Rightarrow> string \<Rightarrow> 'v option"
  as_str :: "'v \<Rightarrow> string option"
  as_bool :: "'v \<Rightarrow> bool option"
  as_u64 :: "'v \<Rightarrow> u64 option"
  as_sequence :: "'v \<Rightarrow> 'v list option"

definition unwrap_or :: "'a \<Rightarrow> 'a option \<Rightarrow> 'a" where
  "unwrap_or d x = (case x of None \<Rightarrow> d | Some v \<Rightarrow> v)"

definition seq_of :: "'v yaml \<Rightarrow> 'v \<Rightarrow> 'v list" where
  "seq_of Y v = unwrap_or [] (as_sequence Y v)"

text \<open>\<^verbatim>\<open>as_sequence().map(|s| s.iter().filter_map(|v| v.as_str()..).collect()).unwrap_or_default()\<close>\<close>

definition string_list :: "'v yaml \<Rightarrow> 'v \<Rightarrow> string list" where
  "string_list Y v = List.map_filter (as_str Y) (seq_of Y v)"

definition i_know :: "'v yaml \<Rightarrow> 'v \<Rightarrow> bool" where
  "i_know Y spec =
     unwrap_or False (as_bool Y (yaml_index Y (yaml_index Y spec ''runtime'') ''iKnowWhatImDoing''))"

definition system_paths :: "string list" where
  "system_paths = [''/'', ''/usr'', ''/etc'', ''/proc'', ''/sys'', ''/dev'']"

definition write_access :: "string list" where
  "write_access = [''write'', ''create'', ''delete'', ''truncate'']"

definition parse_fs_rule :: "'v yaml \<Rightarrow> 'v \<Rightarrow> error + FsRule" where
  "parse_fs_rule Y rule =
     rbind (ok_or (PolicyInvalid ''filesystem rule missing path'') (as_str Y (yaml_index Y rule ''path'')))
       (\<lambda>path.
         if \<not> starts_with path ''/'' then Inl (PolicyInvalid ''filesystem path must be absolute'')
         else if str_contains path ''..'' then Inl (PolicyInvalid ''filesystem path must not contain ..'')
         else
           let access = string_list Y (yaml_index Y rule ''access'');
               allow_ws = unwrap_or False (as_bool Y (yaml_index Y rule ''allowWorkspaceExec''))
           in if ''execute'' \<in> set access \<and> path = ''/workspace'' \<and> \<not> allow_ws then
                Inl (PolicyInvalid ''execute on /workspace requires allowWorkspaceExec: true'')
              else if path \<in> set system_paths \<and> list_ex (\<lambda>a. a \<in> set write_access) access then
                Inl (PolicyInvalid ''cannot grant write access to system path'')
              else Inr \<lparr>fr_path = path, fr_access = access,
                        fr_recursive = unwrap_or False (as_bool Y (yaml_index Y rule ''recursive''))\<rparr>)"

definition parse_default :: "'v yaml \<Rightarrow> 'v \<Rightarrow> 'v \<Rightarrow> string \<Rightarrow> error + AccessDefault" where
  "parse_default Y spec section msg =
     (if as_str Y (yaml_index Y section ''default'') = Some ''allow'' then
        (if i_know Y spec then Inr Allow else Inl (PolicyInvalid msg))
      else Inr Deny)"

definition parse_fs_policy :: "'v yaml \<Rightarrow> 'v \<Rightarrow> error + FsPolicy option" where
  "parse_fs_policy Y spec =
     (case yaml_get Y spec ''filesystem'' of
        None \<Rightarrow> Inr None
      | Some fs \<Rightarrow>
          rbind (parse_default Y spec fs
                  ''default: allow on filesystem requires spec.runtime.iKnowWhatImDoing: true'') (\<lambda>default.
          rbind (traverse (parse_fs_rule Y) (seq_of Y (yaml_index Y fs ''rules''))) (\<lambda>rules.
            Inr (Some \<lparr>fs_default = default, fs_rules = rules\<rparr>))))"

text \<open>An entry with neither \<^verbatim>\<open>path\<close> nor \<^verbatim>\<open>prefix\<close> is skipped.\<close>

definition parse_exec_rule :: "'v yaml \<Rightarrow> 'v \<Rightarrow> error + ExecRule option" where
  "parse_exec_rule Y entry =
     (case as_str Y (yaml_index Y entry ''path'') of
        Some path \<Rightarrow>
          if \<not> starts_with path ''/'' then Inl (PolicyInvalid ''exec rule path must be absolute'')
          else if str_contains path ''..'' then Inl (PolicyInvalid ''exec rule path must not contain ..'')
          else Inr (Some (Path path (as_str Y (yaml_index Y entry ''pin''))))
      | None \<Rightarrow>
          (case as_str Y (yaml_index Y entry ''prefix'') of
             Some prefix \<Rightarrow>
               if \<not> starts_with prefix ''/'' then Inl (PolicyInvalid ''exec rule prefix must be absolute'')
               else if str_contains prefix ''..'' then Inl (PolicyInvalid ''exec rule prefix must not contain ..'')
               else Inr (Some (Prefix prefix))
           | None \<Rightarrow> Inr None))"

definition parse_exec_policy :: "'v yaml \<Rightarrow> 'v \<Rightarrow> error + ExecPolicy option" where
  "parse_exec_policy Y spec =
     (case yaml_get Y spec ''exec'' of
        None \<Rightarrow> Inr None
      | Some ex \<Rightarrow>
          rbind (parse_default Y spec ex
                  ''default: allow on exec requires spec.runtime.iKnowWhatImDoing: true'') (\<lambda>default.
          rbind (traverse (parse_exec_rule Y) (seq_of Y (yaml_index Y ex ''allow''))) (\<lambda>allow.
            Inr (Some \<lparr>ex_default = default, ex_allow = List.map_filter id allow\<rparr>))))"

definition parse_net_rule :: "'v yaml \<Rightarrow> 'v \<Rightarrow> NetRule option" where
  "parse_net_rule Y entry =
     (if yaml_get Y entry ''via'' \<noteq> None then
        Some (BrokerRoute (string_list Y (yaml_index Y entry ''hosts''))
                          (string_list Y (yaml_index Y entry ''methods'')))
      else if yaml_get Y entry ''direct'' \<noteq> None then
        Some (Direct (unwrap_or [] (as_str Y (yaml_index Y entry ''cidr'')))
                     (List.map_filter (\<lambda>v. map_option (\<lambda>n. ucast n) (as_u64 Y v))
                        (seq_of Y (yaml_index Y entry ''ports''))))
      else None)"

definition parse_net_policy :: "'v yaml \<Rightarrow> 'v \<Rightarrow> error + NetPolicy option" where
  "parse_net_policy Y spec =
     (case yaml_get Y spec ''network'' of
        None \<Rightarrow> Inr None
      | Some net \<Rightarrow>
          if as_str Y (yaml_index Y net ''default'') = Some ''allow'' then
            Inl (PolicyInvalid ''network default: allow is not supported in Phase 2; use default: deny'')
          else Inr (Some
            \<lparr>net_default = Deny,
             egress = List.map_filter (parse_net_rule Y) (seq_of Y (yaml_index Y net ''egress'')),
             block_metadata = unwrap_or True (as_bool Y (yaml_index Y net ''blockMetadata'')),
             dns_policy = as_str Y (yaml_index Y net ''dnsPolicy'')\<rparr>))"

definition parse_runtime_opts :: "'v yaml \<Rightarrow> 'v \<Rightarrow> RuntimeOpts option" where
  "parse_runtime_opts Y spec =
     map_option (\<lambda>rt.
       \<lparr>seccomp_profile = as_str Y (yaml_index Y rt ''seccompProfile''),
        landlock_abi_min = map_option (\<lambda>n. ucast n) (as_u64 Y (yaml_index Y rt ''landlockAbiMin'')),
        rt_timeout = as_str Y (yaml_index Y rt ''timeout''),
        max_idle = as_str Y (yaml_index Y rt ''maxIdle'')\<rparr>) (yaml_get Y spec ''runtime'')"

definition parse_audit_opts :: "'v yaml \<Rightarrow> 'v \<Rightarrow> AuditOpts option" where
  "parse_audit_opts Y spec =
     map_option (\<lambda>a. \<lparr>level = as_str Y (yaml_index Y a ''level''), sink = as_str Y (yaml_index Y a ''sink'')\<rparr>)
       (yaml_get Y spec ''audit'')"

definition parse_policy_str :: "'v yaml \<Rightarrow> string \<Rightarrow> error + Policy" where
  "parse_policy_str Y yaml =
     rbind (ok_or (PolicyInvalid ''YAML parse'') (yaml_from_str Y yaml)) (\<lambda>raw.
       let api_version = unwrap_or ''aivisor/v1'' (as_str Y (yaml_index Y raw ''apiVersion'')) in
       if api_version \<noteq> ''aivisor/v1'' then Inl (PolicyInvalid ''unsupported apiVersion'') else
       let kind = unwrap_or ''SandboxPolicy'' (as_str Y (yaml_index Y raw ''kind'')) in
       if kind \<noteq> ''SandboxPolicy'' then Inl (PolicyInvalid ''unsupported kind'') else
       let metadata_name =
             unwrap_or ''default'' (as_str Y (yaml_index Y (yaml_index Y raw ''metadata'') ''name''));
           spec = yaml_index Y raw ''spec'' in
       rbind (parse_fs_policy Y spec) (\<lambda>filesystem.
       rbind (parse_exec_policy Y spec) (\<lambda>exec.
       rbind (parse_net_policy Y spec) (\<lambda>network.
         Inr \<lparr>api_version = api_version, kind = kind, metadata_name = metadata_name,
              filesystem = filesystem, exec = exec, network = network,
              runtime = parse_runtime_opts Y spec, audit = parse_audit_opts Y spec\<rparr>))))"

section \<open>Validation\<close>

definition wf_fs_rule :: "FsRule \<Rightarrow> bool" where
  "wf_fs_rule r \<longleftrightarrow>
     starts_with (fr_path r) ''/'' \<and> \<not> str_contains (fr_path r) ''..'' \<and>
     (if fr_path r \<in> set system_paths then list_all (\<lambda>a. a \<notin> set write_access) (fr_access r) else True)"

definition wf_exec_rule :: "ExecRule \<Rightarrow> bool" where
  "wf_exec_rule r \<longleftrightarrow>
     starts_with (exec_rule_path r) ''/'' \<and> \<not> str_contains (exec_rule_path r) ''..''"

definition wf_policy :: "Policy \<Rightarrow> bool" where
  "wf_policy pol \<longleftrightarrow>
     api_version pol = ''aivisor/v1'' \<and> kind pol = ''SandboxPolicy'' \<and>
     (case filesystem pol of None \<Rightarrow> True | Some fs \<Rightarrow> list_all wf_fs_rule (fs_rules fs)) \<and>
     (case exec pol of None \<Rightarrow> True | Some ex \<Rightarrow> list_all wf_exec_rule (ex_allow ex)) \<and>
     (case network pol of None \<Rightarrow> True | Some net \<Rightarrow> net_default net = Deny)"

lemma parse_fs_rule_wf: "parse_fs_rule Y v = Inr r \<Longrightarrow> wf_fs_rule r"
  by (auto simp: parse_fs_rule_def wf_fs_rule_def rbind_Inr_iff Let_def list_ex_iff list_all_iff
      split: if_splits)

lemma parse_exec_rule_wf: "parse_exec_rule Y v = Inr (Some r) \<Longrightarrow> wf_exec_rule r"
  by (auto simp: parse_exec_rule_def wf_exec_rule_def split: if_splits option.splits)

lemma parse_fs_policy_wf:
  "parse_fs_policy Y spec = Inr (Some fs) \<Longrightarrow> list_all wf_fs_rule (fs_rules fs)"
  by (auto simp: parse_fs_policy_def rbind_Inr_iff list_all_iff split: option.splits
      dest!: traverse_Inr_set parse_fs_rule_wf)

lemma parse_exec_policy_wf:
  "parse_exec_policy Y spec = Inr (Some ex) \<Longrightarrow> list_all wf_exec_rule (ex_allow ex)"
  by (auto simp: parse_exec_policy_def rbind_Inr_iff list_all_iff map_filter_def split: option.splits
      dest!: traverse_Inr_set parse_exec_rule_wf)

lemma parse_policy_str_wf:
  assumes "parse_policy_str Y s = Inr pol"
  shows "wf_policy pol"
proof -
  from assms obtain raw where
    "parse_fs_policy Y (yaml_index Y raw ''spec'') = Inr (filesystem pol)"
    "parse_exec_policy Y (yaml_index Y raw ''spec'') = Inr (exec pol)"
    "parse_net_policy Y (yaml_index Y raw ''spec'') = Inr (network pol)"
    and "api_version pol = ''aivisor/v1''" "kind pol = ''SandboxPolicy''"
    by (auto simp: parse_policy_str_def rbind_Inr_iff Let_def split: if_splits)
  then show ?thesis
    by (auto simp: wf_policy_def parse_net_policy_def split: option.splits if_splits
        dest: parse_fs_policy_wf parse_exec_policy_wf)
qed

text \<open>The rights a write verb stands for.\<close>

definition WRITE_MASK :: u64 where
  "WRITE_MASK = access_to_landlock_mask write_access"

lemma foldl_OR: "foldl (\<lambda>m a. m OR f a) (x :: u64) as = x OR foldl (\<lambda>m a. m OR f a) 0 as"
  by (induction as arbitrary: x) (simp, metis (no_types, lifting) foldl_Cons or.assoc or.left_neutral)

lemma access_mask_Cons: "access_to_landlock_mask (a # as) = access_bits a OR access_to_landlock_mask as"
  unfolding access_to_landlock_mask_def by simp (rule foldl_OR)

lemma WRITE_MASK_eq: "WRITE_MASK = 0x57B2"
  by (simp add: WRITE_MASK_def write_access_def access_to_landlock_mask_def access_bits_def landlock_bits)

lemma access_bits_no_write: "a \<notin> set write_access \<Longrightarrow> access_bits a AND WRITE_MASK = 0"
  by (auto simp: access_bits_def write_access_def WRITE_MASK_eq landlock_bits)

lemma access_mask_no_write:
  "list_all (\<lambda>a. a \<notin> set write_access) as \<Longrightarrow> access_to_landlock_mask as AND WRITE_MASK = 0"
proof (induction as)
  case Nil
  then show ?case by (simp add: access_to_landlock_mask_def)
next
  case (Cons a as)
  then show ?case by (simp add: access_mask_Cons bit.conj_disj_distrib2 access_bits_no_write)
qed

text \<open>A path as the kernel would print it: no empty and no \<^verbatim>\<open>.\<close> component.\<close>

definition canonical_path :: "string \<Rightarrow> bool" where
  "canonical_path p \<longleftrightarrow>
     p = ''/'' \<or> (starts_with p ''/'' \<and> list_all (\<lambda>f. f \<noteq> [] \<and> f \<noteq> ''.'') (tl (split_on CHR ''/'' p)))"

lemma join_Cons_hd: "join sep ((x # a) # l) = x # join sep (a # l)"
  by (cases l) simp_all

lemma join_split_on: "join [c] (split_on c s) = s"
proof (induction s)
  case (Cons x xs)
  then show ?case by (cases "split_on c xs") (auto simp: join_Cons_hd)
qed simp

definition comp_of :: "string \<Rightarrow> path_component" where
  "comp_of f = (if f = ''..'' then ParentDir else Normal f)"

lemma comp_of_eq_iff [simp]: "comp_of f = comp_of g \<longleftrightarrow> f = g"
  by (auto simp: comp_of_def)

lemma path_components_canonical:
  assumes "canonical_path p" "p \<noteq> ''/''"
  shows "path_components p = RootDir # map comp_of (tl (split_on CHR ''/'' p))"
    and "split_on CHR ''/'' p = [] # tl (split_on CHR ''/'' p)"
    and "tl (split_on CHR ''/'' p) \<noteq> []"
proof -
  from assms obtain p' where p: "p = CHR ''/'' # p'"
    by (auto simp: canonical_path_def starts_with_iff)
  show "split_on CHR ''/'' p = [] # tl (split_on CHR ''/'' p)" by (simp add: p)
  show "tl (split_on CHR ''/'' p) \<noteq> []" by (simp add: p)
  have "filter (\<lambda>f. f \<noteq> [] \<and> f \<noteq> ''.'') (split_on CHR ''/'' p') = split_on CHR ''/'' p'"
    using assms by (auto simp: canonical_path_def p list_all_iff filter_id_conv)
  then show "path_components p = RootDir # map comp_of (tl (split_on CHR ''/'' p))"
    by (simp add: path_components_def Let_def p starts_with_def comp_of_def)
qed

lemma path_components_root [simp]: "path_components ''/'' = [RootDir]"
  by (simp add: path_components_def starts_with_def)

lemma canonical_components_root:
  "canonical_path p \<Longrightarrow> path_components p = [RootDir] \<longleftrightarrow> p = ''/''"
  using path_components_canonical(1,3) [of p] by (cases "p = ''/''") simp_all

lemma canonical_inj:
  assumes "canonical_path p" "canonical_path q" "path_components p = path_components q"
  shows "p = q"
proof (cases "p = ''/'' \<or> q = ''/''")
  case True
  then show ?thesis by (metis assms canonical_components_root)
next
  case False
  then have "map comp_of (tl (split_on CHR ''/'' p)) = map comp_of (tl (split_on CHR ''/'' q))"
    using assms path_components_canonical(1) [of p] path_components_canonical(1) [of q] by simp
  then have "tl (split_on CHR ''/'' p) = tl (split_on CHR ''/'' q)"
    by (rule map_injective) (auto simp: inj_def)
  then have "split_on CHR ''/'' p = split_on CHR ''/'' q"
    using False assms path_components_canonical(2) by metis
  then show ?thesis by (metis join_split_on)
qed

lemma beneath_system_path:
  assumes "canonical_path r" "sp \<in> set system_paths" "path_starts_with sp r"
  shows "r \<in> set system_paths"
proof -
  have sp: "canonical_path sp" "path_components sp = [RootDir] \<or> (\<exists>x. path_components sp = [RootDir, x])"
    using assms(2)
    by (auto simp: system_paths_def canonical_path_def starts_with_def path_components_def)
  have "path_components r \<noteq> []"
    using assms(1) path_components_canonical(1) [of r] by (cases "r = ''/''") auto
  with sp(2) assms(3) have "path_components r = [RootDir] \<or> path_components r = path_components sp"
    unfolding path_starts_with_def
    by (cases "path_components r"; cases "tl (path_components r)") (auto simp: take_Cons' split: if_splits)
  then show ?thesis
    using canonical_components_root [OF assms(1)] canonical_inj [OF assms(1) sp(1)] assms(2)
    by (auto simp: system_paths_def)
qed

lemma mask_no_write:
  fixes m k required :: u64
  assumes "m AND WRITE_MASK = 0" "m AND k AND required = required"
  shows "required AND WRITE_MASK = 0"
proof -
  have "required AND WRITE_MASK = (m AND WRITE_MASK) AND (k AND required)"
    by (metis assms(2) and.assoc and.commute)
  with assms(1) show ?thesis by simp
qed

text \<open>
  C17. Every policy the parser accepts is well formed, whatever the YAML document: version and
  kind are the supported ones, all filesystem and exec rules are absolute and free of
  \<^verbatim>\<open>..\<close>, no rule spelled as a system path carries a write verb, and the network default is
  deny; and a filesystem or exec default of allow is only accepted with the explicit
  \<^verbatim>\<open>iKnowWhatImDoing\<close> flag.
\<close>
theorem parsed_policy_wf:
  assumes "parse_policy_str Y s = Inr pol"
  shows "wf_policy pol \<and>
    (\<exists>raw. yaml_from_str Y s = Some raw \<and>
       (i_know Y (yaml_index Y raw ''spec'') \<or>
        (case filesystem pol of None \<Rightarrow> True | Some fs \<Rightarrow> fs_default fs = Deny) \<and>
        (case exec pol of None \<Rightarrow> True | Some ex \<Rightarrow> ex_default ex = Deny)))"
proof -
  from assms obtain raw where raw: "yaml_from_str Y s = Some raw"
    and fs: "parse_fs_policy Y (yaml_index Y raw ''spec'') = Inr (filesystem pol)"
    and ex: "parse_exec_policy Y (yaml_index Y raw ''spec'') = Inr (exec pol)"
    by (auto simp: parse_policy_str_def rbind_Inr_iff Let_def split: if_splits)
  have "i_know Y (yaml_index Y raw ''spec'') \<or>
      (case filesystem pol of None \<Rightarrow> True | Some f \<Rightarrow> fs_default f = Deny)"
    using fs by (auto simp: parse_fs_policy_def parse_default_def rbind_Inr_iff split: option.splits if_splits)
  moreover have "i_know Y (yaml_index Y raw ''spec'') \<or>
      (case exec pol of None \<Rightarrow> True | Some e \<Rightarrow> ex_default e = Deny)"
    using ex by (auto simp: parse_exec_policy_def parse_default_def rbind_Inr_iff split: option.splits if_splits)
  ultimately show ?thesis using raw parse_policy_str_wf [OF assms] by blast
qed

text \<open>
  C15. No accepted policy whose filesystem rules are spelled canonically lets Landlock permit any
  write right on a system path, through any rule on the path or above it, at any ABI.
\<close>
theorem system_paths_not_writable:
  assumes "parse_policy_str Y s = Inr pol"
    and "case filesystem pol of None \<Rightarrow> True
         | Some fs \<Rightarrow> list_all (\<lambda>r. canonical_path (fr_path r)) (fs_rules fs)"
    and "sp \<in> set system_paths" and "required AND WRITE_MASK \<noteq> 0"
  shows "\<not> permits (compile_landlock pol abi) sp required"
proof
  assume "permits (compile_landlock pol abi) sp required"
  moreover have "required \<noteq> 0" using assms(4) by auto
  ultimately consider
      (fs) fs r where "filesystem pol = Some fs" "r \<in> set (fs_rules fs)" "path_starts_with sp (fr_path r)"
        "access_to_landlock_mask (fr_access r) AND known_at_abi abi AND required = required"
    | (exec) "(EXECUTE OR READ_FILE) AND required = required"
    unfolding permits_compile_landlock by blast
  then show False
  proof cases
    case fs
    then have "wf_fs_rule r" "canonical_path (fr_path r)"
      using assms(2) parse_policy_str_wf [OF assms(1)] by (auto simp: wf_policy_def list_all_iff)
    then have "access_to_landlock_mask (fr_access r) AND WRITE_MASK = 0"
      using beneath_system_path [OF _ assms(3) fs(3)]
      by (simp add: wf_fs_rule_def access_mask_no_write)
    then show False using mask_no_write fs(4) assms(4) by blast
  next
    case exec
    have "(EXECUTE OR READ_FILE) AND WRITE_MASK = 0" by (simp add: WRITE_MASK_eq landlock_bits)
    then show False using mask_no_write [of _ "-1"] exec assms(4) by simp
  qed
qed

section \<open>A concrete document\<close>

datatype yv = YNull | YBool bool | YNum u64 | YStr string | YSeq "yv list" | YMap "(string \<times> yv) list"

fun yv_get :: "yv \<Rightarrow> string \<Rightarrow> yv option" where
  "yv_get (YMap m) k = map_of m k"
| "yv_get _ k = None"

definition yv_api :: "(string \<Rightarrow> yv option) \<Rightarrow> yv yaml" where
  "yv_api parse =
     \<lparr>yaml_from_str = parse,
      yaml_index = (\<lambda>v k. case yv_get v k of None \<Rightarrow> YNull | Some w \<Rightarrow> w),
      yaml_get = yv_get,
      as_str = (\<lambda>v. case v of YStr s \<Rightarrow> Some s | _ \<Rightarrow> None),
      as_bool = (\<lambda>v. case v of YBool b \<Rightarrow> Some b | _ \<Rightarrow> None),
      as_u64 = (\<lambda>v. case v of YNum n \<Rightarrow> Some n | _ \<Rightarrow> None),
      as_sequence = (\<lambda>v. case v of YSeq l \<Rightarrow> Some l | _ \<Rightarrow> None)\<rparr>"

definition yaml_doc :: "string \<Rightarrow> string \<Rightarrow> yv" where
  "yaml_doc path verb =
     YMap [(''spec'', YMap [(''filesystem'', YMap [(''rules'',
       YSeq [YMap [(''path'', YStr path), (''access'', YSeq [YStr verb])]])])])]"

definition yaml_doc_policy :: "string \<Rightarrow> string \<Rightarrow> Policy" where
  "yaml_doc_policy path verb =
     \<lparr>api_version = ''aivisor/v1'', kind = ''SandboxPolicy'', metadata_name = ''default'',
      filesystem = Some \<lparr>fs_default = Deny,
        fs_rules = [\<lparr>fr_path = path, fr_access = [verb], fr_recursive = False\<rparr>]\<rparr>,
      exec = None, network = None, runtime = None, audit = None\<rparr>"

lemmas yaml_eval =
  parse_policy_str_def parse_fs_policy_def parse_exec_policy_def parse_net_policy_def
  parse_fs_rule_def parse_default_def parse_runtime_opts_def parse_audit_opts_def
  yv_api_def yaml_doc_def yaml_doc_policy_def unwrap_or_def seq_of_def string_list_def
  map_filter_def starts_with_def write_access_def system_paths_def

lemma parse_yaml_doc:
  "parse_policy_str (yv_api (\<lambda>_. Some (yaml_doc ''/etc/ssl'' ''read''))) [] =
     Inr (yaml_doc_policy ''/etc/ssl'' ''read'')"
  "parse_policy_str (yv_api (\<lambda>_. Some (yaml_doc ''/etc/'' ''write''))) [] =
     Inr (yaml_doc_policy ''/etc/'' ''write'')"
  "isl (parse_policy_str (yv_api (\<lambda>_. Some (yaml_doc ''/etc'' ''write''))) [])"
  by (simp_all add: yaml_eval)

theorem parsed_policy_wf_witness: "wf_policy (yaml_doc_policy ''/etc/ssl'' ''read'')"
  using parsed_policy_wf [OF parse_yaml_doc(1)] by blast

theorem system_paths_not_writable_witness:
  "\<not> permits (compile_landlock (yaml_doc_policy ''/etc/ssl'' ''read'') 3) ''/etc'' WRITE_FILE"
  by (rule system_paths_not_writable [OF parse_yaml_doc(1)])
     (simp_all add: yaml_doc_policy_def canonical_path_def starts_with_def system_paths_def
       WRITE_MASK_eq landlock_bits)

text \<open>
  The canonical spelling is needed: the ban on writing system paths compares strings, so a
  document that asks for write on \<^verbatim>\<open>/etc/\<close> is accepted although the same document with
  \<^verbatim>\<open>/etc\<close> is refused, and the compiled ruleset then permits writing \<^verbatim>\<open>/etc/passwd\<close>.
\<close>
theorem system_path_ban_bypassed:
  "isl (parse_policy_str (yv_api (\<lambda>_. Some (yaml_doc ''/etc'' ''write''))) []) \<and>
   (\<exists>pol. parse_policy_str (yv_api (\<lambda>_. Some (yaml_doc ''/etc/'' ''write''))) [] = Inr pol \<and>
      permits (compile_landlock pol abi) ''/etc/passwd'' WRITE_FILE)"
proof -
  have "path_starts_with ''/etc/passwd'' ''/etc/''"
    by (simp add: path_starts_with_def path_components_def starts_with_def)
  moreover have "access_to_landlock_mask [''write''] AND known_at_abi abi AND WRITE_FILE = WRITE_FILE"
    by (simp add: access_to_landlock_mask_def access_bits_def known_at_abi_def landlock_bits Let_def)
  ultimately have "permits (compile_landlock (yaml_doc_policy ''/etc/'' ''write'') abi) ''/etc/passwd'' WRITE_FILE"
    by (auto simp: permits_compile_landlock yaml_doc_policy_def)
  then show ?thesis using parse_yaml_doc(2,3) by blast
qed

end
