(* ===== verification/Rule_Allocator.thy ===== *)
theory Rule_Allocator
  imports Core
begin

text \<open>
  The allocator of contiguous index ranges in a rule map, \<^verbatim>\<open>RuleAllocator\<close> of
  \<^verbatim>\<open>aivisor-bpf/src/maps.rs\<close>, on 32-bit words. The free list is shown to be the unique
  canonical representation of the set of free indices, so that every operation is
  characterised by its effect on that set; the interface used by the map manager is the locale
  \<open>range_allocator\<close>.
\<close>

section \<open>The allocator\<close>

record RuleAllocator =
  what :: string
  free :: "(u32 \<times> u32) list"

definition allocator_new :: "string \<Rightarrow> u32 \<Rightarrow> RuleAllocator" where
  "allocator_new w capacity = \<lparr>what = w, free = [(0, capacity)]\<rparr>"

text \<open>\<^verbatim>\<open>Iterator::position\<close>\<close>

fun position :: "('a \<Rightarrow> bool) \<Rightarrow> 'a list \<Rightarrow> nat option" where
  "position P [] = None"
| "position P (x # xs) = (if P x then Some 0 else map_option Suc (position P xs))"

definition alloc :: "RuleAllocator \<Rightarrow> u32 \<Rightarrow> (error + u32) \<times> RuleAllocator" where
  "alloc a count =
     (if count = 0 then (Inr 0, a)
      else case position (\<lambda>(_, len). len \<ge> count) (free a) of
        None \<Rightarrow> (Inl (PolicyInvalid ''map has no free range (fragmented or full)''), a)
      | Some pos \<Rightarrow>
          (let (base, len) = free a ! pos
           in if len = count
              then (Inr base, a\<lparr>free := take pos (free a) @ drop (Suc pos) (free a)\<rparr>)
              else (Inr base, a\<lparr>free := (free a)[pos := (base + count, len - count)]\<rparr>)))"

text \<open>The merge loop of \<^verbatim>\<open>release\<close>, with its index.\<close>

function coalesce_loop :: "nat \<Rightarrow> (u32 \<times> u32) list \<Rightarrow> (u32 \<times> u32) list" where
  "coalesce_loop i fr =
     (if i + 1 < length fr then
        (let (b, l) = fr ! i; (nb, nlen) = fr ! (i + 1)
         in if b + l = nb
            then coalesce_loop i (take (i + 1) (fr[i := (b, l + nlen)]) @ drop (i + 2) fr)
            else coalesce_loop (i + 1) fr)
      else fr)"
  by pat_completeness auto
termination
  by (relation "measure (\<lambda>(i, fr). length fr - i)") auto

declare coalesce_loop.simps [simp del]

definition release :: "RuleAllocator \<Rightarrow> u32 \<Rightarrow> u32 \<Rightarrow> RuleAllocator" where
  "release a base count =
     (if count = 0 then a
      else let pos = length (takeWhile (\<lambda>(b, _). b < base) (free a))
           in a\<lparr>free := coalesce_loop 0 (take pos (free a) @ (base, count) # drop pos (free a))\<rparr>)"

section \<open>The set of free indices\<close>

definition span :: "u32 \<Rightarrow> u32 \<Rightarrow> nat set" where
  "span b n = {unat b ..< unat b + unat n}"

definition ranges_set :: "(u32 \<times> u32) list \<Rightarrow> nat set" where
  "ranges_set xs = (\<Union>(b, l)\<in>set xs. span b l)"

text \<open>Sorted, non-empty, within the capacity, and with a gap between neighbours: coalesced.\<close>

fun ranges_ok :: "nat \<Rightarrow> nat \<Rightarrow> (u32 \<times> u32) list \<Rightarrow> bool" where
  "ranges_ok lo cap [] \<longleftrightarrow> True"
| "ranges_ok lo cap ((b, l) # r) \<longleftrightarrow>
     lo \<le> unat b \<and> 0 < unat l \<and> unat b + unat l \<le> cap \<and> ranges_ok (unat b + unat l + 1) cap r"

text \<open>The same without the gap: what the list is between insertion and merging.\<close>

fun ranges_weak :: "nat \<Rightarrow> nat \<Rightarrow> (u32 \<times> u32) list \<Rightarrow> bool" where
  "ranges_weak lo cap [] \<longleftrightarrow> True"
| "ranges_weak lo cap ((b, l) # r) \<longleftrightarrow>
     lo \<le> unat b \<and> 0 < unat l \<and> unat b + unat l \<le> cap \<and> ranges_weak (unat b + unat l) cap r"

fun coalesce :: "(u32 \<times> u32) list \<Rightarrow> (u32 \<times> u32) list" where
  "coalesce [] = []"
| "coalesce [x] = [x]"
| "coalesce ((b, l) # (nb, nlen) # r) =
     (if b + l = nb then coalesce ((b, l + nlen) # r) else (b, l) # coalesce ((nb, nlen) # r))"

lemma span_0 [simp]: "span b 0 = {}"
  by (simp add: span_def)

lemma in_span [simp]: "k \<in> span b n \<longleftrightarrow> unat b \<le> k \<and> k < unat b + unat n"
  by (auto simp: span_def)

lemma ranges_set_simps [simp]:
  "ranges_set [] = {}"
  "ranges_set ((b, l) # r) = span b l \<union> ranges_set r"
  "ranges_set (xs @ ys) = ranges_set xs \<union> ranges_set ys"
  by (auto simp: ranges_set_def)

lemma ranges_ok_mono: "ranges_ok lo cap xs \<Longrightarrow> lo' \<le> lo \<Longrightarrow> ranges_ok lo' cap xs"
  by (cases xs) auto

lemma ranges_weak_mono: "ranges_weak lo cap xs \<Longrightarrow> lo' \<le> lo \<Longrightarrow> ranges_weak lo' cap xs"
  by (cases xs) auto

lemma ranges_ok_weak: "ranges_ok lo cap xs \<Longrightarrow> ranges_weak lo cap xs"
  by (induction lo cap xs rule: ranges_ok.induct) (auto intro: ranges_weak_mono)

lemma ranges_weak_bounds: "ranges_weak lo cap xs \<Longrightarrow> ranges_set xs \<subseteq> {lo..<cap}"
  by (induction lo cap xs rule: ranges_weak.induct) fastforce+

lemma ranges_ok_bounds: "ranges_ok lo cap xs \<Longrightarrow> ranges_set xs \<subseteq> {lo..<cap}"
  by (simp add: ranges_ok_weak ranges_weak_bounds)

fun next_lo :: "nat \<Rightarrow> (u32 \<times> u32) list \<Rightarrow> nat" where
  "next_lo lo [] = lo"
| "next_lo lo ((b, l) # r) = next_lo (unat b + unat l + 1) r"

lemma ranges_ok_append:
  "ranges_ok lo cap (xs @ ys) \<longleftrightarrow> ranges_ok lo cap xs \<and> ranges_ok (next_lo lo xs) cap ys"
  by (induction lo cap xs rule: ranges_ok.induct) auto

lemma next_lo_bounds:
  "ranges_ok lo cap xs \<Longrightarrow> lo \<le> next_lo lo xs \<and> ranges_set xs \<subseteq> {lo..<next_lo lo xs}"
  by (induction lo cap xs rule: ranges_ok.induct) fastforce+

lemma disjoint_parts:
  assumes "ranges_ok lo cap (xs @ (b, l) # r)"
  shows "ranges_set xs \<inter> span b l = {}" "ranges_set r \<inter> span b l = {}" "ranges_set xs \<inter> ranges_set r = {}"
    "0 < unat l" "unat b + unat l \<le> cap"
proof -
  from assms have xs: "ranges_ok lo cap xs" and b: "next_lo lo xs \<le> unat b" "0 < unat l" "unat b + unat l \<le> cap"
    and r: "ranges_ok (unat b + unat l + 1) cap r"
    by (simp_all add: ranges_ok_append)
  show "0 < unat l" "unat b + unat l \<le> cap" by (fact b)+
  have "ranges_set xs \<subseteq> {..<unat b}" using next_lo_bounds [OF xs] b(1) by auto
  moreover have "ranges_set r \<subseteq> {unat b + unat l..}" using ranges_ok_bounds [OF r] by auto
  ultimately show "ranges_set xs \<inter> span b l = {}" "ranges_set r \<inter> span b l = {}"
    "ranges_set xs \<inter> ranges_set r = {}" by fastforce+
qed

section \<open>The canonical representation is unique\<close>

lemma ranges_ok_hd_min:
  assumes "ranges_ok lo cap ((b, l) # r)"
  shows "unat b \<in> ranges_set ((b, l) # r)" "k \<in> ranges_set ((b, l) # r) \<Longrightarrow> unat b \<le> k"
    "unat b + unat l \<notin> ranges_set ((b, l) # r)"
proof -
  have r: "ranges_set r \<subseteq> {unat b + unat l + 1..<cap}" using assms ranges_ok_bounds by fastforce
  show "unat b \<in> ranges_set ((b, l) # r)" using assms by simp
  show "k \<in> ranges_set ((b, l) # r) \<Longrightarrow> unat b \<le> k" using r by auto
  show "unat b + unat l \<notin> ranges_set ((b, l) # r)" using r by auto
qed

lemma ranges_ok_unique:
  "ranges_ok lo cap xs \<Longrightarrow> ranges_ok lo' cap ys \<Longrightarrow> ranges_set xs = ranges_set ys \<Longrightarrow> xs = ys"
proof (induction xs arbitrary: ys lo lo')
  case Nil
  then show ?case by (cases ys) (use ranges_ok_hd_min(1) in fastforce)+
next
  case (Cons x xs)
  obtain b l where x: "x = (b, l)" by (cases x)
  obtain b' l' ys' where y: "ys = (b', l') # ys'"
    using Cons.prems ranges_ok_hd_min(1) [of lo cap b l xs] x by (cases ys) auto
  note h = ranges_ok_hd_min [OF Cons.prems(1) [unfolded x]] and
    h' = ranges_ok_hd_min [OF Cons.prems(2) [unfolded y]]
  have eq: "ranges_set ((b, l) # xs) = ranges_set ((b', l') # ys')" using Cons.prems(3) by (simp add: x y)
  have bb: "b = b'" using h(1,2) h'(1,2) eq by (metis antisym word_unat_eq_iff)
  have "\<not> unat l < unat l'"
  proof
    assume "unat l < unat l'"
    then have "unat b + unat l \<in> ranges_set ((b', l') # ys')" by (simp add: bb)
    with h(3) eq show False by metis
  qed
  moreover have "\<not> unat l' < unat l"
  proof
    assume "unat l' < unat l"
    then have "unat b' + unat l' \<in> ranges_set ((b, l) # xs)" by (simp add: bb)
    with h'(3) eq show False by metis
  qed
  ultimately have ll: "l = l'" by (simp add: word_unat_eq_iff)
  have "ranges_set xs = ranges_set ((b, l) # xs) - span b l"
    using disjoint_parts(2) [of lo cap "[]" b l xs] Cons.prems(1) by (auto simp: x)
  moreover have "ranges_set ys' = ranges_set ((b', l') # ys') - span b l"
    using disjoint_parts(2) [of lo' cap "[]" b' l' ys'] Cons.prems(2) by (auto simp: y bb ll)
  ultimately have "ranges_set xs = ranges_set ys'" using eq by simp
  then have "xs = ys'" using Cons.IH Cons.prems(1,2) by (auto simp: x y)
  then show ?case by (simp add: x y bb ll)
qed

text \<open>A contiguous run of free indices lies within one range of the list.\<close>

lemma run_in_one_range:
  assumes "ranges_ok lo cap xs" "{k..<k + n} \<subseteq> ranges_set xs" "0 < n"
  shows "\<exists>(b, l)\<in>set xs. unat b \<le> k \<and> k + n \<le> unat b + unat l"
  using assms
proof (induction xs arbitrary: lo)
  case (Cons x xs)
  obtain b l where x: "x = (b, l)" by (cases x)
  have r: "ranges_ok (unat b + unat l + 1) cap xs" using Cons.prems(1) by (simp add: x)
  have rb: "ranges_set xs \<subseteq> {unat b + unat l + 1..<cap}" by (rule ranges_ok_bounds [OF r])
  have k: "k \<in> span b l \<union> ranges_set xs"
    using Cons.prems(3) subsetD [OF Cons.prems(2), of k] by (simp add: x)
  show ?case
  proof (cases "k \<in> span b l")
    case True
    have "k + n \<le> unat b + unat l"
    proof (rule ccontr)
      assume "\<not> k + n \<le> unat b + unat l"
      then have "unat b + unat l \<in> {k..<k + n}" using True by auto
      then have "unat b + unat l \<in> span b l \<union> ranges_set xs" using Cons.prems(2) by (auto simp: x)
      then show False using rb by auto
    qed
    then show ?thesis using True by (auto simp: x)
  next
    case False
    with k rb have "unat b + unat l + 1 \<le> k" by auto
    then have "{k..<k + n} \<subseteq> ranges_set xs" using Cons.prems(2) by (fastforce simp: x)
    then show ?thesis using Cons.IH [OF r] Cons.prems(3) by auto
  qed
qed simp

section \<open>The operations on the set of free indices\<close>

definition allocator_ok :: "nat \<Rightarrow> RuleAllocator \<Rightarrow> bool" where
  "allocator_ok cap a \<longleftrightarrow> cap < 2 ^ 32 \<and> ranges_ok 0 cap (free a)"

definition free_set :: "RuleAllocator \<Rightarrow> nat set" where
  "free_set a = ranges_set (free a)"

lemma position_SomeD:
  "position P xs = Some i \<Longrightarrow> i < length xs \<and> P (xs ! i)"
  by (induction xs arbitrary: i) (auto split: if_splits)

lemma position_NoneD: "position P xs = None \<Longrightarrow> x \<in> set xs \<Longrightarrow> \<not> P x"
  by (induction xs) (auto split: if_splits)

lemma coalesce_loop_eq:
  "i \<le> length fr \<Longrightarrow> coalesce_loop i fr = take i fr @ coalesce (drop i fr)"
proof (induction i fr rule: coalesce_loop.induct)
  case (1 i fr)
  show ?case
  proof (cases "i + 1 < length fr")
    case True
    obtain b l where h: "fr ! i = (b, l)" by fastforce
    obtain nb nlen where h': "fr ! (i + 1) = (nb, nlen)" by fastforce
    have d: "drop i fr = (b, l) # (nb, nlen) # drop (i + 2) fr"
      using True h h' by (metis (no_types, lifting) Cons_nth_drop_Suc Suc_eq_plus1 add_2_eq_Suc'
          add_lessD1)
    show ?thesis
    proof (cases "b + l = nb")
      case merge: True
      let ?fr' = "take (i + 1) (fr[i := (b, l + nlen)]) @ drop (i + 2) fr"
      have t: "take (i + 1) (fr[i := (b, l + nlen)]) = take i fr @ [(b, l + nlen)]"
        using True by (simp add: take_Suc_conv_app_nth)
      have "coalesce_loop i fr = coalesce_loop i ?fr'"
        by (subst coalesce_loop.simps) (use True h h' merge in simp)
      also have "\<dots> = take i ?fr' @ coalesce (drop i ?fr')"
        by (rule "1.IH"(1)) (use True h h' merge in auto)
      finally show ?thesis using True merge unfolding d t by simp
    next
      case keep: False
      have "coalesce_loop i fr = coalesce_loop (i + 1) fr"
        by (subst coalesce_loop.simps) (use True h h' keep in simp)
      also have "\<dots> = take (i + 1) fr @ coalesce (drop (i + 1) fr)"
        by (rule "1.IH"(2)) (use True h h' keep in auto)
      also have "drop (i + 1) fr = (nb, nlen) # drop (i + 2) fr"
        using True h' by (simp add: Cons_nth_drop_Suc [symmetric])
      finally show ?thesis using True keep h unfolding d by (simp add: take_Suc_conv_app_nth)
    qed
  next
    case False
    have "coalesce (drop i fr) = drop i fr"
    proof (cases "drop i fr")
      case (Cons x xs)
      then have "xs = []" using False "1.prems"
        by (metis One_nat_def Suc_eq_plus1 add.commute le_add_diff_inverse length_drop length_Cons
            less_add_Suc1 list.size(3) nat_add_left_cancel_less neq_Nil_conv not_less_eq)
      then show ?thesis by (simp add: Cons)
    qed simp
    then show ?thesis using False by (subst coalesce_loop.simps) simp
  qed
qed

lemma coalesce_ok:
  "ranges_weak lo cap xs \<Longrightarrow> cap < 2 ^ 32 \<Longrightarrow>
   ranges_ok lo cap (coalesce xs) \<and> ranges_set (coalesce xs) = ranges_set xs"
proof (induction xs arbitrary: lo rule: coalesce.induct)
  case (3 b l nb nlen r)
  have w: "lo \<le> unat b" "0 < unat l" "unat b + unat l \<le> cap" "unat b + unat l \<le> unat nb"
    "0 < unat nlen" "unat nb + unat nlen \<le> cap" "ranges_weak (unat nb + unat nlen) cap r"
    using "3.prems"(1) by simp_all
  have bl: "unat (b + l) = unat b + unat l"
    by (rule unat_plus_small) (use w "3.prems"(2) in simp)
  show ?case
  proof (cases "b + l = nb")
    case True
    have ln: "unat (l + nlen) = unat l + unat nlen"
      by (rule unat_plus_small) (use w "3.prems"(2) in simp)
    have nb: "unat nb = unat b + unat l" using True bl by simp
    have "ranges_weak lo cap ((b, l + nlen) # r)"
      using w nb by (simp add: ln add.assoc)
    then have "ranges_ok lo cap (coalesce ((b, l + nlen) # r)) \<and>
        ranges_set (coalesce ((b, l + nlen) # r)) = ranges_set ((b, l + nlen) # r)"
      using "3.IH"(1) True "3.prems"(2) by blast
    moreover have "span b (l + nlen) = span b l \<union> span nb nlen"
      by (auto simp: ln nb)
    ultimately show ?thesis using True by (auto simp: Un_assoc)
  next
    case False
    then have "unat b + unat l \<noteq> unat nb" using bl by (metis word_unat_eq_iff)
    then have "ranges_weak (unat b + unat l + 1) cap ((nb, nlen) # r)" using w by simp
    then show ?thesis using "3.IH"(2) False "3.prems"(2) w by auto
  qed
qed auto

lemma weak_insert:
  "ranges_weak lo cap xs \<Longrightarrow> span b c \<inter> ranges_set xs = {} \<Longrightarrow> lo \<le> unat b \<Longrightarrow> 0 < unat c \<Longrightarrow>
   unat b + unat c \<le> cap \<Longrightarrow>
   ranges_weak lo cap (takeWhile (\<lambda>(x, _). x < b) xs @ (b, c) # dropWhile (\<lambda>(x, _). x < b) xs)"
proof (induction xs arbitrary: lo)
  case (Cons x xs)
  obtain b' l' where x: "x = (b', l')" by (cases x)
  have d: "span b c \<inter> span b' l' = {}" "span b c \<inter> ranges_set xs = {}"
    using Cons.prems(2) by (auto simp: x)
  have w: "lo \<le> unat b'" "0 < unat l'" "unat b' + unat l' \<le> cap" "ranges_weak (unat b' + unat l') cap xs"
    using Cons.prems(1) by (simp_all add: x)
  show ?case
  proof (cases "b' < b")
    case True
    have "unat b' + unat l' \<le> unat b"
    proof (rule ccontr)
      assume "\<not> ?thesis"
      then have "unat b \<in> span b c \<inter> span b' l'" using True Cons.prems(4) by (simp add: word_less_nat_alt)
      with d show False by blast
    qed
    then show ?thesis using Cons.IH [OF w(4) d(2)] Cons.prems True w by (simp add: x)
  next
    case False
    have "unat b + unat c \<le> unat b'"
    proof (rule ccontr)
      assume "\<not> ?thesis"
      then have "unat b' \<in> span b c \<inter> span b' l'" using False w(2) by (simp add: word_less_nat_alt)
      with d show False by blast
    qed
    then show ?thesis using Cons.prems False w by (simp add: x)
  qed
qed simp

lemma release_spec:
  assumes "allocator_ok cap a" "span b n \<inter> free_set a = {}" "unat b + unat n \<le> cap"
  shows "allocator_ok cap (release a b n) \<and> free_set (release a b n) = free_set a \<union> span b n"
proof (cases "n = 0")
  case True
  then show ?thesis using assms by (simp add: release_def)
next
  case False
  then have n: "0 < unat n" by (simp add: unat_gt_0)
  let ?P = "\<lambda>(x, _). x < b"
  let ?ins = "takeWhile ?P (free a) @ (b, n) # dropWhile ?P (free a)"
  have fr: "free (release a b n) = coalesce ?ins"
    using False by (simp add: release_def coalesce_loop_eq takeWhile_eq_take [symmetric]
        dropWhile_eq_drop [symmetric])
  have "ranges_weak 0 cap ?ins"
    using assms n by (intro weak_insert) (auto simp: allocator_ok_def free_set_def ranges_ok_weak)
  moreover have "ranges_set ?ins = free_set a \<union> span b n"
    using ranges_set_simps(3) [of "takeWhile ?P (free a)" "dropWhile ?P (free a)"]
    by (auto simp: free_set_def)
  ultimately show ?thesis
    using coalesce_ok [of 0 cap ?ins] assms(1) by (simp add: allocator_ok_def free_set_def fr)
qed

lemma alloc_spec:
  assumes "allocator_ok cap a" "alloc a n = (Inr b, a')"
  shows "allocator_ok cap a' \<and> span b n \<subseteq> free_set a \<and> free_set a' = free_set a - span b n"
proof (cases "n = 0")
  case True
  then show ?thesis using assms by (simp add: alloc_def)
next
  case False
  then have n: "0 < unat n" by (simp add: unat_gt_0)
  from assms(2) False obtain pos where pos: "position (\<lambda>(_, len). len \<ge> n) (free a) = Some pos"
    by (auto simp: alloc_def split: option.splits)
  obtain base len where h: "free a ! pos = (base, len)" by fastforce
  have len: "n \<le> len" and p: "pos < length (free a)" using position_SomeD [OF pos] h by auto
  have sp: "free a = take pos (free a) @ (base, len) # drop (Suc pos) (free a)"
    using p h by (metis id_take_nth_drop)
  have ok: "ranges_ok 0 cap (take pos (free a) @ (base, len) # drop (Suc pos) (free a))"
    and cap: "cap < 2 ^ 32"
    using assms(1) sp by (auto simp: allocator_ok_def)
  note dj = disjoint_parts [OF ok]
  have base: "b = base" using assms(2) False pos h by (auto simp: alloc_def split: if_splits)
  have fs: "free_set a = ranges_set (take pos (free a)) \<union> span base len \<union> ranges_set (drop (Suc pos) (free a))"
    unfolding free_set_def by (subst sp) (auto simp only: ranges_set_simps)
  have nl: "unat n \<le> unat len" using len by (simp add: word_le_nat_alt)
  show ?thesis
  proof (cases "len = n")
    case True
    then have fa: "free a' = take pos (free a) @ drop (Suc pos) (free a)"
      using assms(2) False pos h by (auto simp: alloc_def)
    have "ranges_ok 0 cap (free a')"
      using ok by (auto simp: fa ranges_ok_append intro: ranges_ok_mono)
    then show ?thesis
      using dj fs True cap by (auto simp: allocator_ok_def free_set_def fa base)
  next
    case ne: False
    then have fa: "free a' = take pos (free a) @ (base + n, len - n) # drop (Suc pos) (free a)"
      using assms(2) False pos h p by (auto simp: alloc_def upd_conv_take_nth_drop)
    have u: "unat (base + n) = unat base + unat n" "unat (len - n) = unat len - unat n"
      using dj(5) nl cap len by (auto intro!: unat_plus_small unat_minus_small)
    have lt: "unat n < unat len" using nl ne by (metis le_neq_implies_less word_unat_eq_iff)
    have "ranges_ok 0 cap (free a')"
      using ok lt by (auto simp: fa ranges_ok_append u)
    moreover have "span base len = span base n \<union> span (base + n) (len - n)"
      "span base n \<inter> span (base + n) (len - n) = {}"
      using lt by (auto simp: u)
    ultimately show ?thesis
      using dj fs cap by (auto simp: allocator_ok_def free_set_def fa base)
  qed
qed

lemma alloc_error:
  assumes "alloc a n = (Inl e, a')"
  shows "a' = a" "0 < unat n" "\<And>b l. (b, l) \<in> set (free a) \<Longrightarrow> unat l < unat n"
  using assms
  by (auto simp: alloc_def unat_gt_0 word_le_nat_alt split: if_splits option.splits prod.splits
      dest: position_NoneD)

section \<open>The interface\<close>

text \<open>
  What the map manager relies on: an allocation takes a run of indices out of the free set, a
  refused allocation changes nothing, and a release of indices that are not free puts them back.
\<close>

locale range_allocator =
  fixes alloc :: "'s \<Rightarrow> u32 \<Rightarrow> ('e + u32) \<times> 's"
    and release :: "'s \<Rightarrow> u32 \<Rightarrow> u32 \<Rightarrow> 's"
    and free :: "'s \<Rightarrow> nat set"
    and inv :: "'s \<Rightarrow> bool"
    and cap :: nat
  assumes free_bound: "inv s \<Longrightarrow> free s \<subseteq> {..<cap}"
    and alloc_law: "inv s \<Longrightarrow> alloc s n = (Inr b, s') \<Longrightarrow>
      inv s' \<and> span b n \<subseteq> free s \<and> free s' = free s - span b n"
    and alloc_refused: "inv s \<Longrightarrow> alloc s n = (Inl e, s') \<Longrightarrow> s' = s"
    and release_law: "inv s \<Longrightarrow> span b n \<inter> free s = {} \<Longrightarrow> span b n \<subseteq> {..<cap} \<Longrightarrow>
      inv (release s b n) \<and> free (release s b n) = free s \<union> span b n"

text \<open>The ranges handed out: pairwise disjoint, and with the free indices they make up the map.\<close>

fun disjoint_spans :: "(u32 \<times> u32) list \<Rightarrow> bool" where
  "disjoint_spans [] \<longleftrightarrow> True"
| "disjoint_spans ((b, l) # r) \<longleftrightarrow> span b l \<inter> ranges_set r = {} \<and> disjoint_spans r"

definition accounts :: "nat set \<Rightarrow> nat \<Rightarrow> (u32 \<times> u32) list \<Rightarrow> bool" where
  "accounts fr cap held \<longleftrightarrow>
     fr \<inter> ranges_set held = {} \<and> fr \<union> ranges_set held = {..<cap} \<and> disjoint_spans held"

lemma disjoint_spans_middle:
  "disjoint_spans (xs @ (b, n) # ys) \<longleftrightarrow>
     disjoint_spans (xs @ ys) \<and> span b n \<inter> ranges_set (xs @ ys) = {}"
  by (induction xs) (auto simp: Int_Un_distrib Int_commute simp del: in_span)

context range_allocator
begin

lemma alloc_accounts:
  assumes "inv s" "accounts (free s) cap held" "alloc s n = (Inr b, s')"
  shows "inv s' \<and> accounts (free s') cap ((b, n) # held)"
  using alloc_law [OF assms(1,3)] assms(2) unfolding accounts_def by auto

lemma release_accounts:
  assumes "inv s" "accounts (free s) cap (xs @ (b, n) # ys)"
  shows "inv (release s b n) \<and> accounts (free (release s b n)) cap (xs @ ys)"
proof -
  have a: "free s \<inter> ranges_set (xs @ (b, n) # ys) = {}"
    "free s \<union> ranges_set (xs @ (b, n) # ys) = {..<cap}"
    "disjoint_spans (xs @ ys)" "span b n \<inter> ranges_set (xs @ ys) = {}"
    using assms(2) by (auto simp: accounts_def disjoint_spans_middle)
  have "span b n \<inter> free s = {}" "span b n \<subseteq> {..<cap}" using a(1,2) by auto
  note r = release_law [OF assms(1) this]
  show ?thesis using r a by (auto simp: accounts_def)
qed

lemma release_after_alloc:
  assumes "inv s" "alloc s n = (Inr b, s')"
  shows "inv (release s' b n)" "free (release s' b n) = free s"
proof -
  note al = alloc_law [OF assms]
  have "span b n \<inter> free s' = {}" "span b n \<subseteq> {..<cap}" using al free_bound [OF assms(1)] by auto
  from release_law [OF _ this] al show "inv (release s' b n)" "free (release s' b n) = free s" by auto
qed

end

lemma free_set_bound: "allocator_ok cap a \<Longrightarrow> free_set a \<subseteq> {..<cap}"
  using ranges_ok_bounds by (fastforce simp: allocator_ok_def free_set_def)

lemma span_below: "span b n \<subseteq> {..<cap} \<Longrightarrow> n \<noteq> 0 \<Longrightarrow> unat b + unat n \<le> cap"
proof -
  assume s: "span b n \<subseteq> {..<cap}" and "n \<noteq> 0"
  then have "unat b + unat n - 1 \<in> span b n" by (simp add: unat_gt_0 [symmetric])
  with s show ?thesis by auto
qed

interpretation ra: range_allocator alloc release free_set "allocator_ok cap" cap
proof
  fix s b n
  assume a: "allocator_ok cap s" "span b n \<inter> free_set s = {}" "span b n \<subseteq> {..<cap}"
  show "allocator_ok cap (release s b n) \<and> free_set (release s b n) = free_set s \<union> span b n"
  proof (cases "n = 0")
    case True
    then show ?thesis using a by (simp add: release_def)
  next
    case False
    then show ?thesis using a release_spec span_below by blast
  qed
qed (use alloc_spec alloc_error(1) free_set_bound in blast)+

section \<open>Properties\<close>

text \<open>
  First-fit allocation on a coalesced free list is exact. If it succeeds, the \<^verbatim>\<open>count\<close>
  indices from the returned base were free and are no longer; if it fails, nothing changed and
  there is no contiguous run of \<^verbatim>\<open>count\<close> free indices anywhere in the map, so the refusal
  is never an artefact of how the free list is cut up.
\<close>
theorem alloc_exact:
  assumes "allocator_ok cap a"
  shows "case alloc a n of
      (Inr b, a') \<Rightarrow> allocator_ok cap a' \<and> span b n \<subseteq> free_set a \<and> free_set a' = free_set a - span b n
    | (Inl e, a') \<Rightarrow> a' = a \<and> (\<nexists>k. {k..<k + unat n} \<subseteq> free_set a)"
proof (cases "alloc a n")
  case (Pair r a')
  show ?thesis
  proof (cases r)
    case (Inl e)
    note er = alloc_error [OF Pair [unfolded Inl]]
    have "\<not> {k..<k + unat n} \<subseteq> free_set a" for k
    proof
      assume "{k..<k + unat n} \<subseteq> free_set a"
      then obtain b l where "(b, l) \<in> set (free a)" "unat b \<le> k" "k + unat n \<le> unat b + unat l"
        using run_in_one_range [of 0 cap "free a" k "unat n"] assms er(2)
        by (auto simp: allocator_ok_def free_set_def)
      then show False using er(3) [of b l] by linarith
    qed
    then show ?thesis using er(1) by (simp add: Pair Inl)
  next
    case (Inr b)
    show ?thesis using alloc_spec [OF assms Pair [unfolded Inr]] by (simp add: Pair Inr)
  qed
qed

theorem alloc_exact_witness:
  "allocator_ok 8 \<lparr>what = ''fs_rules'', free = [(0, 2), (4, 4)]\<rparr> \<and>
   (\<nexists>k. {k..<k + 5} \<subseteq> free_set \<lparr>what = ''fs_rules'', free = [(0, 2), (4, 4)]\<rparr>)"
proof -
  have ok: "allocator_ok 8 \<lparr>what = ''fs_rules'', free = [(0, 2), (4, 4)]\<rparr>"
    by (simp add: allocator_ok_def)
  show ?thesis
    using ok alloc_exact [OF ok, of 5] by (simp add: alloc_def word_le_nat_alt)
qed

text \<open>
  C12. Releasing a range right after allocating it restores the allocator exactly, free list and
  all: the split made by the allocation is undone by the merge in the release.
\<close>
theorem alloc_release_roundtrip:
  assumes "allocator_ok cap a" and "alloc a n = (Inr b, a')"
  shows "release a' b n = a"
proof -
  have "free (release a' b n) = free a"
    using ra.release_after_alloc [OF assms] assms(1) ranges_ok_unique [of 0 cap _ 0]
    by (auto simp: allocator_ok_def free_set_def)
  moreover have "what (release a' b n) = what a"
    using assms(2) by (auto simp: alloc_def release_def Let_def split: if_splits option.splits prod.splits)
  ultimately show ?thesis by simp
qed

theorem alloc_release_roundtrip_witness:
  "release (snd (alloc (allocator_new ''exec_rules'' 8192) 3)) 0 3 = allocator_new ''exec_rules'' 8192"
proof -
  have "allocator_ok 8192 (allocator_new ''exec_rules'' 8192)"
    by (simp add: allocator_ok_def allocator_new_def)
  moreover have "alloc (allocator_new ''exec_rules'' 8192) 3 =
      (Inr 0, snd (alloc (allocator_new ''exec_rules'' 8192) 3))"
    by (simp add: alloc_def allocator_new_def word_le_nat_alt)
  ultimately show ?thesis by (rule alloc_release_roundtrip)
qed

text \<open>The allocator over the life of the daemon, with the ranges it has handed out.\<close>

inductive allocator_run :: "string \<Rightarrow> u32 \<Rightarrow> RuleAllocator \<Rightarrow> (u32 \<times> u32) list \<Rightarrow> bool" for w c where
  start: "allocator_run w c (allocator_new w c) []"
| granted: "allocator_run w c a held \<Longrightarrow> alloc a n = (Inr b, a') \<Longrightarrow> allocator_run w c a' ((b, n) # held)"
| refused: "allocator_run w c a held \<Longrightarrow> alloc a n = (Inl e, a') \<Longrightarrow> allocator_run w c a' held"
| given_back: "allocator_run w c a (xs @ (b, n) # ys) \<Longrightarrow> allocator_run w c (release a b n) (xs @ ys)"

lemma allocator_run_inv:
  "allocator_run w c a held \<Longrightarrow> 0 < c \<Longrightarrow>
   allocator_ok (unat c) a \<and> accounts (free_set a) (unat c) held"
proof (induction rule: allocator_run.induct)
  case start
  have "unat c < 2 ^ 32" using unsigned_less [of c] by simp
  with start show ?case
    by (auto simp: allocator_ok_def allocator_new_def accounts_def free_set_def unat_gt_0)
next
  case (granted a held n b a')
  then show ?case using ra.alloc_accounts by blast
next
  case (refused a held n e a')
  then show ?case using alloc_error(1) by blast
next
  case (given_back a xs b n ys)
  then show ?case using ra.release_accounts by blast
qed

text \<open>
  C11. Over any history of allocations and releases, in any order, the ranges handed out are
  pairwise disjoint and disjoint from the free list, together they make up the whole map (no index
  is lost), and once every range has been given back the free list is again the single range it
  started with: churning sandboxes cannot leak or fragment the index space for good.
\<close>
theorem allocator_never_leaks:
  assumes "allocator_run w c a held" and "0 < c"
  shows "accounts (free_set a) (unat c) held \<and> (if held = [] then free a = [(0, c)] else True)"
proof -
  note inv = allocator_run_inv [OF assms]
  have "free a = [(0, c)]" if "held = []"
  proof (rule ranges_ok_unique)
    show "ranges_ok 0 (unat c) (free a)" using inv by (simp add: allocator_ok_def)
    show "ranges_ok 0 (unat c) [(0, c)]" using assms(2) by (simp add: unat_gt_0)
    show "ranges_set (free a) = ranges_set [(0, c)]"
      using inv that by (simp add: accounts_def free_set_def span_def lessThan_atLeast0)
  qed
  then show ?thesis using inv by simp
qed

theorem allocator_never_leaks_witness:
  "\<exists>a. allocator_run ''exec_rules'' 8 a [] \<and> free a = [(0, 8)]"
proof -
  have "allocator_run ''exec_rules'' 8 (release (snd (alloc (allocator_new ''exec_rules'' 8) 3)) 0 3) ([] @ [])"
    by (rule given_back, simp, rule granted [OF start])
       (simp add: alloc_def allocator_new_def word_le_nat_alt)
  then obtain a where a: "allocator_run ''exec_rules'' 8 a []" by (metis append_Nil)
  from allocator_never_leaks [OF a] have "free a = [(0, 8)]" by simp
  with a show ?thesis by blast
qed

end
