(* ===== verification/Bpf_Wire.thy ===== *)
theory Bpf_Wire
  imports Core
begin

text \<open>
  The structures that cross the Rust/BPF boundary as raw bytes: \<^verbatim>\<open>SandboxCtx\<close>,
  \<^verbatim>\<open>FsRule\<close>, \<^verbatim>\<open>ExecRule\<close> and \<^verbatim>\<open>NetKey\<close> of \<^verbatim>\<open>maps.rs\<close> with their encoders, and the
  matching C structures of \<^verbatim>\<open>common.h\<close> as readers at field offsets. Every reader is shown to
  recover what the encoder wrote.
\<close>

section \<open>Encoders\<close>

record SandboxCtx =
  sandbox_seq :: u64
  flags :: u32
  policy_gen :: u32
  fs_rules_base :: u32
  fs_rules_count :: u32
  exec_rules_base :: u32
  exec_rules_count :: u32
  net_rules_base :: u32
  net_rules_count :: u32
  turn_id :: u64

definition FLAG_ENFORCING :: u32 where "FLAG_ENFORCING = 1"
definition FLAG_DIRTY :: u32 where "FLAG_DIRTY = 2"
definition FLAG_KILL_PENDING :: u32 where "FLAG_KILL_PENDING = 4"

definition CTX_SIZE :: nat where "CTX_SIZE = 48"

definition deny_all :: SandboxCtx where
  "deny_all =
     \<lparr>sandbox_seq = 0, flags = FLAG_ENFORCING, policy_gen = 0, fs_rules_base = 0, fs_rules_count = 0,
      exec_rules_base = 0, exec_rules_count = 0, net_rules_base = 0, net_rules_count = 0, turn_id = 0\<rparr>"

definition registered_for_setup :: SandboxCtx where
  "registered_for_setup = deny_all\<lparr>flags := 0\<rparr>"

definition ctx_to_bytes :: "SandboxCtx \<Rightarrow> bytes" where
  "ctx_to_bytes c =
     le_bytes 8 (sandbox_seq c) @ le_bytes 4 (flags c) @ le_bytes 4 (policy_gen c) @
     le_bytes 4 (fs_rules_base c) @ le_bytes 4 (fs_rules_count c) @
     le_bytes 4 (exec_rules_base c) @ le_bytes 4 (exec_rules_count c) @
     le_bytes 4 (net_rules_base c) @ le_bytes 4 (net_rules_count c) @ le_bytes 8 (turn_id c)"

definition u32_at :: "bytes \<Rightarrow> nat \<Rightarrow> u32" where
  "u32_at b off = of_le_bytes (take 4 (drop off b))"

definition u64_at :: "bytes \<Rightarrow> nat \<Rightarrow> u64" where
  "u64_at b off = of_le_bytes (take 8 (drop off b))"

definition ctx_from_bytes :: "bytes \<Rightarrow> SandboxCtx option" where
  "ctx_from_bytes b =
     (if length b < CTX_SIZE then None
      else Some \<lparr>sandbox_seq = u64_at b 0, flags = u32_at b 8, policy_gen = u32_at b 12,
                 fs_rules_base = u32_at b 16, fs_rules_count = u32_at b 20,
                 exec_rules_base = u32_at b 24, exec_rules_count = u32_at b 28,
                 net_rules_base = u32_at b 32, net_rules_count = u32_at b 36, turn_id = u64_at b 40\<rparr>)"

record WireFsRule =
  path_hash :: u64
  access_mask :: u64

definition fs_rule_to_bytes :: "WireFsRule \<Rightarrow> bytes" where
  "fs_rule_to_bytes r = le_bytes 8 (path_hash r) @ le_bytes 8 (access_mask r)"

record WireExecRule =
  er_dev :: u64
  er_inode :: u64
  er_hash :: bytes

definition exec_rule_to_bytes :: "WireExecRule \<Rightarrow> bytes" where
  "exec_rule_to_bytes r = le_bytes 8 (er_dev r) @ le_bytes 8 (er_inode r) @ er_hash r"

record NetKey =
  prefixlen :: u32
  cgid :: u64
  addr :: u32

definition net_key_to_bytes :: "NetKey \<Rightarrow> bytes" where
  "net_key_to_bytes k = le_bytes 4 (prefixlen k) @ le_bytes 8 (cgid k) @ le_bytes 4 (addr k)"

section \<open>The C structures\<close>

text \<open>Fields of \<^verbatim>\<open>struct fs_rule\<close>, \<^verbatim>\<open>struct exec_rule\<close> and of \<^verbatim>\<open>struct sandbox_ctx\<close>, and
  the store to \<^verbatim>\<open>ctx->flags\<close> through the map value pointer.\<close>

definition c_fs_rule :: "bytes \<Rightarrow> WireFsRule" where
  "c_fs_rule b = \<lparr>path_hash = u64_at b 0, access_mask = u64_at b 8\<rparr>"

definition c_exec_rule :: "bytes \<Rightarrow> WireExecRule" where
  "c_exec_rule b = \<lparr>er_dev = u64_at b 0, er_inode = u64_at b 8, er_hash = take 32 (drop 16 b)\<rparr>"

definition c_set_flags :: "bytes \<Rightarrow> u32 \<Rightarrow> bytes" where
  "c_set_flags b f = take 8 b @ le_bytes 4 f @ drop 12 b"

lemma length_ctx_to_bytes [simp]: "length (ctx_to_bytes c) = 48"
  by (simp add: ctx_to_bytes_def)


lemma ctx_from_to_bytes: "ctx_from_bytes (ctx_to_bytes c) = Some c"
  by (simp add: ctx_from_bytes_def CTX_SIZE_def u32_at_def u64_at_def ctx_to_bytes_def)

lemma c_fs_rule_to_bytes [simp]: "c_fs_rule (fs_rule_to_bytes r) = r"
  by (simp add: c_fs_rule_def fs_rule_to_bytes_def u64_at_def)

lemma c_exec_rule_to_bytes [simp]:
  "length (er_hash r) = 32 \<Longrightarrow> c_exec_rule (exec_rule_to_bytes r) = r"
  by (simp add: c_exec_rule_def exec_rule_to_bytes_def u64_at_def)

lemma c_exec_rule_ids [simp]:
  "er_dev (c_exec_rule (exec_rule_to_bytes r)) = er_dev r"
  "er_inode (c_exec_rule (exec_rule_to_bytes r)) = er_inode r"
  by (simp_all add: c_exec_rule_def exec_rule_to_bytes_def u64_at_def)

lemma c_set_flags_ctx: "c_set_flags (ctx_to_bytes c) f = ctx_to_bytes (c\<lparr>flags := f\<rparr>)"
  by (simp add: c_set_flags_def ctx_to_bytes_def)

lemma ctx_to_bytes_inj: "ctx_to_bytes a = ctx_to_bytes b \<longleftrightarrow> a = b"
  by (metis ctx_from_to_bytes option.inject)

lemma ctx_to_from_bytes:
  assumes "length b = 48" "ctx_from_bytes b = Some c"
  shows "ctx_to_bytes c = b"
proof -
  have e4: "le_bytes 4 (u32_at b off) = take 4 (drop off b)" if "off + 4 \<le> 48" for off
    unfolding u32_at_def by (rule le_bytes_of_le_bytes) (use assms(1) that in auto)
  have e8: "le_bytes 8 (u64_at b off) = take 8 (drop off b)" if "off + 8 \<le> 48" for off
    unfolding u64_at_def by (rule le_bytes_of_le_bytes) (use assms(1) that in auto)
  have c: "c = \<lparr>sandbox_seq = u64_at b 0, flags = u32_at b 8, policy_gen = u32_at b 12,
                 fs_rules_base = u32_at b 16, fs_rules_count = u32_at b 20,
                 exec_rules_base = u32_at b 24, exec_rules_count = u32_at b 28,
                 net_rules_base = u32_at b 32, net_rules_count = u32_at b 36, turn_id = u64_at b 40\<rparr>"
    using assms by (simp add: ctx_from_bytes_def CTX_SIZE_def)
  have "ctx_to_bytes c = take 8 (drop 0 b) @ take 4 (drop 8 b) @ take 4 (drop 12 b) @ take 4 (drop 16 b) @
      take 4 (drop 20 b) @ take 4 (drop 24 b) @ take 4 (drop 28 b) @ take 4 (drop 32 b) @
      take 4 (drop 36 b) @ take 8 (drop 40 b)"
    by (simp add: ctx_to_bytes_def c e4 e8 del: drop_0)
  also have "\<dots> = take 48 b"
    using take_add [of 8 4 b] take_add [of 12 4 b] take_add [of 16 4 b] take_add [of 20 4 b]
      take_add [of 24 4 b] take_add [of 28 4 b] take_add [of 32 4 b] take_add [of 36 4 b] take_add [of 40 8 b]
    by simp
  finally show ?thesis using assms(1) by simp
qed

text \<open>
  C19. The \<^verbatim>\<open>sandbox_ctx\<close> written by the daemon is the one read back, field for field; every
  48-byte value read is re-encoded byte for byte; and a flag set in place by a BPF program, through
  the map value pointer, changes that flag word and no other field.
\<close>
theorem sandbox_ctx_roundtrip:
  "ctx_from_bytes (ctx_to_bytes c) = Some c \<and>
   (length b = 48) = (\<exists>x. b = ctx_to_bytes x) \<and>
   ctx_from_bytes (c_set_flags (ctx_to_bytes c) f) = Some (c\<lparr>flags := f\<rparr>)"
proof -
  have "\<exists>x. b = ctx_to_bytes x" if "length b = 48"
  proof -
    have "ctx_from_bytes b \<noteq> None" by (simp add: ctx_from_bytes_def CTX_SIZE_def that)
    then show ?thesis using ctx_to_from_bytes [OF that] by (metis not_None_eq)
  qed
  then show ?thesis by (auto simp: ctx_from_to_bytes c_set_flags_ctx)
qed

end
