(* ===== verification/Bpf_Maps.thy ===== *)
theory Bpf_Maps
  imports Bpf_Wire
begin

text \<open>
  The pinned BPF maps the daemon writes and the programs read. The three hash maps are partial
  functions from key bytes to value bytes. The longest-prefix-match trie is kernel code: it is a
  parameter, constrained by the locale \<open>lpm_trie\<close> (update, delete and longest-match lookup as
  documented for \<^verbatim>\<open>BPF_MAP_TYPE_LPM_TRIE\<close>), which is interpreted on a binary trie. Every
  map operation may fail: \<open>kfault\<close> says which of the operations of a run, counted by
  \<open>tick\<close>, the kernel refuses, and all theorems hold for every \<open>kfault\<close> unless they say otherwise.
\<close>

section \<open>Maps and the operations on them\<close>

datatype hmap = Sandboxes | FsRules | ExecRules

record 't bpf_maps =
  hmaps :: "hmap \<Rightarrow> bytes \<Rightarrow> bytes option"
  net_rules :: 't
  tick :: nat

record 't kernel =
  kfault :: "nat \<Rightarrow> bool"
  lpm_update :: "'t \<Rightarrow> bytes \<Rightarrow> bytes \<Rightarrow> 't"
  lpm_delete :: "'t \<Rightarrow> bytes \<Rightarrow> 't"
  lpm_lookup :: "'t \<Rightarrow> bytes \<Rightarrow> bytes option"

definition map_update :: "'t kernel \<Rightarrow> hmap \<Rightarrow> bytes \<Rightarrow> bytes \<Rightarrow> 't bpf_maps \<Rightarrow> bool \<times> 't bpf_maps" where
  "map_update K n k v m =
     (let m' = m\<lparr>tick := Suc (tick m)\<rparr>
      in if kfault K (tick m) then (False, m')
         else (True, m'\<lparr>hmaps := (hmaps m)(n := (hmaps m n)(k \<mapsto> v))\<rparr>))"

definition map_delete :: "'t kernel \<Rightarrow> hmap \<Rightarrow> bytes \<Rightarrow> 't bpf_maps \<Rightarrow> bool \<times> 't bpf_maps" where
  "map_delete K n k m =
     (let m' = m\<lparr>tick := Suc (tick m)\<rparr>
      in if kfault K (tick m) then (False, m')
         else (hmaps m n k \<noteq> None, m'\<lparr>hmaps := (hmaps m)(n := (hmaps m n)(k := None))\<rparr>))"

definition map_lookup ::
  "'t kernel \<Rightarrow> hmap \<Rightarrow> bytes \<Rightarrow> 't bpf_maps \<Rightarrow> (unit + bytes option) \<times> 't bpf_maps" where
  "map_lookup K n k m =
     (let m' = m\<lparr>tick := Suc (tick m)\<rparr>
      in if kfault K (tick m) then (Inl (), m') else (Inr (hmaps m n k), m'))"

definition net_update :: "'t kernel \<Rightarrow> bytes \<Rightarrow> bytes \<Rightarrow> 't bpf_maps \<Rightarrow> bool \<times> 't bpf_maps" where
  "net_update K k v m =
     (let m' = m\<lparr>tick := Suc (tick m)\<rparr>
      in if kfault K (tick m) then (False, m')
         else (True, m'\<lparr>net_rules := lpm_update K (net_rules m) k v\<rparr>))"

definition net_delete :: "'t kernel \<Rightarrow> bytes \<Rightarrow> 't bpf_maps \<Rightarrow> 't bpf_maps" where
  "net_delete K k m =
     (let m' = m\<lparr>tick := Suc (tick m)\<rparr>
      in if kfault K (tick m) then m'
         else m'\<lparr>net_rules := lpm_delete K (net_rules m) k\<rparr>)"

section \<open>Longest prefix match\<close>

text \<open>The key bytes are \<^verbatim>\<open>prefixlen\<close> and the data; data bits are compared from the most
  significant bit of the first byte on.\<close>

definition byte_bits :: "u8 \<Rightarrow> bool list" where
  "byte_bits b = map (\<lambda>i. bit b (7 - i)) [0..<8]"

definition data_bits :: "bytes \<Rightarrow> bool list" where
  "data_bits bs = concat (map byte_bits bs)"

definition key_prefix :: "bytes \<Rightarrow> bool list" where
  "key_prefix k = take (unat (u32_at k 0)) (data_bits (drop 4 k))"

function longest_match :: "(bool list \<Rightarrow> 'v option) \<Rightarrow> bool list \<Rightarrow> 'v option" where
  "longest_match m bits =
     (case m bits of
        Some v \<Rightarrow> Some v
      | None \<Rightarrow> if bits = [] then None else longest_match m (butlast bits))"
  by pat_completeness auto
termination
  by (relation "measure (\<lambda>(m, bits). length bits)") auto

declare longest_match.simps [simp del]

locale lpm_trie =
  fixes K :: "'t kernel" and stored :: "'t \<Rightarrow> bool list \<Rightarrow> bytes option"
  assumes stored_update: "stored (lpm_update K t k v) = (stored t)(key_prefix k \<mapsto> v)"
    and stored_delete: "stored (lpm_delete K t k) = (stored t)(key_prefix k := None)"
    and lookup_longest: "lpm_lookup K t k = longest_match (stored t) (key_prefix k)"

lemma take_butlast_le: "i \<le> length bits - Suc 0 \<Longrightarrow> take i (butlast bits) = take i bits"
  by (simp add: butlast_conv_take min_absorb1)

lemma longest_match_Nil: "longest_match m [] = m []"
  by (subst longest_match.simps) (auto split: option.splits)

lemma longest_match_snoc:
  "longest_match m (bs @ [x]) = (case m (bs @ [x]) of Some v \<Rightarrow> Some v | None \<Rightarrow> longest_match m bs)"
  by (subst longest_match.simps) (simp split: option.split)

text \<open>Longest match, said without recursion.\<close>

lemma last_index_Suc:
  "(\<exists>n\<le>Suc l. P n \<and> (\<forall>i. n < i \<and> i \<le> Suc l \<longrightarrow> Q i)) \<longleftrightarrow>
   P (Suc l) \<or> Q (Suc l) \<and> (\<exists>n\<le>l. P n \<and> (\<forall>i. n < i \<and> i \<le> l \<longrightarrow> Q i))"
  by (auto simp: le_Suc_eq)

lemma longest_match_Some:
  "longest_match m bits = Some v \<longleftrightarrow>
     (\<exists>n\<le>length bits. m (take n bits) = Some v \<and> (\<forall>i. n < i \<and> i \<le> length bits \<longrightarrow> m (take i bits) = None))"
proof (induction bits rule: rev_induct)
  case Nil
  then show ?case by (simp add: longest_match.simps split: option.split)
next
  case (snoc b bits)
  then show ?case by (simp add: last_index_Suc longest_match_snoc cong: conj_cong split: option.split)
qed

lemma longest_match_cong:
  "(\<And>n. n \<le> length bits \<Longrightarrow> m (take n bits) = m' (take n bits)) \<Longrightarrow>
   longest_match m bits = longest_match m' bits"
proof (induction m bits rule: longest_match.induct)
  case (1 m bits)
  have e: "m bits = m' bits" using "1.prems" [of "length bits"] by simp
  show ?case
  proof (cases "m bits = None \<and> bits \<noteq> []")
    case True
    have "longest_match m (butlast bits) = longest_match m' (butlast bits)"
      by (rule "1.IH") (use True "1.prems" in \<open>auto simp: take_butlast_le\<close>)
    then show ?thesis
      using True e by (subst longest_match.simps, subst longest_match.simps [of m']) simp
  next
    case False
    then show ?thesis
      using e by (subst longest_match.simps, subst longest_match.simps [of m'])
        (auto split: option.splits)
  qed
qed

section \<open>A trie\<close>

datatype bit_trie = Leaf | Node "bytes option" bit_trie bit_trie

fun bt_get :: "bit_trie \<Rightarrow> bool list \<Rightarrow> bytes option" where
  "bt_get Leaf _ = None"
| "bt_get (Node v l r) [] = v"
| "bt_get (Node v l r) (b # bs) = bt_get (if b then r else l) bs"

fun bt_set :: "bytes option \<Rightarrow> bool list \<Rightarrow> bit_trie \<Rightarrow> bit_trie" where
  "bt_set w [] Leaf = Node w Leaf Leaf"
| "bt_set w [] (Node v l r) = Node w l r"
| "bt_set w (b # bs) Leaf = (if b then Node None Leaf (bt_set w bs Leaf) else Node None (bt_set w bs Leaf) Leaf)"
| "bt_set w (b # bs) (Node v l r) = (if b then Node v l (bt_set w bs r) else Node v (bt_set w bs l) r)"

fun bt_longest :: "bytes option \<Rightarrow> bit_trie \<Rightarrow> bool list \<Rightarrow> bytes option" where
  "bt_longest best Leaf _ = best"
| "bt_longest best (Node v l r) [] = (if v = None then best else v)"
| "bt_longest best (Node v l r) (b # bs) =
     bt_longest (if v = None then best else v) (if b then r else l) bs"

lemma bt_get_set: "bt_get (bt_set w k t) = (bt_get t)(k := w)"
proof
  fix x
  show "bt_get (bt_set w k t) x = ((bt_get t)(k := w)) x"
    by (induction w k t arbitrary: x rule: bt_set.induct) (case_tac x; auto)+
qed

lemma longest_match_Cons:
  "longest_match m (b # bs) =
     (case longest_match (\<lambda>x. m (b # x)) bs of Some v \<Rightarrow> Some v | None \<Rightarrow> m [])"
proof (induction bs rule: rev_induct)
  case Nil
  show ?case
    using longest_match_snoc [of m "[]" b] by (simp add: longest_match_Nil split: option.split)
next
  case (snoc x bs)
  then show ?case
    using longest_match_snoc [of m "b # bs" x]
    by (simp add: longest_match_snoc split: option.splits)
qed

lemma bt_longest_eq:
  "bt_longest best t bits = (case longest_match (bt_get t) bits of Some v \<Rightarrow> Some v | None \<Rightarrow> best)"
proof (induction best t bits rule: bt_longest.induct)
  case (1 best bits)
  have "longest_match (\<lambda>a. None :: bytes option) bits = None"
    by (induction bits rule: rev_induct) (simp_all add: longest_match_Nil longest_match_snoc)
  then show ?case by simp
next
  case (2 best v l r)
  then show ?case by (subst longest_match.simps) (auto split: option.splits)
next
  case (3 best v l r b bs)
  then show ?case by (auto simp: longest_match_Cons split: option.splits)
qed

definition trie_kernel :: "(nat \<Rightarrow> bool) \<Rightarrow> bit_trie kernel" where
  "trie_kernel f =
     \<lparr>kfault = f,
      lpm_update = (\<lambda>t k v. bt_set (Some v) (key_prefix k) t),
      lpm_delete = (\<lambda>t k. bt_set None (key_prefix k) t),
      lpm_lookup = (\<lambda>t k. bt_longest None t (key_prefix k))\<rparr>"

interpretation bt: lpm_trie "trie_kernel f" bt_get
  by unfold_locales (auto simp: trie_kernel_def bt_get_set bt_longest_eq split: option.splits)

lemma trie_kernel_lpm: "lpm_trie (trie_kernel f) bt_get"
  by (rule bt.lpm_trie_axioms)

end
