(* ===== verification/Bpf_Manager.thy ===== *)
theory Bpf_Manager
  imports Policy_Compile Rule_Allocator Bpf_Maps
begin

unbundle bit_operations_syntax

text \<open>
  The userspace manager of the BPF maps, \<^verbatim>\<open>BpfManager\<close> of \<^verbatim>\<open>aivisor-bpf/src/maps.rs\<close>:
  registration, policy installation and swap, turns, teardown, and the resolution of exec and
  network rules. The host filesystem, SHA-256 and the \<^verbatim>\<open>major\<close>/\<^verbatim>\<open>minor\<close> macros are
  parameters. An operation takes and returns the manager, whose field \<open>maps\<close> is the kernel's
  state; operations hold the manager's lock throughout, so each is one step.
\<close>

section \<open>Limits\<close>

definition MAX_RULES_PER_SANDBOX :: u32 where "MAX_RULES_PER_SANDBOX = 64"
definition FS_RULES_CAPACITY :: u32 where "FS_RULES_CAPACITY = 65536"
definition EXEC_RULES_CAPACITY :: u32 where "EXEC_RULES_CAPACITY = 8192"
definition NET_KEY_CGID_BITS :: u32 where "NET_KEY_CGID_BITS = 64"

definition len_u32 :: "'a list \<Rightarrow> u32" where
  "len_u32 xs = (if length xs < 2 ^ 32 then of_nat (length xs) else - 1)"

definition check_rule_count :: "u32 \<Rightarrow> error + unit" where
  "check_rule_count count =
     (if count > MAX_RULES_PER_SANDBOX then Inl (PolicyInvalid ''too many rules for one sandbox'')
      else Inr ())"

section \<open>Network rules\<close>

text \<open>\<^verbatim>\<open>Ipv4Addr::from_str\<close>: four decimal octets of one to three digits, without leading zeros.\<close>

definition parse_octet :: "string \<Rightarrow> u8 option" where
  "parse_octet s =
     (if s = [] \<or> length s > 3 \<or> (length s > 1 \<and> hd s = CHR ''0'') then None
      else case digits_value 10 0 s of
             None \<Rightarrow> None | Some n \<Rightarrow> if n < 256 then Some (of_nat n) else None)"

definition parse_ipv4 :: "string \<Rightarrow> bytes option" where
  "parse_ipv4 s =
     (case map parse_octet (split_on CHR ''.'' s) of
        [Some a, Some b, Some c, Some d] \<Rightarrow> Some [a, b, c, d]
      | _ \<Rightarrow> None)"

text \<open>\<^verbatim>\<open>u32::from(addr).to_be()\<close> on a little-endian target: the octets are the bytes of the word
  in memory order.\<close>

definition octets_be :: "bytes \<Rightarrow> u32" where
  "octets_be os = of_le_bytes os"

definition parse_cidr :: "string \<Rightarrow> error + (u32 \<times> u32)" where
  "parse_cidr cidr =
     (let (addr_part, prefix_part) =
            (case split_once CHR ''/'' cidr of Some (a, p) \<Rightarrow> (a, p) | None \<Rightarrow> (cidr, ''32''))
      in rbind (ok_or (PolicyInvalid ''not an IPv4 address'') (parse_ipv4 addr_part)) (\<lambda>addr.
         rbind (ok_or (PolicyInvalid ''bad prefix length'') (parse_uint 32 prefix_part)) (\<lambda>prefix.
           if prefix > 32 then Inl (PolicyInvalid ''prefix length exceeds 32'')
           else Inr (octets_be addr, of_nat prefix))))"

fun ports_bitmap :: "u64 \<Rightarrow> u16 list \<Rightarrow> error + u64" where
  "ports_bitmap acc [] = Inr acc"
| "ports_bitmap acc (port # ps) =
     (if port \<ge> 64 then Inl (Unsupported ''the v1 port bitmap only encodes ports 0-63'')
      else ports_bitmap (acc OR push_bit (unat port) 1) ps)"

definition resolve_net_rule :: "u64 \<Rightarrow> BpfNetRule \<Rightarrow> error + (NetKey \<times> u64)" where
  "resolve_net_rule cg rule =
     rbind (parse_cidr (bn_cidr rule)) (\<lambda>(a, prefix).
     rbind (ports_bitmap 0 (bn_ports rule)) (\<lambda>ports.
       Inr (\<lparr>prefixlen = NET_KEY_CGID_BITS + prefix, cgid = cg, addr = a\<rparr>, ports)))"

definition resolve_net_rules :: "u64 \<Rightarrow> BpfNetRule list \<Rightarrow> error + (NetKey \<times> u64) list" where
  "resolve_net_rules cg rules = traverse (resolve_net_rule cg) rules"

section \<open>Exec rules\<close>

record metadata =
  md_is_file :: bool
  md_mode :: u32
  md_dev :: u64
  md_ino :: u64

text \<open>A directory entry is an error, or an entry whose metadata may be unreadable.\<close>

record host =
  read_dir :: "string \<Rightarrow> (metadata option) option list option"
  stat :: "string \<Rightarrow> metadata option"
  read_file :: "string \<Rightarrow> bytes option"
  sha256 :: "bytes \<Rightarrow> bytes"
  dev_major :: "u64 \<Rightarrow> u64"
  dev_minor :: "u64 \<Rightarrow> u64"

definition to_kernel_dev :: "host \<Rightarrow> u64 \<Rightarrow> u64" where
  "to_kernel_dev H st_dev = (push_bit 20 (dev_major H st_dev)) OR dev_minor H st_dev"

definition verify_sha256_pin :: "host \<Rightarrow> string \<Rightarrow> bytes \<Rightarrow> error + unit" where
  "verify_sha256_pin H path expected =
     rbind (ok_or (PolicyInvalid ''read to verify sha256 pin'') (read_file H path)) (\<lambda>bs.
       if sha256 H bs \<noteq> expected then Inl (PolicyInvalid ''sha256 pin mismatch'') else Inr ())"

fun prefix_entries :: "host \<Rightarrow> metadata option option list \<Rightarrow> error + WireExecRule list" where
  "prefix_entries H [] = Inr []"
| "prefix_entries H (None # es) = Inl (PolicyInvalid ''read exec prefix'')"
| "prefix_entries H (Some None # es) = prefix_entries H es"
| "prefix_entries H (Some (Some md) # es) =
     (if md_is_file md \<and> md_mode md AND 0x49 \<noteq> 0
      then rbind (prefix_entries H es) (\<lambda>rs.
        Inr (\<lparr>er_dev = to_kernel_dev H (md_dev md), er_inode = md_ino md, er_hash = replicate 32 0\<rparr> # rs))
      else prefix_entries H es)"

definition resolve_exec_rule :: "host \<Rightarrow> BpfExecRule \<Rightarrow> error + WireExecRule list" where
  "resolve_exec_rule H rule =
     (if is_prefix rule then
        rbind (ok_or (PolicyInvalid ''exec prefix rule cannot be read'') (read_dir H (be_path rule)))
          (prefix_entries H)
      else
        rbind (ok_or (PolicyInvalid ''exec rule cannot be stat'') (stat H (be_path rule))) (\<lambda>md.
        rbind (case be_hash rule of None \<Rightarrow> Inr () | Some e \<Rightarrow> verify_sha256_pin H (be_path rule) e) (\<lambda>_.
          Inr [\<lparr>er_dev = to_kernel_dev H (md_dev md), er_inode = md_ino md,
                er_hash = (case be_hash rule of None \<Rightarrow> replicate 32 0 | Some h \<Rightarrow> h)\<rparr>])))"

definition resolve_exec_rules :: "host \<Rightarrow> BpfExecRule list \<Rightarrow> error + WireExecRule list" where
  "resolve_exec_rules H rules = rbind (traverse (resolve_exec_rule H) rules) (\<lambda>rss. Inr (concat rss))"

datatype ExecSource = HostPaths | Resolved "ExecIdentity list"

definition exec_entries_of :: "host \<Rightarrow> BpfPlan \<Rightarrow> ExecSource \<Rightarrow> error + WireExecRule list" where
  "exec_entries_of H plan src =
     (case src of
        HostPaths \<Rightarrow> resolve_exec_rules H (bp_exec_rules plan)
      | Resolved ids \<Rightarrow>
          Inr (map (\<lambda>i. \<lparr>er_dev = ei_dev i, er_inode = ei_inode i, er_hash = replicate 32 0\<rparr>) ids))"

section \<open>The manager\<close>

record SandboxBpfState =
  st_fs_base :: u32
  st_fs_count :: u32
  st_exec_base :: u32
  st_exec_count :: u32
  net_keys :: "NetKey list"

record 't BpfManager =
  maps :: "'t bpf_maps"
  registered :: "u64 \<Rightarrow> SandboxBpfState option"
  mgr_gen :: u32
  fs_alloc :: RuleAllocator
  exec_alloc :: RuleAllocator

definition manager_new :: "'t bpf_maps \<Rightarrow> 't BpfManager" where
  "manager_new m =
     \<lparr>maps = m, registered = Map.empty, mgr_gen = 0,
      fs_alloc = allocator_new ''fs_rules'' FS_RULES_CAPACITY,
      exec_alloc = allocator_new ''exec_rules'' EXEC_RULES_CAPACITY\<rparr>"

abbreviation cg_key :: "u64 \<Rightarrow> bytes" where "cg_key cg \<equiv> le_bytes 8 cg"
abbreviation idx_key :: "u32 \<Rightarrow> bytes" where "idx_key i \<equiv> le_bytes 4 i"

definition read_ctx :: "'t kernel \<Rightarrow> u64 \<Rightarrow> 't BpfManager \<Rightarrow> (error + SandboxCtx) \<times> 't BpfManager" where
  "read_ctx K cg mgr =
     (let (r, m') = map_lookup K Sandboxes (cg_key cg) (maps mgr); mgr' = mgr\<lparr>maps := m'\<rparr>
      in case r of
           Inl _ \<Rightarrow> (Inl (LaunchFailed ''lookup sandbox_ctx''), mgr')
         | Inr None \<Rightarrow> (Inl (PolicyInvalid ''no sandbox_ctx for cgroup id''), mgr')
         | Inr (Some raw) \<Rightarrow>
             (ok_or (LaunchFailed ''sandbox_ctx size: Rust/C struct mismatch'') (ctx_from_bytes raw), mgr'))"

definition write_ctx ::
  "'t kernel \<Rightarrow> u64 \<Rightarrow> SandboxCtx \<Rightarrow> string \<Rightarrow> 't BpfManager \<Rightarrow> (error + unit) \<times> 't BpfManager" where
  "write_ctx K cg ctx msg mgr =
     (let (ok, m') = map_update K Sandboxes (cg_key cg) (ctx_to_bytes ctx) (maps mgr)
      in (if ok then Inr () else Inl (LaunchFailed msg), mgr\<lparr>maps := m'\<rparr>))"

definition register_sandbox :: "'t kernel \<Rightarrow> u64 \<Rightarrow> 't BpfManager \<Rightarrow> (error + unit) \<times> 't BpfManager" where
  "register_sandbox K cg mgr =
     (if registered mgr cg \<noteq> None then
        (Inl (PolicyInvalid ''cgroup id is already registered in the BPF sandbox map''), mgr)
      else case write_ctx K cg registered_for_setup ''register cgroup in BPF sandboxes map'' mgr of
        (Inl e, mgr') \<Rightarrow> (Inl e, mgr')
      | (Inr _, mgr') \<Rightarrow>
          (Inr (), mgr'\<lparr>registered := (registered mgr')(cg \<mapsto>
             \<lparr>st_fs_base = 0, st_fs_count = 0, st_exec_base = 0, st_exec_count = 0, net_keys = []\<rparr>)\<rparr>))"

definition begin_setup :: "'t kernel \<Rightarrow> u64 \<Rightarrow> 't BpfManager \<Rightarrow> (error + unit) \<times> 't BpfManager" where
  "begin_setup K cg mgr =
     (if registered mgr cg = None then (Inl (PolicyInvalid ''cgroup id is not registered''), mgr)
      else case read_ctx K cg mgr of
        (Inl e, mgr') \<Rightarrow> (Inl e, mgr')
      | (Inr ctx, mgr') \<Rightarrow>
          write_ctx K cg (ctx\<lparr>flags := flags ctx AND NOT FLAG_ENFORCING\<rparr>) ''reset to setup state'' mgr')"

fun write_fs_rules :: "'t kernel \<Rightarrow> u32 \<Rightarrow> BpfFsRule list \<Rightarrow> 't bpf_maps \<Rightarrow> (error + unit) \<times> 't bpf_maps" where
  "write_fs_rules K idx [] m = (Inr (), m)"
| "write_fs_rules K idx (r # rs) m =
     (let v = fs_rule_to_bytes \<lparr>path_hash = bf_path_hash r, access_mask = bf_access_mask r\<rparr>
      in case map_update K FsRules (idx_key idx) v m of
           (False, m') \<Rightarrow> (Inl (LaunchFailed ''write fs_rules''), m')
         | (True, m') \<Rightarrow> write_fs_rules K (idx + 1) rs m')"

fun write_exec_rules :: "'t kernel \<Rightarrow> u32 \<Rightarrow> WireExecRule list \<Rightarrow> 't bpf_maps \<Rightarrow> (error + unit) \<times> 't bpf_maps" where
  "write_exec_rules K idx [] m = (Inr (), m)"
| "write_exec_rules K idx (r # rs) m =
     (case map_update K ExecRules (idx_key idx) (exec_rule_to_bytes r) m of
        (False, m') \<Rightarrow> (Inl (LaunchFailed ''write exec_rules''), m')
      | (True, m') \<Rightarrow> write_exec_rules K (idx + 1) rs m')"

fun write_net_rules :: "'t kernel \<Rightarrow> (NetKey \<times> u64) list \<Rightarrow> 't bpf_maps \<Rightarrow> (error + unit) \<times> 't bpf_maps" where
  "write_net_rules K [] m = (Inr (), m)"
| "write_net_rules K ((key, ports) # es) m =
     (case net_update K (net_key_to_bytes key) (le_bytes 8 ports) m of
        (False, m') \<Rightarrow> (Inl (LaunchFailed ''write net_rules''), m')
      | (True, m') \<Rightarrow> write_net_rules K es m')"

definition write_rules ::
  "'t kernel \<Rightarrow> u32 \<Rightarrow> BpfFsRule list \<Rightarrow> u32 \<Rightarrow> WireExecRule list \<Rightarrow> (NetKey \<times> u64) list \<Rightarrow> 't bpf_maps
     \<Rightarrow> (error + unit) \<times> 't bpf_maps" where
  "write_rules K fs_base fs exec_base ex net m =
     (case write_fs_rules K fs_base fs m of
        (Inl e, m1) \<Rightarrow> (Inl e, m1)
      | (Inr _, m1) \<Rightarrow>
          (case write_exec_rules K exec_base ex m1 of
             (Inl e, m2) \<Rightarrow> (Inl e, m2)
           | (Inr _, m2) \<Rightarrow> write_net_rules K net m2))"

definition delete_rule_range :: "'t kernel \<Rightarrow> hmap \<Rightarrow> u32 \<Rightarrow> u32 \<Rightarrow> 't bpf_maps \<Rightarrow> 't bpf_maps" where
  "delete_rule_range K n base count m =
     foldl (\<lambda>m i. snd (map_delete K n (idx_key (base + of_nat i)) m)) m [0..<unat count]"

definition delete_net_keys :: "'t kernel \<Rightarrow> NetKey list \<Rightarrow> 't bpf_maps \<Rightarrow> 't bpf_maps" where
  "delete_net_keys K ks m = foldl (\<lambda>m k. net_delete K (net_key_to_bytes k) m) m ks"

text \<open>The swap of \<^verbatim>\<open>update_policy\<close>: bump the generation, point the context at the new ranges,
  then take the old rules down.\<close>

definition swap_policy ::
  "'t kernel \<Rightarrow> u64 \<Rightarrow> u32 \<Rightarrow> u32 \<Rightarrow> u32 \<Rightarrow> u32 \<Rightarrow> (NetKey \<times> u64) list \<Rightarrow> 't BpfManager
     \<Rightarrow> (error + unit) \<times> 't BpfManager" where
  "swap_policy K cg fs_base fs_count exec_base exec_count net mgr =
     (let mgr1 = mgr\<lparr>mgr_gen := mgr_gen mgr + 1\<rparr> in
      case read_ctx K cg mgr1 of
        (Inl e, mgr2) \<Rightarrow> (Inl e, mgr2)
      | (Inr existing, mgr2) \<Rightarrow>
      (let ctx = \<lparr>sandbox_seq = sandbox_seq existing, flags = flags existing OR FLAG_ENFORCING,
                  policy_gen = mgr_gen mgr1, fs_rules_base = fs_base, fs_rules_count = fs_count,
                  exec_rules_base = exec_base, exec_rules_count = exec_count,
                  net_rules_base = 0, net_rules_count = len_u32 net, turn_id = turn_id existing\<rparr> in
       case write_ctx K cg ctx ''swap sandbox_ctx'' mgr2 of
        (Inl e, mgr3) \<Rightarrow> (Inl e, mgr3)
      | (Inr _, mgr3) \<Rightarrow>
      (let mgr4 = mgr3\<lparr>registered := (registered mgr3)(cg \<mapsto>
             \<lparr>st_fs_base = fs_base, st_fs_count = fs_count, st_exec_base = exec_base,
              st_exec_count = exec_count, net_keys = map fst net\<rparr>)\<rparr> in
       case registered mgr3 cg of
        None \<Rightarrow> (Inl (PolicyInvalid ''cgroup id vanished mid-update''), mgr4)
      | Some old \<Rightarrow>
       (let m = delete_rule_range K FsRules (st_fs_base old) (st_fs_count old) (maps mgr4);
            m = delete_rule_range K ExecRules (st_exec_base old) (st_exec_count old) m;
            m = delete_net_keys K (filter (\<lambda>k. k \<notin> set (map fst net)) (net_keys old)) m
        in (Inr (), mgr4\<lparr>maps := m,
              fs_alloc := release (fs_alloc mgr4) (st_fs_base old) (st_fs_count old),
              exec_alloc := release (exec_alloc mgr4) (st_exec_base old) (st_exec_count old)\<rparr>)))))"

text \<open>The part of \<^verbatim>\<open>update_policy\<close> under the lock, after everything that can be validated is.\<close>

definition install_policy ::
  "'t kernel \<Rightarrow> u64 \<Rightarrow> BpfFsRule list \<Rightarrow> WireExecRule list \<Rightarrow> (NetKey \<times> u64) list \<Rightarrow> 't BpfManager
     \<Rightarrow> (error + unit) \<times> 't BpfManager" where
  "install_policy K cg fs ex net mgr =
     (let fs_count = len_u32 fs; exec_count = len_u32 ex in
      if registered mgr cg = None then (Inl (PolicyInvalid ''cgroup id is not registered''), mgr) else
      case alloc (fs_alloc mgr) fs_count of
        (Inl e, fa) \<Rightarrow> (Inl e, mgr\<lparr>fs_alloc := fa\<rparr>)
      | (Inr fs_base, fa) \<Rightarrow>
      (case alloc (exec_alloc mgr) exec_count of
        (Inl e, ea) \<Rightarrow> (Inl e, mgr\<lparr>fs_alloc := release fa fs_base fs_count, exec_alloc := ea\<rparr>)
      | (Inr exec_base, ea) \<Rightarrow>
      (case write_rules K fs_base fs exec_base ex net (maps mgr) of
        (Inl e, m) \<Rightarrow>
          (let m = delete_net_keys K (map fst net) m;
               m = delete_rule_range K FsRules fs_base fs_count m;
               m = delete_rule_range K ExecRules exec_base exec_count m
           in (Inl e, mgr\<lparr>maps := m, fs_alloc := release fa fs_base fs_count,
                           exec_alloc := release ea exec_base exec_count\<rparr>))
      | (Inr _, m) \<Rightarrow>
          swap_policy K cg fs_base fs_count exec_base exec_count net
            (mgr\<lparr>maps := m, fs_alloc := fa, exec_alloc := ea\<rparr>))))"

definition update_policy ::
  "'t kernel \<Rightarrow> host \<Rightarrow> u64 \<Rightarrow> BpfPlan \<Rightarrow> ExecSource \<Rightarrow> 't BpfManager \<Rightarrow> (error + unit) \<times> 't BpfManager" where
  "update_policy K H cg plan src mgr =
     (case check_rule_count (len_u32 (bp_fs_rules plan)) of
        Inl e \<Rightarrow> (Inl e, mgr)
      | Inr _ \<Rightarrow>
      (case exec_entries_of H plan src of
        Inl e \<Rightarrow> (Inl e, mgr)
      | Inr exec_entries \<Rightarrow>
      (case check_rule_count (len_u32 exec_entries) of
        Inl e \<Rightarrow> (Inl e, mgr)
      | Inr _ \<Rightarrow>
      (case resolve_net_rules cg (bp_net_rules plan) of
        Inl e \<Rightarrow> (Inl e, mgr)
      | Inr net_entries \<Rightarrow> install_policy K cg (bp_fs_rules plan) exec_entries net_entries mgr))))"

definition deregister_sandbox :: "'t kernel \<Rightarrow> u64 \<Rightarrow> 't BpfManager \<Rightarrow> (error + unit) \<times> 't BpfManager" where
  "deregister_sandbox K cg mgr =
     (case registered mgr cg of
        None \<Rightarrow> (Inr (), mgr)
      | Some st \<Rightarrow>
          (let m = delete_rule_range K FsRules (st_fs_base st) (st_fs_count st) (maps mgr);
               m = delete_rule_range K ExecRules (st_exec_base st) (st_exec_count st) m;
               m = delete_net_keys K (net_keys st) m;
               (ok, m) = map_delete K Sandboxes (cg_key cg) m
           in (if ok then Inr () else Inl (LaunchFailed ''delete cgroup from BPF sandboxes map''),
               mgr\<lparr>maps := m, registered := (registered mgr)(cg := None),
                   fs_alloc := release (fs_alloc mgr) (st_fs_base st) (st_fs_count st),
                   exec_alloc := release (exec_alloc mgr) (st_exec_base st) (st_exec_count st)\<rparr>)))"

definition is_turn_dirty :: "'t kernel \<Rightarrow> u64 \<Rightarrow> 't BpfManager \<Rightarrow> (error + bool) \<times> 't BpfManager" where
  "is_turn_dirty K cg mgr =
     (let (r, mgr') = read_ctx K cg mgr
      in (rbind r (\<lambda>ctx. Inr (flags ctx AND FLAG_DIRTY \<noteq> 0)), mgr'))"

definition bpf_begin_turn :: "'t kernel \<Rightarrow> u64 \<Rightarrow> u64 \<Rightarrow> 't BpfManager \<Rightarrow> (error + unit) \<times> 't BpfManager" where
  "bpf_begin_turn K cg turn mgr =
     (case read_ctx K cg mgr of
        (Inl e, mgr') \<Rightarrow> (Inl e, mgr')
      | (Inr ctx, mgr') \<Rightarrow>
          write_ctx K cg (ctx\<lparr>flags := flags ctx AND NOT FLAG_DIRTY, turn_id := turn\<rparr>) ''begin turn'' mgr')"

record TurnOutcome =
  to_turn_id :: u64
  to_dirty :: bool

definition bpf_end_turn :: "'t kernel \<Rightarrow> u64 \<Rightarrow> 't BpfManager \<Rightarrow> (error + TurnOutcome) \<times> 't BpfManager" where
  "bpf_end_turn K cg mgr =
     (let (r, mgr') = read_ctx K cg mgr
      in (rbind r (\<lambda>ctx. Inr \<lparr>to_turn_id = turn_id ctx, to_dirty = (flags ctx AND FLAG_DIRTY \<noteq> 0)\<rparr>), mgr'))"

definition policy_generation :: "'t kernel \<Rightarrow> u64 \<Rightarrow> 't BpfManager \<Rightarrow> (error + u32) \<times> 't BpfManager" where
  "policy_generation K cg mgr =
     (let (r, mgr') = read_ctx K cg mgr in (rbind r (\<lambda>ctx. Inr (policy_gen ctx)), mgr'))"

section \<open>What an operation may touch\<close>

text \<open>
  \<open>frame\<close>: going from maps \<open>m\<close> to \<open>m'\<close> changed at most the context of cgroup \<open>c\<close>, the
  rule indices in \<open>I\<close> (filesystem) and \<open>J\<close> (exec), and trie entries whose first 64 bits are \<open>c\<close>.
\<close>

definition cg_bits :: "u64 \<Rightarrow> bool list" where
  "cg_bits c = data_bits (cg_key c)"

definition frame ::
  "('t \<Rightarrow> bool list \<Rightarrow> bytes option) \<Rightarrow> nat set \<Rightarrow> nat set \<Rightarrow> u64 \<Rightarrow> 't bpf_maps \<Rightarrow> 't bpf_maps \<Rightarrow> bool" where
  "frame stored I J c m m' \<longleftrightarrow>
     (\<forall>k. k \<noteq> cg_key c \<longrightarrow> hmaps m' Sandboxes k = hmaps m Sandboxes k) \<and>
     (\<forall>i. unat i \<notin> I \<longrightarrow> hmaps m' FsRules (idx_key i) = hmaps m FsRules (idx_key i)) \<and>
     (\<forall>i. unat i \<notin> J \<longrightarrow> hmaps m' ExecRules (idx_key i) = hmaps m ExecRules (idx_key i)) \<and>
     (\<forall>p. take 64 p \<noteq> cg_bits c \<longrightarrow> stored (net_rules m') p = stored (net_rules m) p)"

text \<open>The same for the context of \<open>c\<close>, which most steps leave alone.\<close>

definition same_ctx :: "'t bpf_maps \<Rightarrow> 't bpf_maps \<Rightarrow> bool" where
  "same_ctx m m' \<longleftrightarrow> hmaps m' Sandboxes = hmaps m Sandboxes"

lemma le_bytes_inj:
  assumes "LENGTH('a) \<le> 8 * n"
  shows "le_bytes n (x :: 'a::len word) = le_bytes n y \<longleftrightarrow> x = y"
  using of_le_bytes_le_bytes [OF assms] by metis

lemma idx_key_inj [simp]: "idx_key i = idx_key j \<longleftrightarrow> i = j"
  by (rule le_bytes_inj) simp

lemma cg_key_inj [simp]: "cg_key i = cg_key j \<longleftrightarrow> i = j"
  by (rule le_bytes_inj) simp

lemma length_byte_bits [simp]: "length (byte_bits b) = 8"
  by (simp add: byte_bits_def)

lemma length_data_bits [simp]: "length (data_bits bs) = 8 * length bs"
  by (induction bs) (simp_all add: data_bits_def)

lemma data_bits_append: "data_bits (a @ b) = data_bits a @ data_bits b"
  by (simp add: data_bits_def)

lemma byte_bits_inj: "byte_bits a = byte_bits b \<longleftrightarrow> a = b"
proof
  assume e: "byte_bits a = byte_bits b"
  show "a = b"
  proof (rule bit_word_eqI)
    fix n assume n: "n < LENGTH(8)"
    then have "byte_bits a ! (7 - n) = byte_bits b ! (7 - n)" using e by simp
    then show "bit a n \<longleftrightarrow> bit b n" using n by (simp add: byte_bits_def)
  qed
qed simp

lemma data_bits_inj: "length a = length b \<Longrightarrow> data_bits a = data_bits b \<longleftrightarrow> a = b"
proof (induction a b rule: list_induct2)
  case (Cons x xs y ys)
  then show ?case by (simp add: data_bits_def byte_bits_inj)
qed simp

lemma length_cg_bits [simp]: "length (cg_bits c) = 64"
  by (simp add: cg_bits_def)

lemma cg_bits_inj [simp]: "cg_bits c = cg_bits d \<longleftrightarrow> c = d"
  by (simp add: cg_bits_def data_bits_inj)

lemma key_prefix_net_key:
  "key_prefix (net_key_to_bytes k) = take (unat (prefixlen k)) (cg_bits (cgid k) @ data_bits (idx_key (addr k)))"
  by (simp add: key_prefix_def net_key_to_bytes_def u32_at_def data_bits_append cg_bits_def)

lemma take64_key_prefix:
  "64 \<le> unat (prefixlen k) \<Longrightarrow> take 64 (key_prefix (net_key_to_bytes k)) = cg_bits (cgid k)"
  by (simp add: key_prefix_net_key min_absorb2)

lemma frame_refl [simp]: "frame stored I J c m m"
  by (simp add: frame_def)

lemma frame_trans [trans]:
  "frame stored I J c m m' \<Longrightarrow> frame stored I J c m' m'' \<Longrightarrow> frame stored I J c m m''"
  by (simp add: frame_def)

lemma frame_mono: "frame stored I J c m m' \<Longrightarrow> I \<subseteq> I' \<Longrightarrow> J \<subseteq> J' \<Longrightarrow> frame stored I' J' c m m'"
  unfolding frame_def by blast

lemma same_ctx_refl [simp]: "same_ctx m m"
  by (simp add: same_ctx_def)

lemma same_ctx_trans: "same_ctx m m' \<Longrightarrow> same_ctx m' m'' \<Longrightarrow> same_ctx m m''"
  by (simp add: same_ctx_def)

lemma map_update_frame:
  assumes "map_update K n k v m = (ok, m')"
  shows "n = FsRules \<Longrightarrow> k = idx_key i \<Longrightarrow> unat i \<in> I \<Longrightarrow> frame stored I J c m m' \<and> same_ctx m m'"
    and "n = ExecRules \<Longrightarrow> k = idx_key i \<Longrightarrow> unat i \<in> J \<Longrightarrow> frame stored I J c m m' \<and> same_ctx m m'"
    and "n = Sandboxes \<Longrightarrow> k = cg_key c \<Longrightarrow> frame stored I J c m m'"
  using assms by (auto simp: map_update_def frame_def same_ctx_def Let_def split: if_splits)

lemma map_delete_frame:
  assumes "map_delete K n k m = (ok, m')"
  shows "n = FsRules \<Longrightarrow> k = idx_key i \<Longrightarrow> unat i \<in> I \<Longrightarrow> frame stored I J c m m' \<and> same_ctx m m'"
    and "n = ExecRules \<Longrightarrow> k = idx_key i \<Longrightarrow> unat i \<in> J \<Longrightarrow> frame stored I J c m m' \<and> same_ctx m m'"
    and "n = Sandboxes \<Longrightarrow> k = cg_key c \<Longrightarrow> frame stored I J c m m'"
  using assms by (auto simp: map_delete_def frame_def same_ctx_def Let_def split: if_splits)

lemma unat_idx:
  assumes "unat (base :: u32) + n < 2 ^ 32" "i \<le> n"
  shows "unat (base + of_nat i) = unat base + i"
proof -
  have "unat (of_nat i :: u32) = i" using assms by (simp add: unsigned_of_nat take_bit_nat_eq_self)
  then show ?thesis using assms by (subst unat_plus_small) simp_all
qed

lemma delete_rule_range_frame:
  assumes "span base count \<subseteq> (if n = FsRules then I else J)" "n \<noteq> Sandboxes"
    and "unat base + unat count < 2 ^ 32"
  shows "frame stored I J c m (delete_rule_range K n base count m) \<and>
         same_ctx m (delete_rule_range K n base count m)"
proof -
  have step: "frame stored I J c m' (snd (map_delete K n (idx_key (base + of_nat i)) m')) \<and>
      same_ctx m' (snd (map_delete K n (idx_key (base + of_nat i)) m'))" if "i < unat count" for i m'
  proof -
    have "unat (base + of_nat i) \<in> span base count"
      using unat_idx [OF assms(3), of i] that by simp
    then have s: "unat (base + of_nat i) \<in> (if n = FsRules then I else J)" using assms(1) by blast
    obtain ok m2 where d: "map_delete K n (idx_key (base + of_nat i)) m' = (ok, m2)" by fastforce
    show ?thesis
    proof (cases n)
      case FsRules
      then show ?thesis using map_delete_frame(1) [OF d FsRules refl] s d by simp
    next
      case ExecRules
      then show ?thesis using map_delete_frame(2) [OF d ExecRules refl] s d by simp
    qed (use assms(2) in simp)
  qed
  have "frame stored I J c m (foldl (\<lambda>m i. snd (map_delete K n (idx_key (base + of_nat i)) m)) m is) \<and>
      same_ctx m (foldl (\<lambda>m i. snd (map_delete K n (idx_key (base + of_nat i)) m)) m is)"
    if "set is \<subseteq> {..<unat count}" for "is"
    using that
  proof (induction "is" rule: rev_induct)
    case (snoc x xs)
    then show ?case using step [of x] by (auto intro: frame_trans same_ctx_trans)
  qed simp
  from this [of "[0..<unat count]"] show ?thesis by (simp add: delete_rule_range_def atLeast0LessThan)
qed

context lpm_trie
begin

lemma net_update_frame:
  assumes "net_update K (net_key_to_bytes k) v m = (ok, m')" "cgid k = c" "64 \<le> unat (prefixlen k)"
  shows "frame stored I J c m m' \<and> same_ctx m m'"
  using assms take64_key_prefix [of k]
  by (auto simp: net_update_def frame_def same_ctx_def Let_def stored_update split: if_splits)

lemma net_delete_frame:
  assumes "cgid k = c" "64 \<le> unat (prefixlen k)"
  shows "frame stored I J c m (net_delete K (net_key_to_bytes k) m) \<and>
         same_ctx m (net_delete K (net_key_to_bytes k) m)"
  using assms take64_key_prefix [of k]
  by (auto simp: net_delete_def frame_def same_ctx_def Let_def stored_delete)

lemma delete_net_keys_frame:
  assumes "\<And>k. k \<in> set ks \<Longrightarrow> cgid k = c \<and> 64 \<le> unat (prefixlen k)"
  shows "frame stored I J c m (delete_net_keys K ks m) \<and> same_ctx m (delete_net_keys K ks m)"
  using assms unfolding delete_net_keys_def
proof (induction ks rule: rev_induct)
  case (snoc k ks)
  then show ?case using net_delete_frame [of k c] by (auto intro: frame_trans same_ctx_trans)
qed simp

lemma write_net_rules_frame:
  assumes "write_net_rules K es m = (r, m')"
    and "\<And>k v. (k, v) \<in> set es \<Longrightarrow> cgid k = c \<and> 64 \<le> unat (prefixlen k)"
  shows "frame stored I J c m m' \<and> same_ctx m m'"
  using assms
proof (induction es arbitrary: m)
  case (Cons e es)
  obtain key ports where e: "e = (key, ports)" by (cases e)
  obtain ok m1 where u: "net_update K (net_key_to_bytes key) (le_bytes 8 ports) m = (ok, m1)" by fastforce
  have f: "frame stored I J c m m1 \<and> same_ctx m m1"
    using net_update_frame [OF u] Cons.prems(2) [of key ports] by (simp add: e)
  show ?case
  proof (cases ok)
    case True
    then have "frame stored I J c m1 m' \<and> same_ctx m1 m'"
      using Cons.prems u by (intro Cons.IH [of m1]) (auto simp: e)
    then show ?thesis using f by (blast intro: frame_trans same_ctx_trans)
  next
    case False
    then show ?thesis using Cons.prems(1) u f by (simp add: e)
  qed
qed simp

end

lemma write_fs_rules_frame:
  assumes "write_fs_rules K idx rs m = (r, m')"
    and "unat idx + length rs < 2 ^ 32" "{unat idx..<unat idx + length rs} \<subseteq> I"
  shows "frame stored I J c m m' \<and> same_ctx m m'"
  using assms
proof (induction rs arbitrary: m idx)
  case (Cons x rs)
  obtain ok m1 where u: "map_update K FsRules (idx_key idx)
      (fs_rule_to_bytes \<lparr>path_hash = bf_path_hash x, access_mask = bf_access_mask x\<rparr>) m = (ok, m1)" by fastforce
  have f: "frame stored I J c m m1 \<and> same_ctx m m1"
    by (rule map_update_frame(1) [OF u refl refl]) (use Cons.prems(3) in auto)
  have n: "unat (idx + 1) = unat idx + 1" using unat_idx [of idx "Suc 0" "Suc 0"] Cons.prems(2) by simp
  show ?case
  proof (cases ok)
    case True
    then have "frame stored I J c m1 m' \<and> same_ctx m1 m'"
      using Cons.prems u n by (intro Cons.IH [of "idx + 1"]) auto
    then show ?thesis using f by (blast intro: frame_trans same_ctx_trans)
  next
    case False
    then show ?thesis using Cons.prems(1) u f by simp
  qed
qed simp

lemma write_exec_rules_frame:
  assumes "write_exec_rules K idx rs m = (r, m')"
    and "unat idx + length rs < 2 ^ 32" "{unat idx..<unat idx + length rs} \<subseteq> J"
  shows "frame stored I J c m m' \<and> same_ctx m m'"
  using assms
proof (induction rs arbitrary: m idx)
  case (Cons x rs)
  obtain ok m1 where u: "map_update K ExecRules (idx_key idx) (exec_rule_to_bytes x) m = (ok, m1)" by fastforce
  have f: "frame stored I J c m m1 \<and> same_ctx m m1"
    by (rule map_update_frame(2) [OF u refl refl]) (use Cons.prems(3) in auto)
  have n: "unat (idx + 1) = unat idx + 1" using unat_idx [of idx "Suc 0" "Suc 0"] Cons.prems(2) by simp
  show ?case
  proof (cases ok)
    case True
    then have "frame stored I J c m1 m' \<and> same_ctx m1 m'"
      using Cons.prems u n by (intro Cons.IH [of "idx + 1"]) auto
    then show ?thesis using f by (blast intro: frame_trans same_ctx_trans)
  next
    case False
    then show ?thesis using Cons.prems(1) u f by simp
  qed
qed simp

text \<open>After a successful write every rule is at its index.\<close>

lemma write_exec_rules_stored:
  assumes "write_exec_rules K idx rs m = (Inr u, m')" "unat idx + length rs < 2 ^ 32" "i < length rs"
  shows "hmaps m' ExecRules (idx_key (idx + of_nat i)) = Some (exec_rule_to_bytes (rs ! i))"
  using assms
proof (induction rs arbitrary: m idx i)
  case (Cons x rs)
  obtain ok m1 where u: "map_update K ExecRules (idx_key idx) (exec_rule_to_bytes x) m = (ok, m1)" by fastforce
  with Cons.prems(1) have ok: "ok" and w: "write_exec_rules K (idx + 1) rs m1 = (Inr u, m')"
    by (auto split: bool.splits)
  have n: "unat (idx + 1) = unat idx + 1" using unat_idx [of idx "Suc 0" "Suc 0"] Cons.prems(2) by simp
  show ?case
  proof (cases i)
    case 0
    have "frame (\<lambda>_ _. None) {} {unat (idx + 1)..<unat (idx + 1) + length rs} 0 m1 m'"
      using write_exec_rules_frame [OF w, of _ "\<lambda>_ _. None" "{}" 0] Cons.prems(2) n by simp
    then have "hmaps m' ExecRules (idx_key idx) = hmaps m1 ExecRules (idx_key idx)"
      using n by (simp add: frame_def)
    then show ?thesis using u ok by (auto simp: 0 map_update_def Let_def split: if_splits)
  next
    case (Suc j)
    have "idx + of_nat i = (idx + 1) + of_nat j" by (simp add: Suc)
    then show ?thesis using Cons.IH [OF w, of j] Cons.prems(2,3) n Suc by (simp add: add.assoc)
  qed
qed simp

lemma write_fs_rules_stored:
  assumes "write_fs_rules K idx rs m = (Inr u, m')" "unat idx + length rs < 2 ^ 32" "i < length rs"
  shows "hmaps m' FsRules (idx_key (idx + of_nat i)) =
    Some (fs_rule_to_bytes \<lparr>path_hash = bf_path_hash (rs ! i), access_mask = bf_access_mask (rs ! i)\<rparr>)"
  using assms
proof (induction rs arbitrary: m idx i)
  case (Cons x rs)
  obtain ok m1 where u: "map_update K FsRules (idx_key idx)
      (fs_rule_to_bytes \<lparr>path_hash = bf_path_hash x, access_mask = bf_access_mask x\<rparr>) m = (ok, m1)" by fastforce
  with Cons.prems(1) have ok: "ok" and w: "write_fs_rules K (idx + 1) rs m1 = (Inr u, m')"
    by (auto split: bool.splits)
  have n: "unat (idx + 1) = unat idx + 1" using unat_idx [of idx "Suc 0" "Suc 0"] Cons.prems(2) by simp
  show ?case
  proof (cases i)
    case 0
    have "frame (\<lambda>_ _. None) {unat (idx + 1)..<unat (idx + 1) + length rs} {} 0 m1 m'"
      using write_fs_rules_frame [OF w, of _ "\<lambda>_ _. None" "{}" 0] Cons.prems(2) n by simp
    then have "hmaps m' FsRules (idx_key idx) = hmaps m1 FsRules (idx_key idx)"
      using n by (simp add: frame_def)
    then show ?thesis using u ok by (auto simp: 0 map_update_def Let_def split: if_splits)
  next
    case (Suc j)
    have "idx + of_nat i = (idx + 1) + of_nat j" by (simp add: Suc)
    then show ?thesis using Cons.IH [OF w, of j] Cons.prems(2,3) n Suc by (simp add: add.assoc)
  qed
qed simp

end
