(* ===== verification/Bpf_Invariant.thy ===== *)
theory Bpf_Invariant
  imports Bpf_Manager
begin

unbundle bit_operations_syntax

text \<open>
  The invariant of the map manager and its preservation by every operation, under every pattern
  of kernel failures: rule ranges of different sandboxes are disjoint and not free, the context
  of a registered sandbox points at exactly its own ranges, and an operation on one cgroup
  touches only that cgroup's entries and free indices (\<open>op_frame\<close>).
\<close>

section \<open>The manager's invariant\<close>

text \<open>Ranges held by cgroups: within the map, not free, and pairwise disjoint.\<close>

definition held_inv :: "nat \<Rightarrow> RuleAllocator \<Rightarrow> (u64 \<Rightarrow> nat set) \<Rightarrow> bool" where
  "held_inv cap a h \<longleftrightarrow>
     allocator_ok cap a \<and> (\<forall>c. h c \<subseteq> {..<cap} \<and> h c \<inter> free_set a = {}) \<and>
     (\<forall>c d. c \<noteq> d \<longrightarrow> h c \<inter> h d = {})"

definition fs_held :: "'t BpfManager \<Rightarrow> u64 \<Rightarrow> nat set" where
  "fs_held mgr c = (case registered mgr c of None \<Rightarrow> {} | Some st \<Rightarrow> span (st_fs_base st) (st_fs_count st))"

definition exec_held :: "'t BpfManager \<Rightarrow> u64 \<Rightarrow> nat set" where
  "exec_held mgr c = (case registered mgr c of None \<Rightarrow> {} | Some st \<Rightarrow> span (st_exec_base st) (st_exec_count st))"

definition keys_ok :: "u64 \<Rightarrow> NetKey list \<Rightarrow> bool" where
  "keys_ok c ks \<longleftrightarrow> (\<forall>k\<in>set ks. cgid k = c \<and> 64 \<le> unat (prefixlen k) \<and> unat (prefixlen k) \<le> 96)"

text \<open>A registered cgroup: its context is in the map and points at the ranges recorded for it.\<close>

definition sandbox_inv :: "'t bpf_maps \<Rightarrow> u64 \<Rightarrow> SandboxBpfState \<Rightarrow> bool" where
  "sandbox_inv m c st \<longleftrightarrow>
     (\<exists>ctx. hmaps m Sandboxes (cg_key c) = Some (ctx_to_bytes ctx) \<and>
        fs_rules_base ctx = st_fs_base st \<and> fs_rules_count ctx = st_fs_count st \<and>
        exec_rules_base ctx = st_exec_base st \<and> exec_rules_count ctx = st_exec_count st) \<and>
     unat (st_fs_base st) + unat (st_fs_count st) \<le> 65536 \<and>
     unat (st_exec_base st) + unat (st_exec_count st) \<le> 8192 \<and>
     st_fs_count st \<le> 64 \<and> st_exec_count st \<le> 64 \<and>
     keys_ok c (net_keys st)"

definition mgr_inv :: "'t BpfManager \<Rightarrow> bool" where
  "mgr_inv mgr \<longleftrightarrow>
     held_inv 65536 (fs_alloc mgr) (fs_held mgr) \<and> held_inv 8192 (exec_alloc mgr) (exec_held mgr) \<and>
     (\<forall>c st. registered mgr c = Some st \<longrightarrow> sandbox_inv (maps mgr) c st)"

text \<open>An operation on cgroup \<open>c\<close> touches only \<open>c\<close>'s own entries and free indices.\<close>

definition op_frame ::
  "('t \<Rightarrow> bool list \<Rightarrow> bytes option) \<Rightarrow> u64 \<Rightarrow> 't BpfManager \<Rightarrow> 't BpfManager \<Rightarrow> bool" where
  "op_frame stored c mgr mgr' \<longleftrightarrow>
     frame stored (free_set (fs_alloc mgr) \<union> fs_held mgr c) (free_set (exec_alloc mgr) \<union> exec_held mgr c) c
       (maps mgr) (maps mgr') \<and>
     (\<forall>d. d \<noteq> c \<longrightarrow> registered mgr' d = registered mgr d)"

lemma held_alloc:
  assumes "held_inv cap a h" "alloc a n = (Inr b, a')"
  shows "held_inv cap a' h" "span b n \<subseteq> free_set a" "span b n \<inter> free_set a' = {}"
    "span b n \<inter> h d = {}" "span b n \<subseteq> {..<cap}" "unat b + unat n \<le> cap" "free_set a' \<subseteq> free_set a"
proof -
  have ok: "allocator_ok cap a" using assms(1) by (simp add: held_inv_def)
  note s = alloc_spec [OF ok assms(2)]
  show sub: "span b n \<subseteq> free_set a" and "span b n \<inter> free_set a' = {}" "free_set a' \<subseteq> free_set a"
    using s by auto
  show cap: "span b n \<subseteq> {..<cap}" using sub free_set_bound [OF ok] by blast
  show "span b n \<inter> h d = {}" using sub assms(1) by (fastforce simp: held_inv_def)
  show "held_inv cap a' h" using s assms(1) by (fastforce simp: held_inv_def)
  show "unat b + unat n \<le> cap"
  proof (cases "n = 0")
    case True
    then show ?thesis using assms(2) by (simp add: alloc_def)
  qed (use cap span_below in blast)
qed

lemma held_release_new:
  assumes "held_inv cap a h" "span b n \<inter> free_set a = {}" "\<And>d. span b n \<inter> h d = {}" "span b n \<subseteq> {..<cap}"
  shows "held_inv cap (release a b n) h"
proof -
  have ok: "allocator_ok cap a" using assms(1) by (simp add: held_inv_def)
  from ra.release_law [OF ok assms(2,4)] show ?thesis
    using assms(1,3) unfolding held_inv_def by (fastforce simp del: in_span)
qed

lemma held_swap:
  assumes "held_inv cap a h" "h c = span b n" "N \<inter> free_set a = {}" "\<And>d. N \<inter> h d = {}" "N \<subseteq> {..<cap}"
  shows "held_inv cap (release a b n) (h(c := N))"
proof -
  have ok: "allocator_ok cap a" and hc: "span b n \<inter> free_set a = {}" "span b n \<subseteq> {..<cap}"
    using assms(1,2) unfolding held_inv_def by blast+
  note r = ra.release_law [OF ok hc]
  have "N \<inter> span b n = {}" "\<And>d. d \<noteq> c \<Longrightarrow> h d \<inter> span b n = {}" "\<And>d. h d \<inter> N = {}"
    using assms(1,2,4) unfolding held_inv_def by blast+
  then show ?thesis
    using assms(1,3,4,5) r unfolding held_inv_def by (auto simp del: in_span)
qed

lemma read_ctx_state: "read_ctx K cg mgr = (r, mgr') \<Longrightarrow> mgr' = mgr\<lparr>maps := (maps mgr)\<lparr>tick := Suc (tick (maps mgr))\<rparr>\<rparr>"
  by (auto simp: read_ctx_def map_lookup_def Let_def split: if_splits sum.splits option.splits)

lemma read_ctx_Inr:
  "read_ctx K cg mgr = (Inr ctx, mgr') \<Longrightarrow>
   \<exists>raw. hmaps (maps mgr) Sandboxes (cg_key cg) = Some raw \<and> ctx_from_bytes raw = Some ctx"
  by (auto simp: read_ctx_def map_lookup_def Let_def split: if_splits sum.splits option.splits)

lemma write_ctx_state:
  assumes "write_ctx K cg ctx msg mgr = (r, mgr')"
  shows "mgr' = mgr\<lparr>maps := maps mgr'\<rparr>" "net_rules (maps mgr') = net_rules (maps mgr)"
    "n \<noteq> Sandboxes \<Longrightarrow> hmaps (maps mgr') n = hmaps (maps mgr) n"
    "hmaps (maps mgr') Sandboxes =
       (if r = Inr () then (hmaps (maps mgr) Sandboxes)(cg_key cg \<mapsto> ctx_to_bytes ctx)
        else hmaps (maps mgr) Sandboxes)"
  using assms by (auto simp: write_ctx_def map_update_def Let_def split: if_splits)

lemma write_ctx_fields:
  assumes "write_ctx K cg ctx msg mgr = (r, mgr')"
  shows "registered mgr' = registered mgr" "fs_alloc mgr' = fs_alloc mgr" "exec_alloc mgr' = exec_alloc mgr"
    "mgr_gen mgr' = mgr_gen mgr"
  using assms by (auto simp: write_ctx_def split: prod.splits)

lemma write_ctx_frame:
  "write_ctx K cg ctx msg mgr = (r, mgr') \<Longrightarrow> frame stored I J cg (maps mgr) (maps mgr')"
  using write_ctx_state [of K cg ctx msg mgr r mgr'] by (auto simp: frame_def)

lemma sandbox_inv_same_ctx:
  "sandbox_inv m c st \<Longrightarrow> hmaps m' Sandboxes (cg_key c) = hmaps m Sandboxes (cg_key c) \<Longrightarrow> sandbox_inv m' c st"
  by (simp add: sandbox_inv_def)

lemma same_ctx_sandbox_inv: "same_ctx m m' \<Longrightarrow> sandbox_inv m' c st = sandbox_inv m c st"
  by (simp add: sandbox_inv_def same_ctx_def)

lemma sandbox_inv_tick [simp]: "sandbox_inv (m\<lparr>tick := t\<rparr>) c st = sandbox_inv m c st"
  by (simp add: sandbox_inv_def)

lemma sandbox_inv_frame:
  "sandbox_inv m d st \<Longrightarrow> frame stored I J c m m' \<Longrightarrow> d \<noteq> c \<Longrightarrow> sandbox_inv m' d st"
  by (auto simp: frame_def intro: sandbox_inv_same_ctx)

lemma mgr_inv_sandbox: "mgr_inv mgr \<Longrightarrow> registered mgr c = Some st \<Longrightarrow> sandbox_inv (maps mgr) c st"
  by (simp add: mgr_inv_def)

lemma held_empty: "allocator_ok cap a \<Longrightarrow> held_inv cap a (\<lambda>_. {})"
  by (simp add: held_inv_def)

lemma mgr_inv_new: "mgr_inv (manager_new m)"
proof -
  have "fs_held (manager_new m) = (\<lambda>_. {})" "exec_held (manager_new m) = (\<lambda>_. {})"
    by (auto simp: fs_held_def exec_held_def manager_new_def)
  then show ?thesis
    by (simp add: mgr_inv_def held_empty manager_new_def allocator_ok_def allocator_new_def
        FS_RULES_CAPACITY_def EXEC_RULES_CAPACITY_def)
qed

text \<open>Rewriting the context of a registered cgroup without moving its ranges.\<close>

lemma mgr_inv_rewrite_ctx:
  assumes "mgr_inv mgr" "mgr' = mgr\<lparr>maps := m'\<rparr>"
    and "\<And>k. k \<noteq> cg_key c \<Longrightarrow> hmaps m' Sandboxes k = hmaps (maps mgr) Sandboxes k"
    and "hmaps (maps mgr) Sandboxes (cg_key c) = Some raw" "ctx_from_bytes raw = Some ctx"
    and "hmaps m' Sandboxes (cg_key c) = Some raw \<or>
         hmaps m' Sandboxes (cg_key c) = Some (ctx_to_bytes (ctx\<lparr>flags := f, turn_id := t\<rparr>))"
  shows "mgr_inv mgr'"
proof -
  have eq: "fs_held mgr' = fs_held mgr" "exec_held mgr' = exec_held mgr"
    using assms(2) by (simp_all add: fs_held_def exec_held_def fun_eq_iff)
  have "sandbox_inv m' d st'" if "registered mgr d = Some st'" for d st'
  proof (cases "d = c")
    case False
    show ?thesis
      by (rule sandbox_inv_same_ctx [OF mgr_inv_sandbox [OF assms(1) that]], rule assms(3)) (simp add: False)
  next
    case True
    then have "sandbox_inv (maps mgr) c st'" using that assms(1) by (simp add: mgr_inv_def)
    then obtain ctx' where c': "raw = ctx_to_bytes ctx'" "fs_rules_base ctx' = st_fs_base st'"
      "fs_rules_count ctx' = st_fs_count st'" "exec_rules_base ctx' = st_exec_base st'"
      "exec_rules_count ctx' = st_exec_count st'" using assms(4) by (auto simp: sandbox_inv_def)
    then have "ctx = ctx'" using assms(5) by (simp add: ctx_from_to_bytes)
    with c' assms(6) \<open>sandbox_inv (maps mgr) c st'\<close> show ?thesis
      using True by (auto simp: sandbox_inv_def)
  qed
  then show ?thesis using assms(1,2) eq by (simp add: mgr_inv_def)
qed

lemma op_frame_maps:
  "frame stored {} {} c (maps mgr) (maps mgr') \<Longrightarrow> registered mgr' = registered mgr \<Longrightarrow> op_frame stored c mgr mgr'"
  by (auto simp: op_frame_def elim: frame_mono)

lemma rmw_ctx:
  assumes inv: "mgr_inv mgr" and r: "read_ctx K cg mgr = (Inr ctx, mgr1)"
    and w: "write_ctx K cg (ctx\<lparr>flags := f, turn_id := t\<rparr>) msg mgr1 = (r, mgr')"
  shows "mgr_inv mgr' \<and> op_frame stored cg mgr mgr'"
proof -
  note m1 = read_ctx_state [OF r] and w' = write_ctx_state [OF w]
  obtain raw where raw: "hmaps (maps mgr) Sandboxes (cg_key cg) = Some raw" "ctx_from_bytes raw = Some ctx"
    using read_ctx_Inr [OF r] by blast
  have st: "mgr' = mgr\<lparr>maps := maps mgr'\<rparr>" using w'(1) m1 by simp
  have "mgr_inv mgr'"
    by (rule mgr_inv_rewrite_ctx [OF inv st _ raw]) (use w'(4) m1 raw in \<open>auto split: if_splits\<close>)
  moreover have "frame stored {} {} cg (maps mgr) (maps mgr')"
    using write_ctx_frame [OF w, of stored "{}" "{}"] m1 by (simp add: frame_def)
  moreover have "registered mgr' = registered mgr" using write_ctx_fields(1) [OF w] m1 by simp
  ultimately show ?thesis by (simp add: op_frame_maps)
qed

lemma read_ctx_only:
  assumes "mgr_inv mgr" "read_ctx K cg mgr = (r, mgr')"
  shows "mgr_inv mgr' \<and> op_frame stored cg mgr mgr'"
  using read_ctx_state [OF assms(2)] assms(1)
  by (auto simp: mgr_inv_def op_frame_def frame_def fs_held_def [abs_def] exec_held_def [abs_def])

lemma begin_setup_ok:
  assumes inv: "mgr_inv mgr" and b: "begin_setup K cg mgr = (r, mgr')"
  shows "mgr_inv mgr' \<and> op_frame stored cg mgr mgr'"
proof (cases "registered mgr cg")
  case None
  then show ?thesis using inv b by (simp add: begin_setup_def op_frame_def)
next
  case (Some st)
  obtain x mgr1 where rd: "read_ctx K cg mgr = (x, mgr1)" by fastforce
  show ?thesis
  proof (cases x)
    case (Inl e)
    then show ?thesis using read_ctx_only [OF inv rd] b Some rd by (simp add: begin_setup_def)
  next
    case (Inr ctx)
    have "write_ctx K cg (ctx\<lparr>flags := flags ctx AND NOT FLAG_ENFORCING, turn_id := turn_id ctx\<rparr>)
        ''reset to setup state'' mgr1 = (r, mgr')"
      using b Some rd Inr by (simp add: begin_setup_def)
    then show ?thesis using rmw_ctx [OF inv rd [unfolded Inr]] by blast
  qed
qed

lemma bpf_begin_turn_ok:
  assumes inv: "mgr_inv mgr" and b: "bpf_begin_turn K cg t mgr = (r, mgr')"
  shows "mgr_inv mgr' \<and> op_frame stored cg mgr mgr'"
proof -
  obtain x mgr1 where rd: "read_ctx K cg mgr = (x, mgr1)" by fastforce
  show ?thesis
  proof (cases x)
    case (Inl e)
    then show ?thesis using read_ctx_only [OF inv rd] b rd by (simp add: bpf_begin_turn_def)
  next
    case (Inr ctx)
    then show ?thesis
      using rmw_ctx [OF inv rd [unfolded Inr]] b rd by (simp add: bpf_begin_turn_def)
  qed
qed

lemma register_sandbox_ok:
  assumes inv: "mgr_inv mgr" and b: "register_sandbox K cg mgr = (r, mgr')"
  shows "mgr_inv mgr' \<and> op_frame stored cg mgr mgr'"
proof (cases "registered mgr cg")
  case (Some st)
  then show ?thesis using inv b by (simp add: register_sandbox_def op_frame_def)
next
  case None
  obtain x mgr1 where w: "write_ctx K cg registered_for_setup ''register cgroup in BPF sandboxes map'' mgr = (x, mgr1)"
    by fastforce
  note ws = write_ctx_state [OF w]
  have fr: "frame stored {} {} cg (maps mgr) (maps mgr1)" by (rule write_ctx_frame [OF w])
  note reg = write_ctx_fields [OF w]
  have others: "sandbox_inv (maps mgr1) d st" if "registered mgr d = Some st" for d st
    using sandbox_inv_frame [OF mgr_inv_sandbox [OF inv that] fr] that None by (metis option.distinct(1))
  show ?thesis
  proof (cases x)
    case (Inl e)
    then have "mgr' = mgr1" using b None w by (simp add: register_sandbox_def)
    moreover have "fs_held mgr1 = fs_held mgr" "exec_held mgr1 = exec_held mgr"
      by (simp_all add: fs_held_def [abs_def] exec_held_def [abs_def] reg)
    ultimately show ?thesis using inv others reg fr by (simp add: mgr_inv_def op_frame_maps)
  next
    case (Inr u)
    let ?st = "\<lparr>st_fs_base = 0, st_fs_count = 0, st_exec_base = 0, st_exec_count = 0, net_keys = []\<rparr>"
    have mgr': "mgr' = mgr1\<lparr>registered := (registered mgr1)(cg \<mapsto> ?st)\<rparr>"
      using b None w Inr by (simp add: register_sandbox_def)
    have h: "fs_held mgr' = fs_held mgr" "exec_held mgr' = exec_held mgr"
      using None by (auto simp: fs_held_def exec_held_def mgr' reg fun_eq_iff)
    have "sandbox_inv (maps mgr1) cg ?st"
      using ws(4) Inr by (auto simp: sandbox_inv_def keys_ok_def registered_for_setup_def deny_all_def)
    then have "mgr_inv mgr'" using inv others h reg by (auto simp: mgr_inv_def mgr')
    moreover have "op_frame stored cg mgr mgr'"
      using fr by (auto simp: op_frame_def mgr' reg elim: frame_mono)
    ultimately show ?thesis ..
  qed
qed

lemma fs_held_upd: "registered mgr' = (registered mgr)(c := x) \<Longrightarrow>
    fs_held mgr' = (fs_held mgr)(c := case x of None \<Rightarrow> {} | Some st \<Rightarrow> span (st_fs_base st) (st_fs_count st))"
  and exec_held_upd: "registered mgr' = (registered mgr)(c := x) \<Longrightarrow>
    exec_held mgr' = (exec_held mgr)(c := case x of None \<Rightarrow> {} | Some st \<Rightarrow> span (st_exec_base st) (st_exec_count st))"
  by (auto simp: fs_held_def exec_held_def fun_eq_iff)

text \<open>The new ranges of a policy being installed: taken out of the free lists and held by nobody.\<close>

definition fresh :: "'t BpfManager \<Rightarrow> u32 \<Rightarrow> u32 \<Rightarrow> u32 \<Rightarrow> u32 \<Rightarrow> bool" where
  "fresh mgr fb fc eb ec \<longleftrightarrow>
     span fb fc \<inter> free_set (fs_alloc mgr) = {} \<and> (\<forall>d. span fb fc \<inter> fs_held mgr d = {}) \<and>
     span eb ec \<inter> free_set (exec_alloc mgr) = {} \<and> (\<forall>d. span eb ec \<inter> exec_held mgr d = {}) \<and>
     unat fb + unat fc \<le> 65536 \<and> unat eb + unat ec \<le> 8192"

text \<open>What a policy swap does once the new context is in the map: the new ranges are recorded and the old ones, if any, taken down.\<close>

definition adopt :: "'t kernel \<Rightarrow> u64 \<Rightarrow> SandboxBpfState \<Rightarrow> 't BpfManager \<Rightarrow> 't BpfManager" where
  "adopt K cg st g =
     (case registered g cg of
        None \<Rightarrow> g\<lparr>registered := (registered g)(cg \<mapsto> st)\<rparr>
      | Some old \<Rightarrow> g\<lparr>registered := (registered g)(cg \<mapsto> st),
          maps := delete_net_keys K (filter (\<lambda>k. k \<notin> set (net_keys st)) (net_keys old))
            (delete_rule_range K ExecRules (st_exec_base old) (st_exec_count old)
              (delete_rule_range K FsRules (st_fs_base old) (st_fs_count old) (maps g))),
          fs_alloc := release (fs_alloc g) (st_fs_base old) (st_fs_count old),
          exec_alloc := release (exec_alloc g) (st_exec_base old) (st_exec_count old)\<rparr>)"

lemma adopt_registered: "registered (adopt K cg st g) = (registered g)(cg \<mapsto> st)"
  by (simp add: adopt_def split: option.splits)

text \<open>The two outcomes of a swap. The context written keeps the identity of the sandbox and its turn.\<close>

lemma swap_policy_cases:
  assumes s: "swap_policy K cg fb fc eb ec net mgr = (r, mgr')"
  obtains (kept) "r \<noteq> Inr ()" "registered mgr' = registered mgr" "fs_alloc mgr' = fs_alloc mgr" "exec_alloc mgr' = exec_alloc mgr"
      "hmaps (maps mgr') = hmaps (maps mgr)" "net_rules (maps mgr') = net_rules (maps mgr)"
  | (adopted) raw existing g ctx where "hmaps (maps mgr) Sandboxes (cg_key cg) = Some raw" "ctx_from_bytes raw = Some existing"
      "registered g = registered mgr" "fs_alloc g = fs_alloc mgr" "exec_alloc g = exec_alloc mgr"
      "hmaps (maps g) = (hmaps (maps mgr))(Sandboxes := (hmaps (maps mgr) Sandboxes)(cg_key cg \<mapsto> ctx_to_bytes ctx))"
      "net_rules (maps g) = net_rules (maps mgr)"
      "ctx = \<lparr>sandbox_seq = sandbox_seq existing, flags = flags existing OR FLAG_ENFORCING,
         policy_gen = mgr_gen mgr + 1, fs_rules_base = fb, fs_rules_count = fc, exec_rules_base = eb, exec_rules_count = ec,
         net_rules_base = 0, net_rules_count = len_u32 net, turn_id = turn_id existing\<rparr>"
      "mgr' = adopt K cg \<lparr>st_fs_base = fb, st_fs_count = fc, st_exec_base = eb, st_exec_count = ec, net_keys = map fst net\<rparr> g"
      "r = Inr () \<longleftrightarrow> registered mgr cg \<noteq> None"
proof -
  obtain x g2 where rd: "read_ctx K cg (mgr\<lparr>mgr_gen := mgr_gen mgr + 1\<rparr>) = (x, g2)" by fastforce
  note m2 = read_ctx_state [OF rd]
  show thesis
  proof (cases x)
    case (Inl e)
    then show thesis using s rd m2 by (intro kept) (auto simp: swap_policy_def)
  next
    case (Inr existing)
    define ctx where "ctx = \<lparr>sandbox_seq = sandbox_seq existing, flags = flags existing OR FLAG_ENFORCING,
         policy_gen = mgr_gen mgr + 1, fs_rules_base = fb, fs_rules_count = fc, exec_rules_base = eb, exec_rules_count = ec,
         net_rules_base = 0, net_rules_count = len_u32 net, turn_id = turn_id existing\<rparr>"
    obtain y g where w: "write_ctx K cg ctx ''swap sandbox_ctx'' g2 = (y, g)" by fastforce
    note sw = s [unfolded swap_policy_def Let_def, simplified rd Inr, simplified, folded ctx_def, unfolded w]
    have reg: "registered g = registered mgr" "fs_alloc g = fs_alloc mgr" "exec_alloc g = exec_alloc mgr"
      "net_rules (maps g) = net_rules (maps mgr)"
      using write_ctx_fields [OF w] write_ctx_state(2) [OF w] m2 by simp_all
    have hm: "hmaps (maps g) n = (if n = Sandboxes \<and> y = Inr () then (hmaps (maps mgr) Sandboxes)(cg_key cg \<mapsto> ctx_to_bytes ctx)
        else hmaps (maps mgr) n)" for n
      using write_ctx_state(3) [OF w, of n] write_ctx_state(4) [OF w] m2 by (cases "n = Sandboxes") simp_all
    show thesis
    proof (cases y)
      case (Inl e)
      then show thesis using sw reg hm by (intro kept) (auto simp: fun_eq_iff)
    next
      case (Inr u)
      obtain raw where "hmaps (maps mgr) Sandboxes (cg_key cg) = Some raw" "ctx_from_bytes raw = Some existing"
        using read_ctx_Inr [OF rd [unfolded \<open>x = Inr existing\<close>]] by auto
      moreover have "mgr' = adopt K cg \<lparr>st_fs_base = fb, st_fs_count = fc, st_exec_base = eb, st_exec_count = ec, net_keys = map fst net\<rparr> g"
        "r = Inr () \<longleftrightarrow> registered mgr cg \<noteq> None"
        using sw Inr reg by (auto simp: adopt_def split: option.splits)
      ultimately show thesis using adopted reg hm Inr by (simp add: ctx_def fun_eq_iff)
    qed
  qed
qed

context lpm_trie
begin

text \<open>Taking down the ranges and keys recorded for a cgroup stays within its own entries.\<close>

lemma take_down_frame:
  assumes "sandbox_inv m0 c st" "keys_ok c ks"
    and "span (st_fs_base st) (st_fs_count st) \<subseteq> I" "span (st_exec_base st) (st_exec_count st) \<subseteq> J"
  shows "frame stored I J c m (delete_net_keys K ks
      (delete_rule_range K ExecRules (st_exec_base st) (st_exec_count st)
        (delete_rule_range K FsRules (st_fs_base st) (st_fs_count st) m))) \<and>
    same_ctx m (delete_net_keys K ks
      (delete_rule_range K ExecRules (st_exec_base st) (st_exec_count st)
        (delete_rule_range K FsRules (st_fs_base st) (st_fs_count st) m)))"
proof -
  have f1: "frame stored I J c x (delete_rule_range K FsRules (st_fs_base st) (st_fs_count st) x) \<and>
      same_ctx x (delete_rule_range K FsRules (st_fs_base st) (st_fs_count st) x)" for x
    using assms by (intro delete_rule_range_frame) (auto simp: sandbox_inv_def)
  have f2: "frame stored I J c x (delete_rule_range K ExecRules (st_exec_base st) (st_exec_count st) x) \<and>
      same_ctx x (delete_rule_range K ExecRules (st_exec_base st) (st_exec_count st) x)" for x
    using assms by (intro delete_rule_range_frame) (auto simp: sandbox_inv_def)
  have f3: "frame stored I J c x (delete_net_keys K ks x) \<and> same_ctx x (delete_net_keys K ks x)" for x
    using assms(2) by (intro delete_net_keys_frame) (auto simp: keys_ok_def)
  show ?thesis using f1 f2 f3 by (meson frame_trans same_ctx_trans)
qed

lemma deregister_sandbox_ok:
  assumes inv: "mgr_inv mgr" and b: "deregister_sandbox K cg mgr = (r, mgr')"
  shows "mgr_inv mgr' \<and> op_frame stored cg mgr mgr'"
proof (cases "registered mgr cg")
  case None
  then show ?thesis using inv b by (simp add: deregister_sandbox_def op_frame_def)
next
  case (Some st)
  let ?I = "free_set (fs_alloc mgr) \<union> fs_held mgr cg" and ?J = "free_set (exec_alloc mgr) \<union> exec_held mgr cg"
  let ?m1 = "delete_net_keys K (net_keys st)
      (delete_rule_range K ExecRules (st_exec_base st) (st_exec_count st)
        (delete_rule_range K FsRules (st_fs_base st) (st_fs_count st) (maps mgr)))"
  obtain ok m2 where d: "map_delete K Sandboxes (cg_key cg) ?m1 = (ok, m2)" by fastforce
  have mgr': "mgr' = mgr\<lparr>maps := m2, registered := (registered mgr)(cg := None),
      fs_alloc := release (fs_alloc mgr) (st_fs_base st) (st_fs_count st),
      exec_alloc := release (exec_alloc mgr) (st_exec_base st) (st_exec_count st)\<rparr>"
    using b Some d by (simp add: deregister_sandbox_def Let_def)
  have h: "fs_held mgr cg = span (st_fs_base st) (st_fs_count st)"
    "exec_held mgr cg = span (st_exec_base st) (st_exec_count st)"
    by (simp_all add: fs_held_def exec_held_def Some)
  have si: "sandbox_inv (maps mgr) cg st" by (rule mgr_inv_sandbox [OF inv Some])
  have "frame stored ?I ?J cg (maps mgr) ?m1"
    using take_down_frame [OF si, of "net_keys st" ?I ?J] si h by (auto simp: sandbox_inv_def)
  then have fr: "frame stored ?I ?J cg (maps mgr) m2"
    using map_delete_frame(3) [OF d refl refl] by (rule frame_trans)
  have fh: "fs_held mgr' = (fs_held mgr)(cg := {})" "exec_held mgr' = (exec_held mgr)(cg := {})"
    using fs_held_upd [of mgr' mgr cg None] exec_held_upd [of mgr' mgr cg None] by (simp_all add: mgr')
  have "held_inv 65536 (fs_alloc mgr') (fs_held mgr')"
    unfolding fh using inv h by (simp add: mgr' mgr_inv_def held_swap)
  moreover have "held_inv 8192 (exec_alloc mgr') (exec_held mgr')"
    unfolding fh using inv h by (simp add: mgr' mgr_inv_def held_swap)
  moreover have "sandbox_inv (maps mgr') d st'" if "registered mgr' d = Some st'" for d st'
    using that sandbox_inv_frame [OF mgr_inv_sandbox [OF inv] fr] by (auto simp: mgr' split: if_splits)
  ultimately show ?thesis using fr by (simp add: mgr_inv_def op_frame_def mgr')
qed

lemma adopt_frame:
  assumes "\<And>old. registered g cg = Some old \<Longrightarrow> sandbox_inv ms cg old"
  shows "frame stored (fs_held g cg) (exec_held g cg) cg (maps g) (maps (adopt K cg st g)) \<and> same_ctx (maps g) (maps (adopt K cg st g))"
proof (cases "registered g cg")
  case None
  then show ?thesis by (simp add: adopt_def frame_def same_ctx_def)
next
  case (Some old)
  have "fs_held g cg = span (st_fs_base old) (st_fs_count old)" "exec_held g cg = span (st_exec_base old) (st_exec_count old)"
    using Some by (simp_all add: fs_held_def exec_held_def)
  moreover have "keys_ok cg (filter (\<lambda>k. k \<notin> set (net_keys st)) (net_keys old))"
    using assms [OF Some] by (auto simp: sandbox_inv_def keys_ok_def)
  ultimately show ?thesis using take_down_frame [OF assms [OF Some], of _ "fs_held g cg" "exec_held g cg"] by (simp add: adopt_def Some)
qed

lemma adopt_held:
  assumes "held_inv 65536 (fs_alloc g) (fs_held g)" "held_inv 8192 (exec_alloc g) (exec_held g)"
    and "fresh g (st_fs_base st) (st_fs_count st) (st_exec_base st) (st_exec_count st)"
  shows "held_inv 65536 (fs_alloc (adopt K cg st g)) (fs_held (adopt K cg st g)) \<and>
    held_inv 8192 (exec_alloc (adopt K cg st g)) (exec_held (adopt K cg st g))"
proof -
  let ?N = "span (st_fs_base st) (st_fs_count st)" and ?M = "span (st_exec_base st) (st_exec_count st)"
  have h: "fs_held (adopt K cg st g) = (fs_held g)(cg := ?N)" "exec_held (adopt K cg st g) = (exec_held g)(cg := ?M)"
    using fs_held_upd [of "adopt K cg st g" g cg "Some st"] exec_held_upd [of "adopt K cg st g" g cg "Some st"]
    by (simp_all add: adopt_registered)
  have f: "held_inv 65536 (release (fs_alloc g) b n) ((fs_held g)(cg := ?N))" if "fs_held g cg = span b n" for b n
    using assms that by (intro held_swap) (auto simp: fresh_def)
  have e: "held_inv 8192 (release (exec_alloc g) b n) ((exec_held g)(cg := ?M))" if "exec_held g cg = span b n" for b n
    using assms that by (intro held_swap) (auto simp: fresh_def)
  show ?thesis
  proof (cases "registered g cg")
    case None
    then show ?thesis using f [of 0 0] e [of 0 0] unfolding h by (simp add: adopt_def fs_held_def exec_held_def release_def)
  next
    case (Some old)
    then show ?thesis using f [of "st_fs_base old" "st_fs_count old"] e [of "st_exec_base old" "st_exec_count old"] unfolding h
      by (simp add: adopt_def fs_held_def exec_held_def)
  qed
qed

lemma adopt_ok:
  assumes inv: "held_inv 65536 (fs_alloc g) (fs_held g)" "held_inv 8192 (exec_alloc g) (exec_held g)"
    and new: "fresh g (st_fs_base st) (st_fs_count st) (st_exec_base st) (st_exec_count st)" "sandbox_inv (maps g) cg st"
    and old: "\<And>old. registered g cg = Some old \<Longrightarrow> sandbox_inv ms cg old"
    and others: "\<And>d s. registered g d = Some s \<Longrightarrow> d \<noteq> cg \<Longrightarrow> sandbox_inv (maps g) d s"
  shows "mgr_inv (adopt K cg st g) \<and> frame stored (fs_held g cg) (exec_held g cg) cg (maps g) (maps (adopt K cg st g))"
proof -
  note fr = adopt_frame [of g cg ms st, OF old]
  have "sandbox_inv (maps (adopt K cg st g)) d s" if "registered (adopt K cg st g) d = Some s" for d s
    using that new(2) others fr same_ctx_sandbox_inv [of "maps g" "maps (adopt K cg st g)"]
    by (auto simp: adopt_registered split: if_splits)
  then show ?thesis using fr adopt_held [OF inv new(1)] by (simp add: mgr_inv_def)
qed

lemma swap_policy_ok:
  assumes inv: "mgr_inv mgr" and fresh: "fresh mgr fb fc eb ec" and cnt: "fc \<le> 64" "ec \<le> 64"
    and ks: "keys_ok cg (map fst net)" and s: "swap_policy K cg fb fc eb ec net mgr = (r, mgr')"
  shows "mgr_inv mgr' \<and> frame stored (fs_held mgr cg) (exec_held mgr cg) cg (maps mgr) (maps mgr') \<and>
    (\<forall>d. d \<noteq> cg \<longrightarrow> registered mgr' d = registered mgr d)"
proof -
  let ?st = "\<lparr>st_fs_base = fb, st_fs_count = fc, st_exec_base = eb, st_exec_count = ec, net_keys = map fst net\<rparr>"
  from s show ?thesis
  proof (cases rule: swap_policy_cases)
    case kept
    then show ?thesis using inv by (simp add: mgr_inv_def frame_def sandbox_inv_def fs_held_def [abs_def] exec_held_def [abs_def])
  next
    case (adopted raw existing g ctx)
    have h: "fs_held g = fs_held mgr" "exec_held g = exec_held mgr"
      by (simp_all add: fs_held_def [abs_def] exec_held_def [abs_def] adopted(3))
    have fr: "frame stored I J cg (maps mgr) (maps g)" for I J using adopted(6,7) by (simp add: frame_def)
    have "sandbox_inv (maps g) cg ?st" using adopted(6,8) cnt ks fresh by (auto simp: sandbox_inv_def fresh_def)
    moreover have "fresh g fb fc eb ec" using fresh by (simp add: fresh_def adopted(4,5) h)
    moreover have "sandbox_inv (maps g) d s" if "registered g d = Some s" "d \<noteq> cg" for d s
      using sandbox_inv_frame [OF mgr_inv_sandbox [OF inv] fr that(2)] that(1) by (simp add: adopted(3))
    ultimately have "mgr_inv mgr' \<and> frame stored (fs_held g cg) (exec_held g cg) cg (maps g) (maps mgr')"
      unfolding adopted(9) using inv by (intro adopt_ok [where ms = "maps mgr"]) (simp_all add: adopted(3-5) h mgr_inv_def)
    then show ?thesis using frame_trans [OF fr] by (simp add: h) (simp add: adopted(3,9) adopt_registered)
  qed
qed

lemma write_rules_frame:
  assumes w: "write_rules K fb fs eb ex net m = (r, m')" and ks: "keys_ok c (map fst net)"
    and f: "unat fb + length fs < 2 ^ 32" "{unat fb..<unat fb + length fs} \<subseteq> I"
    and e: "unat eb + length ex < 2 ^ 32" "{unat eb..<unat eb + length ex} \<subseteq> J"
  shows "frame stored I J c m m' \<and> same_ctx m m'"
proof -
  obtain r1 m1 where w1: "write_fs_rules K fb fs m = (r1, m1)" by fastforce
  obtain r2 m2 where w2: "write_exec_rules K eb ex m1 = (r2, m2)" by fastforce
  obtain r3 m3 where w3: "write_net_rules K net m2 = (r3, m3)" by fastforce
  have "frame stored I J c m m1 \<and> same_ctx m m1" by (rule write_fs_rules_frame [OF w1 f])
  moreover have "frame stored I J c m1 m2 \<and> same_ctx m1 m2" by (rule write_exec_rules_frame [OF w2 e])
  moreover have "frame stored I J c m2 m3 \<and> same_ctx m2 m3"
    using ks by (intro write_net_rules_frame [OF w3]) (force simp: keys_ok_def)
  moreover have "m' \<in> {m1, m2, m3}" using w w1 w2 w3 by (auto simp: write_rules_def split: sum.splits)
  ultimately show ?thesis by (blast intro: frame_trans same_ctx_trans)
qed

end

lemma parse_cidr_prefix: "parse_cidr s = Inr (a, p) \<Longrightarrow> unat p \<le> 32"
  by (auto simp: parse_cidr_def Let_def rbind_Inr_iff unsigned_of_nat take_bit_nat_eq_self
      split: option.splits if_splits prod.splits)

lemma resolve_net_rule_key:
  assumes "resolve_net_rule cg rule = Inr (k, v)"
  shows "cgid k = cg \<and> 64 \<le> unat (prefixlen k) \<and> unat (prefixlen k) \<le> 96"
proof -
  from assms obtain a p where p: "parse_cidr (bn_cidr rule) = Inr (a, p)"
    and k: "k = \<lparr>prefixlen = NET_KEY_CGID_BITS + p, cgid = cg, addr = a\<rparr>"
    by (auto simp: resolve_net_rule_def rbind_Inr_iff)
  have "unat (64 + p) = 64 + unat p"
    using parse_cidr_prefix [OF p] by (subst unat_plus_small) auto
  then show ?thesis using parse_cidr_prefix [OF p] by (simp add: k NET_KEY_CGID_BITS_def)
qed

lemma resolve_net_rules_keys:
  "resolve_net_rules cg rules = Inr net \<Longrightarrow> keys_ok cg (map fst net)"
  by (auto simp: resolve_net_rules_def keys_ok_def dest!: traverse_Inr_set resolve_net_rule_key)

lemma unat_len_u32: "len_u32 xs \<le> 64 \<Longrightarrow> unat (len_u32 xs) = length xs"
  by (auto simp: len_u32_def word_le_nat_alt unat_max unsigned_of_nat take_bit_nat_eq_self split: if_splits)

lemma span_len_u32: "len_u32 xs \<le> 64 \<Longrightarrow> span b (len_u32 xs) = {unat b..<unat b + length xs}"
  by (simp add: span_def unat_len_u32)

context lpm_trie
begin

text \<open>Writing the new rules into freshly allocated ranges, and taking them back.\<close>

lemma write_new_rules:
  assumes inv: "mgr_inv mgr" and cnt: "len_u32 fs \<le> 64" "len_u32 ex \<le> 64" and ks: "keys_ok cg (map fst net)"
    and af: "alloc (fs_alloc mgr) (len_u32 fs) = (Inr fb, fa)" and ae: "alloc (exec_alloc mgr) (len_u32 ex) = (Inr eb, ea)"
    and w: "write_rules K fb fs eb ex net (maps mgr) = (z, m)"
  shows "frame stored (free_set (fs_alloc mgr)) (free_set (exec_alloc mgr)) cg (maps mgr) m \<and> same_ctx (maps mgr) m"
proof -
  have "held_inv 65536 (fs_alloc mgr) (fs_held mgr)" "held_inv 8192 (exec_alloc mgr) (exec_held mgr)"
    using inv by (simp_all add: mgr_inv_def)
  from held_alloc(2,6) [OF this(1) af] held_alloc(2,6) [OF this(2) ae]
  show ?thesis unfolding span_len_u32 [OF cnt(1)] span_len_u32 [OF cnt(2)] unat_len_u32 [OF cnt(1)] unat_len_u32 [OF cnt(2)]
    by (intro write_rules_frame [OF w ks]) auto
qed

lemma unwind_frame:
  assumes ks: "keys_ok cg ks" and bounds: "unat fb + unat fc < 2 ^ 32" "unat eb + unat ec < 2 ^ 32" "span fb fc \<subseteq> I" "span eb ec \<subseteq> J"
  shows "frame stored I J cg m (delete_rule_range K ExecRules eb ec (delete_rule_range K FsRules fb fc (delete_net_keys K ks m))) \<and>
    same_ctx m (delete_rule_range K ExecRules eb ec (delete_rule_range K FsRules fb fc (delete_net_keys K ks m)))"
proof -
  have 1: "frame stored I J cg x (delete_net_keys K ks x) \<and> same_ctx x (delete_net_keys K ks x)" for x
    using ks by (intro delete_net_keys_frame) (auto simp: keys_ok_def)
  have 2: "frame stored I J cg x (delete_rule_range K FsRules fb fc x) \<and> same_ctx x (delete_rule_range K FsRules fb fc x)" for x
    using bounds by (intro delete_rule_range_frame) auto
  have 3: "frame stored I J cg x (delete_rule_range K ExecRules eb ec x) \<and> same_ctx x (delete_rule_range K ExecRules eb ec x)" for x
    using bounds by (intro delete_rule_range_frame) auto
  show ?thesis using 1 2 3 by (meson frame_trans same_ctx_trans)
qed

text \<open>The outcomes of an installation.\<close>

lemma install_policy_cases:
  assumes "install_policy K cg fs ex net mgr = (r, mgr')"
  obtains (unchanged) "mgr' = mgr" "r \<noteq> Inr ()"
  | (no_exec) fb fa where "alloc (fs_alloc mgr) (len_u32 fs) = (Inr fb, fa)" "r \<noteq> Inr ()"
      "mgr' = mgr\<lparr>fs_alloc := release fa fb (len_u32 fs)\<rparr>"
  | (unwound) fb fa eb ea e m where "alloc (fs_alloc mgr) (len_u32 fs) = (Inr fb, fa)" "alloc (exec_alloc mgr) (len_u32 ex) = (Inr eb, ea)"
      "write_rules K fb fs eb ex net (maps mgr) = (Inl e, m)" "r \<noteq> Inr ()"
      "mgr' = mgr\<lparr>maps := delete_rule_range K ExecRules eb (len_u32 ex) (delete_rule_range K FsRules fb (len_u32 fs) (delete_net_keys K (map fst net) m)),
         fs_alloc := release fa fb (len_u32 fs), exec_alloc := release ea eb (len_u32 ex)\<rparr>"
  | (swapped) fb fa eb ea m where "alloc (fs_alloc mgr) (len_u32 fs) = (Inr fb, fa)" "alloc (exec_alloc mgr) (len_u32 ex) = (Inr eb, ea)"
      "write_rules K fb fs eb ex net (maps mgr) = (Inr (), m)"
      "swap_policy K cg fb (len_u32 fs) eb (len_u32 ex) net (mgr\<lparr>maps := m, fs_alloc := fa, exec_alloc := ea\<rparr>) = (r, mgr')" "registered mgr cg \<noteq> None"
proof -
  obtain x fa y ea where a: "alloc (fs_alloc mgr) (len_u32 fs) = (x, fa)" "alloc (exec_alloc mgr) (len_u32 ex) = (y, ea)" by (metis prod.exhaust)
  show thesis
  proof (cases "registered mgr cg = None \<or> (\<exists>e. x = Inl e)")
    case True
    then show thesis using assms a alloc_error(1) [of "fs_alloc mgr"]
      by (intro unchanged) (auto simp: install_policy_def Let_def split: if_splits)
  next
    case False
    then obtain fb where fb: "x = Inr fb" by (cases x) auto
    show thesis
    proof (cases y)
      case (Inl e)
      then show thesis using assms a fb False alloc_error(1) [of "exec_alloc mgr"]
        by (intro no_exec [of fb fa]) (auto simp: install_policy_def Let_def)
    next
      case (Inr eb)
      obtain z m where w: "write_rules K fb fs eb ex net (maps mgr) = (z, m)" by force
      show thesis using assms a fb Inr False w unwound [of fb fa eb ea _ m] swapped [of fb fa eb ea m]
        by (cases z) (auto simp: install_policy_def Let_def)
    qed
  qed
qed

lemma install_policy_ok:
  assumes inv: "mgr_inv mgr" and cnt: "len_u32 fs \<le> 64" "len_u32 ex \<le> 64" and ks: "keys_ok cg (map fst net)"
    and b: "install_policy K cg fs ex net mgr = (r, mgr')"
  shows "mgr_inv mgr' \<and> op_frame stored cg mgr mgr'"
proof -
  let ?fc = "len_u32 fs" and ?ec = "len_u32 ex"
  let ?I = "free_set (fs_alloc mgr) \<union> fs_held mgr cg" and ?J = "free_set (exec_alloc mgr) \<union> exec_held mgr cg"
  have held: "held_inv 65536 (fs_alloc mgr) (fs_held mgr)" "held_inv 8192 (exec_alloc mgr) (exec_held mgr)"
    using inv by (simp_all add: mgr_inv_def)
  from b show ?thesis
  proof (cases rule: install_policy_cases)
    case unchanged
    then show ?thesis using inv by (simp add: op_frame_def)
  next
    case (no_exec fb fa)
    have "held_inv 65536 (release fa fb ?fc) (fs_held mgr)" using held_alloc [OF held(1) no_exec(1)] by (intro held_release_new) auto
    then show ?thesis using inv by (simp add: no_exec(3) mgr_inv_def op_frame_def fs_held_def [abs_def] exec_held_def [abs_def])
  next
    case (unwound fb fa eb ea e m)
    note hfa = held_alloc [OF held(1) unwound(1)] and hea = held_alloc [OF held(2) unwound(2)]
    have "frame stored (free_set (fs_alloc mgr)) (free_set (exec_alloc mgr)) cg m (maps mgr') \<and> same_ctx m (maps mgr')"
      using unwind_frame [OF ks, of fb ?fc eb ?ec] hfa(2,6) hea(2,6) by (simp add: unwound(5))
    then have fr: "frame stored (free_set (fs_alloc mgr)) (free_set (exec_alloc mgr)) cg (maps mgr) (maps mgr')" "same_ctx (maps mgr) (maps mgr')"
      using write_new_rules [OF inv cnt ks unwound(1,2,3)] by (blast intro: frame_trans same_ctx_trans)+
    have "frame stored ?I ?J cg (maps mgr) (maps mgr')" by (rule frame_mono [OF fr(1)]) auto
    moreover have "held_inv 65536 (release fa fb ?fc) (fs_held mgr)" "held_inv 8192 (release ea eb ?ec) (exec_held mgr)"
      by (rule held_release_new [OF hfa(1,3,4,5)], rule held_release_new [OF hea(1,3,4,5)])
    ultimately show ?thesis
      using inv same_ctx_sandbox_inv [OF fr(2)]
      by (simp add: unwound(5) mgr_inv_def op_frame_def fs_held_def [abs_def] exec_held_def [abs_def])
  next
    case (swapped fb fa eb ea m)
    note hfa = held_alloc [OF held(1) swapped(1)] and hea = held_alloc [OF held(2) swapped(2)]
    note fm = write_new_rules [OF inv cnt ks swapped(1,2,3)]
    define g where "g = mgr\<lparr>maps := m, fs_alloc := fa, exec_alloc := ea\<rparr>"
    have h: "fs_held g = fs_held mgr" "exec_held g = exec_held mgr"
      by (simp_all add: g_def fs_held_def [abs_def] exec_held_def [abs_def])
    have "mgr_inv g" using inv hfa(1) hea(1) fm unfolding mgr_inv_def h by (simp add: g_def same_ctx_sandbox_inv [of "maps mgr" m])
    moreover have "fresh g fb ?fc eb ?ec" using hfa hea unfolding fresh_def h by (simp add: g_def)
    ultimately have "mgr_inv mgr' \<and> frame stored (fs_held mgr cg) (exec_held mgr cg) cg m (maps mgr') \<and>
        (\<forall>d. d \<noteq> cg \<longrightarrow> registered mgr' d = registered mgr d)"
      using swap_policy_ok [OF _ _ cnt ks swapped(4) [folded g_def]] by (simp add: h) (simp add: g_def)
    then show ?thesis using fm unfolding op_frame_def by (auto intro: frame_trans frame_mono)
  qed
qed

lemma update_policy_ok:
  assumes inv: "mgr_inv mgr" and b: "update_policy K H cg plan src mgr = (r, mgr')"
  shows "mgr_inv mgr' \<and> op_frame stored cg mgr mgr'"
proof -
  have same: ?thesis if "mgr' = mgr" using inv that by (simp add: op_frame_def)
  show ?thesis
  proof (cases "mgr' = mgr")
    case False
    then obtain ex net where e: "check_rule_count (len_u32 (bp_fs_rules plan)) = Inr ()"
      "check_rule_count (len_u32 ex) = Inr ()" "resolve_net_rules cg (bp_net_rules plan) = Inr net"
      "install_policy K cg (bp_fs_rules plan) ex net mgr = (r, mgr')"
      using b by (auto simp: update_policy_def split: sum.splits)
    then have "len_u32 (bp_fs_rules plan) \<le> 64" "len_u32 ex \<le> 64"
      by (auto simp: check_rule_count_def MAX_RULES_PER_SANDBOX_def not_less split: if_splits)
    then show ?thesis by (rule install_policy_ok [OF inv _ _ resolve_net_rules_keys [OF e(3)] e(4)])
  qed (rule same)
qed

end

end
