(* ===== verification/Bpf_Hooks.thy ===== *)
theory Bpf_Hooks
  imports Bpf_Invariant
begin

unbundle bit_operations_syntax

text \<open>
  The BPF programs, \<^verbatim>\<open>aivisor-bpf/src/bpf/*.bpf.c\<close>: each hook is a function of the maps,
  the calling task's cgroup and the hook's arguments to the verdict, the maps afterwards (flags
  set through the value pointer) and the events it submits. Pointer chains that the programs
  probe are optional arguments, \<^verbatim>\<open>None\<close> for a null pointer. What \<^verbatim>\<open>bpf_d_path\<close> writes and
  returns is an argument too. Whether the ring buffer has room for an event is not represented.
\<close>

section \<open>Programs\<close>

definition EPERM :: int where "EPERM = 1"

record hook_event =
  ev_kind :: u32
  ev_decision :: u32
  ev_errno :: u32

definition emit_event :: "u32 \<Rightarrow> u32 \<Rightarrow> u32 \<Rightarrow> hook_event list" where
  "emit_event k d e = [\<lparr>ev_kind = k, ev_decision = d, ev_errno = e\<rparr>]"

definition EVT_KIND_FILE_OPEN :: u32 where "EVT_KIND_FILE_OPEN = 0"
definition EVT_KIND_EXEC :: u32 where "EVT_KIND_EXEC = 1"
definition EVT_KIND_CONNECT :: u32 where "EVT_KIND_CONNECT = 2"
definition EVT_KIND_MOUNT :: u32 where "EVT_KIND_MOUNT = 3"
definition EVT_KIND_POLICY_DENY :: u32 where "EVT_KIND_POLICY_DENY = 4"
definition EVT_DECISION_ALLOW :: u32 where "EVT_DECISION_ALLOW = 0"
definition EVT_DECISION_DENY :: u32 where "EVT_DECISION_DENY = 1"
definition EVT_DECISION_KILL :: u32 where "EVT_DECISION_KILL = 3"

type_synonym 't hook_result = "int \<times> 't bpf_maps \<times> hook_event list"

definition lookup_ctx :: "'t bpf_maps \<Rightarrow> u64 \<Rightarrow> SandboxCtx option" where
  "lookup_ctx m cg = Option.bind (hmaps m Sandboxes (cg_key cg)) ctx_from_bytes"

text \<open>\<^verbatim>\<open>ctx->flags |= f\<close> through the pointer returned by the lookup.\<close>

definition or_flags :: "u64 \<Rightarrow> u32 \<Rightarrow> 't bpf_maps \<Rightarrow> 't bpf_maps" where
  "or_flags cg f m =
     (case hmaps m Sandboxes (cg_key cg) of
        None \<Rightarrow> m
      | Some raw \<Rightarrow> m\<lparr>hmaps := (hmaps m)(Sandboxes :=
                      (hmaps m Sandboxes)(cg_key cg \<mapsto> c_set_flags raw (u32_at raw 8 OR f)))\<rparr>)"

text \<open>The preamble of the enforcing programs.\<close>

definition enforcing :: "int \<Rightarrow> 't bpf_maps \<Rightarrow> u64 \<Rightarrow> (SandboxCtx \<Rightarrow> 't hook_result) \<Rightarrow> 't hook_result" where
  "enforcing ret m cg body =
     (if ret \<noteq> 0 then (ret, m, [])
      else case lookup_ctx m cg of
             None \<Rightarrow> (0, m, [])
           | Some ctx \<Rightarrow> if flags ctx AND FLAG_ENFORCING = 0 then (0, m, []) else body ctx)"

definition MAX_RULES :: nat where "MAX_RULES = 64"

fun exec_scan :: "'t bpf_maps \<Rightarrow> u32 \<Rightarrow> u32 \<Rightarrow> u64 \<Rightarrow> u64 \<Rightarrow> nat list \<Rightarrow> bool" where
  "exec_scan m base en inode_nr dev [] = False"
| "exec_scan m base en inode_nr dev (i # is) =
     (if base + of_nat i \<ge> en then False
      else case hmaps m ExecRules (idx_key (base + of_nat i)) of
             None \<Rightarrow> exec_scan m base en inode_nr dev is
           | Some raw \<Rightarrow>
               if er_inode (c_exec_rule raw) = inode_nr \<and> er_dev (c_exec_rule raw) = dev then True
               else exec_scan m base en inode_nr dev is)"

text \<open>The argument is the inode number and \<^verbatim>\<open>s_dev\<close> read through \<^verbatim>\<open>bprm->file->f_inode\<close>.\<close>

definition bprm_check_security :: "int \<Rightarrow> 't bpf_maps \<Rightarrow> u64 \<Rightarrow> (u64 \<times> u32) option \<Rightarrow> 't hook_result" where
  "bprm_check_security ret m cg file =
     enforcing ret m cg (\<lambda>sctx.
       case file of
         None \<Rightarrow> (- EPERM, m, [])
       | Some (inode_nr, dev32) \<Rightarrow>
           (let base = exec_rules_base sctx;
                en = exec_rules_base sctx + exec_rules_count sctx
            in if \<not> exec_scan m base en inode_nr (ucast dev32) [0..<MAX_RULES]
               then (- EPERM, m, emit_event EVT_KIND_EXEC EVT_DECISION_DENY 1)
               else (0, or_flags cg FLAG_DIRTY m, emit_event EVT_KIND_EXEC EVT_DECISION_ALLOW 0)))"

definition META_169_254_169_254 :: u32 where "META_169_254_169_254 = 0xfea9fea9"
definition META_168_63_129_16 :: u32 where "META_168_63_129_16 = 0x10813fa8"

definition NET_KEY_PREFIX_FULL :: u32 where "NET_KEY_PREFIX_FULL = 96"

definition check_ipv4_dst :: "'t kernel \<Rightarrow> 't bpf_maps \<Rightarrow> u64 \<Rightarrow> u32 \<Rightarrow> u16 \<Rightarrow> bool \<times> hook_event list" where
  "check_ipv4_dst K m cg dst_be port =
     (if dst_be = META_169_254_169_254 \<or> dst_be = META_168_63_129_16 then
        (False, emit_event EVT_KIND_CONNECT EVT_DECISION_DENY 1)
      else case lpm_lookup K (net_rules m)
                  (net_key_to_bytes \<lparr>prefixlen = NET_KEY_PREFIX_FULL, cgid = cg, addr = dst_be\<rparr>) of
             None \<Rightarrow> (False, emit_event EVT_KIND_CONNECT EVT_DECISION_DENY 1)
           | Some raw \<Rightarrow>
               if port \<ge> 64 \<or> \<not> bit (u64_at raw 0) (unat port)
               then (False, emit_event EVT_KIND_CONNECT EVT_DECISION_DENY 1)
               else (True, emit_event EVT_KIND_CONNECT EVT_DECISION_ALLOW 0))"

record sockaddr =
  sa_family :: u16
  sin_addr :: u32
  sin_port :: u16

definition AF_UNIX :: u16 where "AF_UNIX = 1"
definition AF_INET :: u16 where "AF_INET = 2"
definition AF_INET6 :: u16 where "AF_INET6 = 10"

definition socket_connect :: "'t kernel \<Rightarrow> int \<Rightarrow> 't bpf_maps \<Rightarrow> u64 \<Rightarrow> sockaddr option \<Rightarrow> 't hook_result" where
  "socket_connect K ret m cg address =
     enforcing ret m cg (\<lambda>_.
       case address of
         None \<Rightarrow> (- EPERM, m, [])
       | Some a \<Rightarrow>
           if sa_family a = AF_INET then
             (let (allowed, ev) = check_ipv4_dst K m cg (sin_addr a) (to_be16 (sin_port a))
              in (if allowed then 0 else - EPERM, m, ev))
           else if sa_family a = AF_INET6 then (- EPERM, m, emit_event EVT_KIND_CONNECT EVT_DECISION_DENY 1)
           else if sa_family a = AF_UNIX then (0, m, [])
           else (- EPERM, m, emit_event EVT_KIND_CONNECT EVT_DECISION_DENY 1))"

definition socket_bind :: "int \<Rightarrow> 't bpf_maps \<Rightarrow> u64 \<Rightarrow> sockaddr option \<Rightarrow> 't hook_result" where
  "socket_bind ret m cg address =
     enforcing ret m cg (\<lambda>_.
       case address of
         None \<Rightarrow> (- EPERM, m, [])
       | Some a \<Rightarrow>
           if sa_family a = AF_INET then
             (if sin_addr a = 0x0100007f then (0, m, emit_event EVT_KIND_CONNECT EVT_DECISION_ALLOW 0)
              else (- EPERM, m, emit_event EVT_KIND_CONNECT EVT_DECISION_DENY 1))
           else if sa_family a = AF_UNIX then (0, m, [])
           else (- EPERM, m, emit_event EVT_KIND_CONNECT EVT_DECISION_DENY 1))"

text \<open>The cgroup programs answer 1 to allow and 0 to deny. \<^verbatim>\<open>user_port\<close> is in network byte order.\<close>

definition cgroup_connect4 :: "'t kernel \<Rightarrow> 't bpf_maps \<Rightarrow> u64 \<Rightarrow> u32 \<Rightarrow> u32 \<Rightarrow> int \<times> hook_event list" where
  "cgroup_connect4 K m cg user_ip4 user_port =
     (case lookup_ctx m cg of
        None \<Rightarrow> (1, [])
      | Some ctx \<Rightarrow>
          if flags ctx AND FLAG_ENFORCING = 0 then (1, [])
          else (let (allowed, ev) = check_ipv4_dst K m cg user_ip4 (to_be16 (ucast user_port))
                in (if allowed then 1 else 0, ev)))"

definition cgroup_connect6 :: "'t bpf_maps \<Rightarrow> u64 \<Rightarrow> int \<times> hook_event list" where
  "cgroup_connect6 m cg =
     (case lookup_ctx m cg of
        None \<Rightarrow> (1, [])
      | Some ctx \<Rightarrow>
          if flags ctx AND FLAG_ENFORCING = 0 then (1, [])
          else (0, emit_event EVT_KIND_CONNECT EVT_DECISION_DENY 1))"

definition fnv1a_hash :: "bytes \<Rightarrow> nat \<Rightarrow> u64" where
  "fnv1a_hash buf len =
     foldl (\<lambda>h b. (h XOR ucast b) * 0x100000001b3) 0xcbf29ce484222325 (take (min len 256) buf)"

text \<open>The scan of \<^verbatim>\<open>file_open\<close> stops at the first rule whose hash agrees; the result says whether
  that rule denies.\<close>

fun fs_scan :: "'t bpf_maps \<Rightarrow> u32 \<Rightarrow> u32 \<Rightarrow> u64 \<Rightarrow> u64 \<Rightarrow> nat list \<Rightarrow> bool" where
  "fs_scan m base en h requested [] = False"
| "fs_scan m base en h requested (i # is) =
     (if base + of_nat i \<ge> en then False
      else case hmaps m FsRules (idx_key (base + of_nat i)) of
             None \<Rightarrow> fs_scan m base en h requested is
           | Some raw \<Rightarrow>
               if path_hash (c_fs_rule raw) \<noteq> h then fs_scan m base en h requested is
               else access_mask (c_fs_rule raw) AND requested \<noteq> requested)"

definition file_open :: "int \<Rightarrow> 't bpf_maps \<Rightarrow> u64 \<Rightarrow> (bytes \<times> nat) option \<Rightarrow> u32 \<Rightarrow> 't hook_result" where
  "file_open ret m cg d_path f_mode =
     enforcing ret m cg (\<lambda>sctx.
       case d_path of
         None \<Rightarrow> (0, m, [])
       | Some (path_buf, path_len) \<Rightarrow>
           (let requested = (if f_mode AND 2 \<noteq> 0 then 2 else 4);
                h = fnv1a_hash path_buf path_len;
                base = fs_rules_base sctx;
                en = fs_rules_base sctx + fs_rules_count sctx
            in if fs_scan m base en h requested [0..<MAX_RULES]
               then (- EPERM, m, emit_event EVT_KIND_FILE_OPEN EVT_DECISION_DENY 1)
               else (0, m, emit_event EVT_KIND_FILE_OPEN EVT_DECISION_ALLOW 0)))"

text \<open>\<^verbatim>\<open>path_mkdir\<close>, \<^verbatim>\<open>path_unlink\<close>, \<^verbatim>\<open>path_rename\<close>, \<^verbatim>\<open>path_truncate\<close> and \<^verbatim>\<open>task_alloc\<close>.\<close>

definition dirty_hook :: "int \<Rightarrow> 't bpf_maps \<Rightarrow> u64 \<Rightarrow> 't hook_result" where
  "dirty_hook ret m cg =
     (if ret \<noteq> 0 then (ret, m, [])
      else case lookup_ctx m cg of
             None \<Rightarrow> (0, m, [])
           | Some _ \<Rightarrow> (0, or_flags cg FLAG_DIRTY m, []))"

definition sb_mount :: "int \<Rightarrow> 't bpf_maps \<Rightarrow> u64 \<Rightarrow> 't hook_result" where
  "sb_mount ret m cg =
     enforcing ret m cg (\<lambda>_. (- EPERM, m, emit_event EVT_KIND_MOUNT EVT_DECISION_DENY 1))"

definition ptrace_access_check :: "int \<Rightarrow> 't bpf_maps \<Rightarrow> u64 \<Rightarrow> 't hook_result" where
  "ptrace_access_check ret m cg =
     enforcing ret m cg (\<lambda>_. (- EPERM, m, emit_event EVT_KIND_POLICY_DENY EVT_DECISION_DENY 1))"

text \<open>\<^verbatim>\<open>lsm/bpf\<close>, \<^verbatim>\<open>kernel_load_data\<close> and \<^verbatim>\<open>kernel_module_request\<close>: \<^verbatim>\<open>request_kill\<close> and deny.\<close>

definition kill_hook :: "int \<Rightarrow> 't bpf_maps \<Rightarrow> u64 \<Rightarrow> 't hook_result" where
  "kill_hook ret m cg =
     enforcing ret m cg (\<lambda>_.
       (- EPERM, or_flags cg FLAG_KILL_PENDING m, emit_event EVT_KIND_POLICY_DENY EVT_DECISION_KILL 0))"

section \<open>Hook calls and operations as steps\<close>

datatype hook_call =
    Exec_call "(u64 \<times> u32) option"
  | Connect_call "sockaddr option"
  | Bind_call "sockaddr option"
  | Connect4_call u32 u32
  | Connect6_call
  | File_open_call "(bytes \<times> nat) option" u32
  | Dirty_call
  | Mount_call
  | Ptrace_call
  | Kill_call

fun run_hook :: "'t kernel \<Rightarrow> int \<Rightarrow> 't bpf_maps \<Rightarrow> u64 \<Rightarrow> hook_call \<Rightarrow> 't hook_result" where
  "run_hook K ret m cg (Exec_call f) = bprm_check_security ret m cg f"
| "run_hook K ret m cg (Connect_call a) = socket_connect K ret m cg a"
| "run_hook K ret m cg (Bind_call a) = socket_bind ret m cg a"
| "run_hook K ret m cg (Connect4_call ip port) = (let (v, ev) = cgroup_connect4 K m cg ip port in (v, m, ev))"
| "run_hook K ret m cg Connect6_call = (let (v, ev) = cgroup_connect6 m cg in (v, m, ev))"
| "run_hook K ret m cg (File_open_call p mode) = file_open ret m cg p mode"
| "run_hook K ret m cg Dirty_call = dirty_hook ret m cg"
| "run_hook K ret m cg Mount_call = sb_mount ret m cg"
| "run_hook K ret m cg Ptrace_call = ptrace_access_check ret m cg"
| "run_hook K ret m cg Kill_call = kill_hook ret m cg"

datatype mgr_op =
    Register_op | Begin_setup_op | Update_op BpfPlan ExecSource | Deregister_op | Begin_turn_op u64 | End_turn_op | Generation_op

fun run_op :: "'t kernel \<Rightarrow> host \<Rightarrow> u64 \<Rightarrow> mgr_op \<Rightarrow> 't BpfManager \<Rightarrow> (error + unit) \<times> 't BpfManager" where
  "run_op K H c Register_op mgr = register_sandbox K c mgr"
| "run_op K H c Begin_setup_op mgr = begin_setup K c mgr"
| "run_op K H c (Update_op plan src) mgr = update_policy K H c plan src mgr"
| "run_op K H c Deregister_op mgr = deregister_sandbox K c mgr"
| "run_op K H c (Begin_turn_op t) mgr = bpf_begin_turn K c t mgr"
| "run_op K H c End_turn_op mgr = (let (r, mgr') = bpf_end_turn K c mgr in (rbind r (\<lambda>_. Inr ()), mgr'))"
| "run_op K H c Generation_op mgr = (let (r, mgr') = policy_generation K c mgr in (rbind r (\<lambda>_. Inr ()), mgr'))"

text \<open>Daemon and sandboxed tasks together: manager operations and hook invocations in any order.\<close>

inductive system_run :: "'t kernel \<Rightarrow> host \<Rightarrow> 't BpfManager \<Rightarrow> bool" for K H where
  boot: "system_run K H (manager_new m)"
| operation: "system_run K H mgr \<Longrightarrow> run_op K H c op mgr = (r, mgr') \<Longrightarrow> system_run K H mgr'"
| hook: "system_run K H mgr \<Longrightarrow> run_hook K ret (maps mgr) cg call = (v, m', ev) \<Longrightarrow>
    system_run K H (mgr\<lparr>maps := m'\<rparr>)"

lemma u32_at_ctx_flags: "ctx_from_bytes raw = Some ctx \<Longrightarrow> u32_at raw 8 = flags ctx"
  by (auto simp: ctx_from_bytes_def split: if_splits)

lemma run_hook_maps:
  assumes "run_hook K ret m cg call = (v, m', ev)"
  shows "m' = m \<or> (\<exists>f. m' = or_flags cg f m \<and> lookup_ctx m cg \<noteq> None)"
  using assms
  by (cases call)
     (auto simp: bprm_check_security_def socket_connect_def socket_bind_def file_open_def dirty_hook_def
       sb_mount_def ptrace_access_check_def kill_hook_def enforcing_def Let_def
       split: if_splits option.splits prod.splits)

lemma mgr_inv_or_flags:
  assumes "mgr_inv mgr"
  shows "mgr_inv (mgr\<lparr>maps := or_flags cg f (maps mgr)\<rparr>)"
proof (cases "hmaps (maps mgr) Sandboxes (cg_key cg)")
  case None
  then show ?thesis using assms by (simp add: or_flags_def)
next
  case (Some raw)
  let ?m' = "or_flags cg f (maps mgr)"
  have "sandbox_inv ?m' d st" if "registered mgr d = Some st" for d st
  proof -
    have si: "sandbox_inv (maps mgr) d st" by (rule mgr_inv_sandbox [OF assms that])
    show ?thesis
    proof (cases "d = cg")
      case True
      then obtain ctx where "raw = ctx_to_bytes ctx" using si Some by (auto simp: sandbox_inv_def)
      then show ?thesis
        using si Some True by (auto simp: sandbox_inv_def or_flags_def c_set_flags_ctx ctx_to_bytes_inj)
    next
      case False
      then show ?thesis using si Some by (simp add: sandbox_inv_def or_flags_def)
    qed
  qed
  then show ?thesis using assms by (simp add: mgr_inv_def fs_held_def [abs_def] exec_held_def [abs_def])
qed

lemma run_hook_inv:
  "mgr_inv mgr \<Longrightarrow> run_hook K ret (maps mgr) cg call = (v, m', ev) \<Longrightarrow> mgr_inv (mgr\<lparr>maps := m'\<rparr>)"
  using run_hook_maps mgr_inv_or_flags by fastforce

context lpm_trie
begin

lemma run_op_ok:
  assumes inv: "mgr_inv mgr" and r: "run_op K H c op mgr = (r, mgr')"
  shows "mgr_inv mgr' \<and> op_frame stored c mgr mgr'"
proof (cases op)
  case Register_op
  then show ?thesis using register_sandbox_ok [OF inv] r by simp
next
  case Begin_setup_op
  then show ?thesis using begin_setup_ok [OF inv] r by simp
next
  case (Update_op plan src)
  then show ?thesis using update_policy_ok [OF inv] r by simp
next
  case Deregister_op
  then show ?thesis using deregister_sandbox_ok [OF inv] r by simp
next
  case (Begin_turn_op t)
  then show ?thesis using bpf_begin_turn_ok [OF inv] r by simp
next
  case End_turn_op
  then show ?thesis using read_ctx_only [OF inv, of K c] r by (auto simp: bpf_end_turn_def split: prod.splits)
next
  case Generation_op
  then show ?thesis using read_ctx_only [OF inv, of K c] r by (auto simp: policy_generation_def split: prod.splits)
qed

lemma system_run_inv: "system_run K H mgr \<Longrightarrow> mgr_inv mgr"
proof (induction rule: system_run.induct)
  case (operation mgr c op r mgr')
  then show ?case using run_op_ok by blast
qed (simp_all add: mgr_inv_new run_hook_inv)

end

section \<open>Isolation\<close>

lemma exec_scan_cong:
  assumes "\<And>i. i \<in> set is \<Longrightarrow> base + of_nat i < en \<Longrightarrow>
    hmaps m' ExecRules (idx_key (base + of_nat i)) = hmaps m ExecRules (idx_key (base + of_nat i))"
  shows "exec_scan m' base en ino dev is = exec_scan m base en ino dev is"
  using assms by (induction "is") (auto simp: not_le split: option.splits)

lemma fs_scan_cong:
  assumes "\<And>i. i \<in> set is \<Longrightarrow> base + of_nat i < en \<Longrightarrow>
    hmaps m' FsRules (idx_key (base + of_nat i)) = hmaps m FsRules (idx_key (base + of_nat i))"
  shows "fs_scan m' base en h req is = fs_scan m base en h req is"
  using assms by (induction "is") (auto simp: not_le split: option.splits)

lemma scan_index_in_span:
  assumes "unat base + unat count \<le> 65536" "i < 64" "base + of_nat i < base + count"
  shows "unat (base + of_nat i :: u32) \<in> span base count"
proof -
  have "unat (base + of_nat i) = unat base + i" using assms by (intro unat_idx [of _ 64]) simp_all
  moreover have "unat (base + count) = unat base + unat count" using assms by (intro unat_plus_small) simp
  ultimately show ?thesis using assms(3) by (simp add: word_less_nat_alt)
qed

lemma ctx_registered:
  assumes "mgr_inv mgr" "registered mgr d = Some st"
  shows "\<exists>ctx. lookup_ctx (maps mgr) d = Some ctx \<and>
    fs_rules_base ctx = st_fs_base st \<and> fs_rules_count ctx = st_fs_count st \<and>
    exec_rules_base ctx = st_exec_base st \<and> exec_rules_count ctx = st_exec_count st"
  using mgr_inv_sandbox [OF assms] by (auto simp: sandbox_inv_def lookup_ctx_def ctx_from_to_bytes)

context lpm_trie
begin

lemma lookup_frame:
  assumes "frame stored I J c m m'" "d \<noteq> c"
  shows "lpm_lookup K (net_rules m') (net_key_to_bytes \<lparr>prefixlen = NET_KEY_PREFIX_FULL, cgid = d, addr = a\<rparr>) =
         lpm_lookup K (net_rules m) (net_key_to_bytes \<lparr>prefixlen = NET_KEY_PREFIX_FULL, cgid = d, addr = a\<rparr>)"
proof -
  let ?bits = "cg_bits d @ data_bits (idx_key a)"
  have kp: "key_prefix (net_key_to_bytes \<lparr>prefixlen = NET_KEY_PREFIX_FULL, cgid = d, addr = a\<rparr>) = ?bits"
    by (simp add: key_prefix_net_key NET_KEY_PREFIX_FULL_def)
  have "stored (net_rules m') (take n ?bits) = stored (net_rules m) (take n ?bits)" for n
  proof -
    have "take 64 (take n ?bits) \<noteq> cg_bits c"
    proof (cases "n < 64")
      case True
      then have "length (take 64 (take n ?bits)) \<noteq> length (cg_bits c)" by simp
      then show ?thesis by metis
    next
      case False
      then show ?thesis using assms(2) by (simp add: min_absorb1)
    qed
    then show ?thesis using assms(1) by (simp add: frame_def)
  qed
  then show ?thesis unfolding lookup_longest kp by (intro longest_match_cong) simp
qed

text \<open>Everything the hooks read for a registered cgroup other than the one operated on.\<close>

lemma hook_reads_frame:
  assumes inv: "mgr_inv mgr" and op: "op_frame stored c mgr mgr'" and d: "d \<noteq> c" "registered mgr d = Some st"
  shows "lookup_ctx (maps mgr') d = lookup_ctx (maps mgr) d"
    and "check_ipv4_dst K (maps mgr') d a p = check_ipv4_dst K (maps mgr) d a p"
    and "lookup_ctx (maps mgr) d = Some ctx \<Longrightarrow>
      exec_scan (maps mgr') (exec_rules_base ctx) (exec_rules_base ctx + exec_rules_count ctx) ino dev [0..<MAX_RULES] =
      exec_scan (maps mgr) (exec_rules_base ctx) (exec_rules_base ctx + exec_rules_count ctx) ino dev [0..<MAX_RULES]"
    and "lookup_ctx (maps mgr) d = Some ctx \<Longrightarrow>
      fs_scan (maps mgr') (fs_rules_base ctx) (fs_rules_base ctx + fs_rules_count ctx) h req [0..<MAX_RULES] =
      fs_scan (maps mgr) (fs_rules_base ctx) (fs_rules_base ctx + fs_rules_count ctx) h req [0..<MAX_RULES]"
proof -
  let ?I = "free_set (fs_alloc mgr) \<union> fs_held mgr c" and ?J = "free_set (exec_alloc mgr) \<union> exec_held mgr c"
  have fr: "frame stored ?I ?J c (maps mgr) (maps mgr')" using op by (simp add: op_frame_def)
  show "lookup_ctx (maps mgr') d = lookup_ctx (maps mgr) d"
    using fr d(1) by (simp add: lookup_ctx_def frame_def)
  show "check_ipv4_dst K (maps mgr') d a p = check_ipv4_dst K (maps mgr) d a p"
    unfolding check_ipv4_dst_def lookup_frame [OF fr d(1)] ..
  have si: "sandbox_inv (maps mgr) d st" by (rule mgr_inv_sandbox [OF inv d(2)])
  have hd: "fs_held mgr d = span (st_fs_base st) (st_fs_count st)" "exec_held mgr d = span (st_exec_base st) (st_exec_count st)"
    using d(2) by (simp_all add: fs_held_def exec_held_def)
  have dj: "fs_held mgr d \<inter> ?I = {}" "exec_held mgr d \<inter> ?J = {}"
    using inv d(1) unfolding mgr_inv_def held_inv_def by (simp_all add: Int_Un_distrib)
  assume ctx: "lookup_ctx (maps mgr) d = Some ctx"
  then have rng: "fs_rules_base ctx = st_fs_base st" "fs_rules_count ctx = st_fs_count st"
    "exec_rules_base ctx = st_exec_base st" "exec_rules_count ctx = st_exec_count st"
    using ctx_registered [OF inv d(2)] by auto
  show "exec_scan (maps mgr') (exec_rules_base ctx) (exec_rules_base ctx + exec_rules_count ctx) ino dev [0..<MAX_RULES] =
      exec_scan (maps mgr) (exec_rules_base ctx) (exec_rules_base ctx + exec_rules_count ctx) ino dev [0..<MAX_RULES]"
  proof (rule exec_scan_cong)
    fix i assume i: "i \<in> set [0..<MAX_RULES]" "exec_rules_base ctx + of_nat i < exec_rules_base ctx + exec_rules_count ctx"
    have "unat (exec_rules_base ctx + of_nat i) \<in> exec_held mgr d"
      unfolding hd rng using i si by (intro scan_index_in_span) (auto simp: rng sandbox_inv_def MAX_RULES_def)
    then have "unat (exec_rules_base ctx + of_nat i) \<notin> ?J" using dj by blast
    then show "hmaps (maps mgr') ExecRules (idx_key (exec_rules_base ctx + of_nat i)) =
        hmaps (maps mgr) ExecRules (idx_key (exec_rules_base ctx + of_nat i))"
      using fr by (simp add: frame_def)
  qed
  show "fs_scan (maps mgr') (fs_rules_base ctx) (fs_rules_base ctx + fs_rules_count ctx) h req [0..<MAX_RULES] =
      fs_scan (maps mgr) (fs_rules_base ctx) (fs_rules_base ctx + fs_rules_count ctx) h req [0..<MAX_RULES]"
  proof (rule fs_scan_cong)
    fix i assume i: "i \<in> set [0..<MAX_RULES]" "fs_rules_base ctx + of_nat i < fs_rules_base ctx + fs_rules_count ctx"
    have "unat (fs_rules_base ctx + of_nat i) \<in> fs_held mgr d"
      unfolding hd rng using i si by (intro scan_index_in_span) (auto simp: rng sandbox_inv_def MAX_RULES_def)
    then have "unat (fs_rules_base ctx + of_nat i) \<notin> ?I" using dj by blast
    then show "hmaps (maps mgr') FsRules (idx_key (fs_rules_base ctx + of_nat i)) =
        hmaps (maps mgr) FsRules (idx_key (fs_rules_base ctx + of_nat i))"
      using fr by (simp add: frame_def)
  qed
qed

lemma verdict_frame:
  assumes inv: "mgr_inv mgr" and op: "op_frame stored c mgr mgr'" and d: "d \<noteq> c" "registered mgr d = Some st"
  shows "fst (run_hook K ret (maps mgr') d call) = fst (run_hook K ret (maps mgr) d call) \<and>
         snd (snd (run_hook K ret (maps mgr') d call)) = snd (snd (run_hook K ret (maps mgr) d call))"
proof -
  obtain ctx where ctx: "lookup_ctx (maps mgr) d = Some ctx" using ctx_registered [OF inv d(2)] by blast
  note eqs = hook_reads_frame [OF inv op d]
  show ?thesis
    by (cases call)
       (simp_all add: bprm_check_security_def socket_connect_def socket_bind_def file_open_def dirty_hook_def
         sb_mount_def ptrace_access_check_def kill_hook_def enforcing_def cgroup_connect4_def cgroup_connect6_def
         eqs(1,2) eqs(3,4) [OF ctx] ctx Let_def split: option.split prod.split)
qed

end

text \<open>
  C2. Isolation between sandboxes. In every state the daemon can reach, with operations and hook
  invocations in any order and under any pattern of kernel failures, an operation on one cgroup,
  whether it succeeds or fails, changes no verdict and no event of any hook for any other
  registered sandbox: not for exec, connect, bind, file open, mount, ptrace or the kill hooks.
\<close>
theorem sandbox_isolation:
  assumes "lpm_trie K stored" and "system_run K H mgr"
    and "run_op K H c op mgr = (r, mgr')" and "d \<noteq> c" and "registered mgr d \<noteq> None"
  shows "fst (run_hook K ret (maps mgr') d call) = fst (run_hook K ret (maps mgr) d call) \<and>
         snd (snd (run_hook K ret (maps mgr') d call)) = snd (snd (run_hook K ret (maps mgr) d call))"
  using lpm_trie.verdict_frame [OF assms(1) _ _ assms(4)] lpm_trie.run_op_ok [OF assms(1) _ assms(3)]
    lpm_trie.system_run_inv [OF assms(1,2)] assms(5) by blast

definition empty_maps :: "bit_trie bpf_maps" where
  "empty_maps = \<lparr>hmaps = (\<lambda>_ _. None), net_rules = Leaf, tick = 0\<rparr>"

definition sample_host :: host where
  "sample_host =
     \<lparr>read_dir = (\<lambda>_. None), stat = (\<lambda>_. None), read_file = (\<lambda>_. None), sha256 = (\<lambda>b. take 32 b),
      dev_major = (\<lambda>d. drop_bit 8 d), dev_minor = (\<lambda>d. d AND 255)\<rparr>"

definition sample_plan :: BpfPlan where
  "sample_plan =
     \<lparr>bp_fs_rules = [], bp_exec_rules = [], bp_net_rules = [\<lparr>bn_cidr = ''10.0.0.0/8'', bn_ports = [53]\<rparr>],
      exec_policy_present = True, bp_block_metadata = True\<rparr>"

abbreviation "sample_kernel \<equiv> trie_kernel (\<lambda>_. False)"

text \<open>Two sandboxes, registered as cgroups 1 and 2.\<close>

definition sample_mgr :: "bit_trie BpfManager" where
  "sample_mgr = snd (register_sandbox sample_kernel 2 (snd (register_sandbox sample_kernel 1 (manager_new empty_maps))))"

lemma system_run_op: "system_run K H mgr \<Longrightarrow> system_run K H (snd (run_op K H c op mgr))"
  using operation [of K H mgr c op "fst (run_op K H c op mgr)" "snd (run_op K H c op mgr)"] by simp

lemma sample_mgr_run: "system_run sample_kernel sample_host sample_mgr"
  using system_run_op [OF system_run_op [OF boot, of sample_kernel sample_host 1 Register_op empty_maps], of 2 Register_op]
  by (simp add: sample_mgr_def)

lemma sample_mgr_registered: "registered sample_mgr 1 \<noteq> None" "registered sample_mgr 2 \<noteq> None"
  by (simp_all add: sample_mgr_def register_sandbox_def write_ctx_def map_update_def manager_new_def
      trie_kernel_def Let_def)

theorem sandbox_isolation_witness:
  "fst (run_hook sample_kernel 0
      (maps (snd (run_op sample_kernel sample_host 2 (Update_op sample_plan (Resolved [])) sample_mgr))) 1
      (Exec_call (Some (7, 8)))) =
   fst (run_hook sample_kernel 0 (maps sample_mgr) 1 (Exec_call (Some (7, 8))))"
  using sandbox_isolation [OF trie_kernel_lpm sample_mgr_run, of 2 "Update_op sample_plan (Resolved [])"
      "fst (run_op sample_kernel sample_host 2 (Update_op sample_plan (Resolved [])) sample_mgr)"
      "snd (run_op sample_kernel sample_host 2 (Update_op sample_plan (Resolved [])) sample_mgr)" 1 0
      "Exec_call (Some (7, 8))"] sample_mgr_registered(1)
  by simp

end
