(* ===== verification/Bpf_Audit.thy ===== *)
theory Bpf_Audit
  imports Bpf_Hooks
begin

text \<open>
  The audit pipeline: \<^verbatim>\<open>struct aivisor_event\<close> of \<^verbatim>\<open>common.h\<close> as written by the hooks, its decoder, and the
  consumer of \<^verbatim>\<open>audit.rs\<close> that drains the kernel ring into a bounded channel. The consumer thread, the
  kernel that fills the ring and the sink that empties the channel interleave freely; the pipeline is a
  step relation over their shared state.

  The lemmas show that the events a sink sees determine exactly what it misses, that the channel never
  grows past its depth, and that a stopped consumer comes to rest with the ring drained.
\<close>

section \<open>Events and their wire form\<close>

datatype EventKind =
    EK_FileOpen | EK_Exec | EK_Connect | EK_Mount | EK_PolicyDeny | EK_ResourcePressure | EK_Lifecycle | EK_BrokerCall
  | EK_Unknown u32

definition kind_from_raw :: "u32 \<Rightarrow> EventKind" where
  "kind_from_raw v =
     (if v = 0 then EK_FileOpen else if v = 1 then EK_Exec else if v = 2 then EK_Connect else if v = 3 then EK_Mount
      else if v = 4 then EK_PolicyDeny else if v = 5 then EK_ResourcePressure else if v = 6 then EK_Lifecycle
      else if v = 7 then EK_BrokerCall else EK_Unknown v)"

datatype EventDecision = ED_Allow | ED_Deny | ED_Notify | ED_Kill | ED_Unknown u32

definition decision_from_raw :: "u32 \<Rightarrow> EventDecision" where
  "decision_from_raw v =
     (if v = 0 then ED_Allow else if v = 1 then ED_Deny else if v = 2 then ED_Notify else if v = 3 then ED_Kill
      else ED_Unknown v)"

definition is_kill :: "EventDecision \<Rightarrow> bool" where
  "is_kill d \<longleftrightarrow> d = ED_Kill"

record AuditEvent =
  ae_cgid :: u64
  ae_ts_ns :: u64
  ae_pid :: u32
  ae_kind :: EventKind
  ae_decision :: EventDecision
  ae_errno :: u32
  ae_seq :: u64
  ae_dropped_count :: u64

definition WIRE_SIZE :: nat where "WIRE_SIZE = 32"

definition event_from_bytes :: "bytes \<Rightarrow> u64 \<Rightarrow> u64 \<Rightarrow> AuditEvent option" where
  "event_from_bytes b seq dropped_count =
     (if length b < WIRE_SIZE then None
      else Some \<lparr>ae_cgid = u64_at b 0, ae_ts_ns = u64_at b 8, ae_pid = u32_at b 16,
                 ae_kind = kind_from_raw (u32_at b 20), ae_decision = decision_from_raw (u32_at b 24),
                 ae_errno = u32_at b 28, ae_seq = seq, ae_dropped_count = dropped_count\<rparr>)"

text \<open>The record \<^verbatim>\<open>emit_event\<close> fills in when the ring has room.\<close>

definition c_event :: "u64 \<Rightarrow> u64 \<Rightarrow> u32 \<Rightarrow> hook_event \<Rightarrow> bytes" where
  "c_event cg ts pid ev =
     le_bytes 8 cg @ le_bytes 8 ts @ le_bytes 4 pid @ le_bytes 4 (ev_kind ev) @ le_bytes 4 (ev_decision ev) @
     le_bytes 4 (ev_errno ev)"

section \<open>The pipeline\<close>

text \<open>Where the consumer thread is: at the head of its loop, inside \<^verbatim>\<open>ring.poll\<close>, in the final sweep, or gone.\<close>

datatype consumer_phase = LoopHead | InPoll | Sweeping | Exited

record audit =
  chan :: "AuditEvent list"
  depth :: nat
  rx_alive :: bool
  next_seq :: u64
  dropped :: u64
  malformed :: u64
  shutdown :: bool
  ring :: "bytes list"
  phase :: consumer_phase

datatype try_send_result = Sent | Full | Disconnected

definition try_send :: "AuditEvent \<Rightarrow> audit \<Rightarrow> try_send_result \<times> audit" where
  "try_send e a =
     (if \<not> rx_alive a then (Disconnected, a)
      else if length (chan a) \<ge> depth a then (Full, a)
      else (Sent, a\<lparr>chan := chan a @ [e]\<rparr>))"

definition offer :: "bytes \<Rightarrow> audit \<Rightarrow> audit" where
  "offer raw a =
     (let dropped_before = dropped a
      in case event_from_bytes raw (next_seq a) dropped_before of
           None \<Rightarrow> a\<lparr>malformed := malformed a + 1\<rparr>
         | Some event \<Rightarrow>
             (let a = a\<lparr>next_seq := next_seq a + 1\<rparr>
              in case try_send event a of
                   (Sent, a) \<Rightarrow> a
                 | (Full, a) \<Rightarrow> a\<lparr>dropped := dropped a + 1\<rparr>
                 | (Disconnected, a) \<Rightarrow> a\<lparr>dropped := dropped a + 1\<rparr>))"

definition recv_timeout :: "audit \<Rightarrow> AuditEvent option \<times> audit" where
  "recv_timeout a = (case chan a of [] \<Rightarrow> (None, a) | e # es \<Rightarrow> (Some e, a\<lparr>chan := es\<rparr>))"

definition drain :: "audit \<Rightarrow> AuditEvent list \<times> audit" where
  "drain a = (chan a, a\<lparr>chan := []\<rparr>)"

definition is_running :: "audit \<Rightarrow> bool" where
  "is_running a \<longleftrightarrow> \<not> shutdown a"

text \<open>What the set-up of the ring can run into before the thread reports ready.\<close>

datatype ring_setup = PinMissing | SpawnFailed | AttachFailed | BuildFailed | ReadyLost | SetupOk

definition start_consumer :: "nat \<Rightarrow> ring_setup \<Rightarrow> bytes list \<Rightarrow> error + audit" where
  "start_consumer channel_depth setup pending =
     (if channel_depth = 0 then Inl (PolicyInvalid ''audit channel depth must be non-zero'')
      else case setup of
             PinMissing \<Rightarrow> Inl (LaunchFailed ''open pinned audit ring buffer'')
           | SpawnFailed \<Rightarrow> Inl (LaunchFailed ''spawn audit consumer thread'')
           | AttachFailed \<Rightarrow> Inl (LaunchFailed ''attach to audit ring buffer'')
           | BuildFailed \<Rightarrow> Inl (LaunchFailed ''build audit ring buffer'')
           | ReadyLost \<Rightarrow> Inl (LaunchFailed ''audit consumer thread exited before signalling readiness'')
           | SetupOk \<Rightarrow>
               Inr \<lparr>chan = [], depth = channel_depth, rx_alive = True, next_seq = 0, dropped = 0, malformed = 0,
                    shutdown = False, ring = pending, phase = LoopHead\<rparr>)"

text \<open>The steps of the consumer thread. A \<^verbatim>\<open>poll\<close> runs the callback on some of the pending records and returns
  at any point (its timeout, a signal, an empty ring); \<^verbatim>\<open>consume\<close> runs it on all of them.\<close>

inductive consumer_step :: "audit \<Rightarrow> audit \<Rightarrow> bool" where
  enter_poll: "phase a = LoopHead \<Longrightarrow> \<not> shutdown a \<Longrightarrow> consumer_step a (a\<lparr>phase := InPoll\<rparr>)"
| leave_loop: "phase a = LoopHead \<Longrightarrow> shutdown a \<Longrightarrow> consumer_step a (a\<lparr>phase := Sweeping\<rparr>)"
| poll_record: "phase a = InPoll \<Longrightarrow> ring a = raw # rest \<Longrightarrow> consumer_step a (offer raw (a\<lparr>ring := rest\<rparr>))"
| poll_return: "phase a = InPoll \<Longrightarrow> consumer_step a (a\<lparr>phase := LoopHead\<rparr>)"
| sweep_record: "phase a = Sweeping \<Longrightarrow> ring a = raw # rest \<Longrightarrow> consumer_step a (offer raw (a\<lparr>ring := rest\<rparr>))"
| thread_exit: "phase a = Sweeping \<Longrightarrow> ring a = [] \<Longrightarrow> consumer_step a (a\<lparr>phase := Exited, shutdown := True\<rparr>)"

text \<open>
  Every history of a pipeline of a given depth: the records the kernel has put in the ring so far, the
  events the sink has taken out, and the state. \<^verbatim>\<open>stop\<close> sets the flag and joins the thread; the receiver
  is dropped only after that.
\<close>

inductive audit_run :: "nat \<Rightarrow> bytes list \<Rightarrow> AuditEvent list \<Rightarrow> audit \<Rightarrow> bool" where
  started: "start_consumer d su pending = Inr a \<Longrightarrow> audit_run d pending [] a"
| kernel_emit: "audit_run d em rc a \<Longrightarrow> audit_run d (em @ [raw]) rc (a\<lparr>ring := ring a @ [raw]\<rparr>)"
| consumer: "audit_run d em rc a \<Longrightarrow> consumer_step a a' \<Longrightarrow> audit_run d em rc a'"
| received: "audit_run d em rc a \<Longrightarrow> rx_alive a \<Longrightarrow> recv_timeout a = (Some e, a') \<Longrightarrow> audit_run d em (rc @ [e]) a'"
| drained: "audit_run d em rc a \<Longrightarrow> rx_alive a \<Longrightarrow> drain a = (es, a') \<Longrightarrow> audit_run d em (rc @ es) a'"
| stop_flag: "audit_run d em rc a \<Longrightarrow> audit_run d em rc (a\<lparr>shutdown := True\<rparr>)"
| stream_dropped: "audit_run d em rc a \<Longrightarrow> phase a = Exited \<Longrightarrow> audit_run d em rc (a\<lparr>rx_alive := False\<rparr>)"

section \<open>Accounting\<close>

definition decodable :: "bytes list \<Rightarrow> bytes list" where
  "decodable rs = filter (\<lambda>b. WIRE_SIZE \<le> length b) rs"

text \<open>The events delivered when, of the decodable records, those at the positions \<^verbatim>\<open>js\<close> got through: the
  \<^verbatim>\<open>i\<close>-th of them carries its position as sequence number and the count of those skipped before it.\<close>

definition stamped :: "bytes list \<Rightarrow> nat list \<Rightarrow> AuditEvent list" where
  "stamped w js =
     map (\<lambda>i. the (event_from_bytes (w ! (js ! i)) (of_nat (js ! i)) (of_nat (js ! i - i)))) [0..<length js]"

definition positions_in :: "nat \<Rightarrow> nat list \<Rightarrow> bool" where
  "positions_in n js \<longleftrightarrow> sorted_wrt (<) js \<and> (\<forall>j\<in>set js. j < n)"

lemma positions_in_length: "positions_in n js \<Longrightarrow> length js \<le> n"
proof -
  assume p: "positions_in n js"
  then have "distinct js" by (simp add: positions_in_def strict_sorted_iff)
  moreover have "set js \<subseteq> {..<n}" using p by (auto simp: positions_in_def)
  ultimately show ?thesis by (metis card_lessThan card_mono distinct_card finite_lessThan)
qed

lemma positions_in_Suc: "positions_in n js \<Longrightarrow> positions_in (Suc n) js"
  by (auto simp: positions_in_def)

lemma positions_in_snoc: "positions_in n js \<Longrightarrow> positions_in (Suc n) (js @ [n])"
  by (auto simp: positions_in_def sorted_wrt_append)

lemma stamped_more [simp]: "positions_in (length w) js \<Longrightarrow> stamped (w @ [r]) js = stamped w js"
  by (auto simp: stamped_def positions_in_def nth_append)

lemma stamped_snoc:
  "stamped w (js @ [j]) = stamped w js @ [the (event_from_bytes (w ! j) (of_nat j) (of_nat (j - length js)))]"
  by (simp add: stamped_def nth_append)

definition accounted :: "nat \<Rightarrow> bytes list \<Rightarrow> AuditEvent list \<Rightarrow> audit \<Rightarrow> bytes list \<Rightarrow> nat list \<Rightarrow> bool" where
  "accounted d em rc a offered js \<longleftrightarrow>
     em = offered @ ring a \<and> positions_in (length (decodable offered)) js \<and>
     rc @ chan a = stamped (decodable offered) js \<and>
     next_seq a = of_nat (length (decodable offered)) \<and>
     dropped a = of_nat (length (decodable offered) - length js) \<and>
     malformed a = of_nat (length offered - length (decodable offered)) \<and>
     depth a = d \<and> 0 < d \<and> length (chan a) \<le> d \<and> (rx_alive a \<or> phase a = Exited)"

lemma offer_accounted:
  assumes "accounted d em rc a offered js" "ring a = raw # rest" "phase a \<noteq> Exited"
  shows "\<exists>js'. accounted d em rc (offer raw (a\<lparr>ring := rest\<rparr>)) (offered @ [raw]) js'"
proof (cases "WIRE_SIZE \<le> length raw")
  case False
  have "length (decodable offered) \<le> length offered" by (simp add: decodable_def)
  with False assms show ?thesis
    by (intro exI [of _ js]) (simp add: accounted_def offer_def event_from_bytes_def decodable_def Suc_diff_le)
next
  case True
  let ?n = "length (decodable offered)"
  let ?js = "if length (chan a) < d then js @ [?n] else js"
  have le: "length js \<le> ?n" using assms(1) positions_in_length by (auto simp: accounted_def)
  have dec: "decodable (offered @ [raw]) = decodable offered @ [raw]" using True by (simp add: decodable_def)
  have "accounted d em rc (offer raw (a\<lparr>ring := rest\<rparr>)) (offered @ [raw]) ?js"
    using assms True le
    by (auto simp: accounted_def offer_def event_from_bytes_def dec try_send_def Let_def nth_append
        stamped_snoc positions_in_snoc positions_in_Suc Suc_diff_le append_assoc [symmetric] simp del: append_assoc)
  then show ?thesis by blast
qed

lemma offer_phase [simp]: "phase (offer raw a) = phase a" "shutdown (offer raw a) = shutdown a"
    "ring (offer raw a) = ring a"
  by (auto simp: offer_def try_send_def Let_def split: option.split)

lemma audit_run_accounted: "audit_run d em rc a \<Longrightarrow> \<exists>offered js. accounted d em rc a offered js"
proof (induction rule: audit_run.induct)
  case (started d su pending a)
  then show ?case
    by (intro exI [of _ "[]"])
      (auto simp: start_consumer_def accounted_def positions_in_def stamped_def decodable_def split: if_splits ring_setup.splits)
next
  case (kernel_emit d em rc a raw)
  then obtain offered js where "accounted d em rc a offered js" by blast
  then have "accounted d (em @ [raw]) rc (a\<lparr>ring := ring a @ [raw]\<rparr>) offered js" by (simp add: accounted_def)
  then show ?case by blast
next
  case (consumer d em rc a a')
  then obtain offered js where acc: "accounted d em rc a offered js" by blast
  from consumer.hyps(2) show ?case
  proof cases
    case (poll_record raw rest)
    then show ?thesis using offer_accounted [OF acc] by fastforce
  next
    case (sweep_record raw rest)
    then show ?thesis using offer_accounted [OF acc] by fastforce
  qed (use acc in \<open>auto intro!: exI [of _ offered] exI [of _ js] simp: accounted_def\<close>)
next
  case (received d em rc a e a')
  then obtain offered js where acc: "accounted d em rc a offered js" by blast
  with received.hyps have "accounted d em (rc @ [e]) a' offered js"
    by (auto simp: accounted_def recv_timeout_def split: list.splits)
  then show ?case by blast
next
  case (drained d em rc a es a')
  then obtain offered js where acc: "accounted d em rc a offered js" by blast
  with drained.hyps have "accounted d em (rc @ es) a' offered js"
    by (auto simp: accounted_def drain_def)
  then show ?case by blast
next
  case (stop_flag d em rc a)
  then show ?case by (simp add: accounted_def)
next
  case (stream_dropped d em rc a)
  then show ?case by (simp add: accounted_def)
qed


definition sample_audit :: audit where
  "sample_audit =
     \<lparr>chan = [], depth = 1, rx_alive = True, next_seq = 0, dropped = 0, malformed = 0, shutdown = False,
      ring = [replicate 32 0, replicate 32 1, replicate 4 0], phase = InPoll\<rparr>"

lemma sample_audit_run: "audit_run 1 [replicate 32 0, replicate 32 1, replicate 4 0] [] sample_audit"
proof -
  have "audit_run 1 [replicate 32 0, replicate 32 1, replicate 4 0] [] (sample_audit\<lparr>phase := LoopHead\<rparr>)"
    by (rule started [where su = SetupOk]) (simp add: start_consumer_def sample_audit_def)
  from consumer [OF this enter_poll] show ?thesis by (simp add: sample_audit_def)
qed


text \<open>
  The consumer loses an event only because the channel is full: while its thread runs the receiver is
  alive, a decodable record is counted as dropped exactly when the queue holds as many events as its depth,
  otherwise it is queued last; a record too short to decode changes the malformed count alone and uses
  no sequence number.
\<close>
theorem audit_drops_only_when_full:
  assumes "audit_run d em rc a" and "phase a \<noteq> Exited"
  shows "rx_alive a \<and>
    offer raw a =
      (if length raw < WIRE_SIZE then a\<lparr>malformed := malformed a + 1\<rparr>
       else if length (chan a) = d then a\<lparr>next_seq := next_seq a + 1, dropped := dropped a + 1\<rparr>
       else a\<lparr>chan := chan a @ [the (event_from_bytes raw (next_seq a) (dropped a))], next_seq := next_seq a + 1\<rparr>)"
proof -
  obtain offered js where "accounted d em rc a offered js" using audit_run_accounted [OF assms(1)] by blast
  then show ?thesis
    using assms(2) by (auto simp: accounted_def offer_def event_from_bytes_def try_send_def Let_def)
qed

theorem audit_drops_only_when_full_witness:
  "offer (replicate 32 0) sample_audit =
     sample_audit\<lparr>chan := [the (event_from_bytes (replicate 32 0) 0 0)], next_seq := 1\<rparr>"
  using audit_drops_only_when_full [OF sample_audit_run, of "replicate 32 0"]
  by (simp add: sample_audit_def WIRE_SIZE_def)

section \<open>Shutdown\<close>

fun phase_rank :: "consumer_phase \<Rightarrow> nat" where
  "phase_rank InPoll = 3"
| "phase_rank LoopHead = 2"
| "phase_rank Sweeping = 1"
| "phase_rank Exited = 0"

lemma consumer_step_decreases:
  "consumer_step a a' \<Longrightarrow> shutdown a \<Longrightarrow>
     shutdown a' \<and> Suc (phase_rank (phase a') + length (ring a')) \<le> phase_rank (phase a) + length (ring a)"
  by (erule consumer_step.cases) auto

lemma consumer_steps_bound:
  "(consumer_step ^^ n) a a' \<Longrightarrow> shutdown a \<Longrightarrow>
     shutdown a' \<and> n + phase_rank (phase a') + length (ring a') \<le> phase_rank (phase a) + length (ring a)"
proof (induction n arbitrary: a')
  case (Suc n)
  from Suc.prems(1) obtain b where "(consumer_step ^^ n) a b" "consumer_step b a'" by (auto elim: relcomppE)
  with Suc.IH [of b] Suc.prems(2) consumer_step_decreases [of b a'] show ?case by fastforce
qed auto

lemma consumer_step_progress:
  assumes "phase a \<noteq> Exited" shows "\<exists>a'. consumer_step a a'"
proof (cases "phase a")
  case Sweeping
  then show ?thesis by (cases "ring a") (auto intro: sweep_record thread_exit)
qed (use assms in \<open>auto intro: enter_poll leave_loop poll_return\<close>)

lemma consumer_exit_drained:
  "(consumer_step ^^ n) a a' \<Longrightarrow> phase a \<noteq> Exited \<Longrightarrow> phase a' = Exited \<Longrightarrow> ring a' = []"
proof (cases n)
  case (Suc m)
  assume "(consumer_step ^^ n) a a'" "phase a' = Exited"
  then obtain b where "consumer_step b a'" using Suc by (auto elim: relcomppE)
  then show ?thesis using \<open>phase a' = Exited\<close> by cases auto
qed auto



section \<open>The wire form\<close>

lemma kind_from_raw_inj: "kind_from_raw v = kind_from_raw w \<longleftrightarrow> v = w"
  by (auto simp: kind_from_raw_def split: if_splits)

lemma decision_from_raw_inj: "decision_from_raw v = decision_from_raw w \<longleftrightarrow> v = w"
  by (auto simp: decision_from_raw_def split: if_splits)

text \<open>
  The record a hook writes is the event the consumer reads: every field survives, kinds and decisions
  the daemon does not know stay distinguishable from all others, and an event asks for a teardown exactly
  when the hook's decision was to kill.
\<close>
theorem audit_event_roundtrip:
  "event_from_bytes (c_event cg ts pid ev) seq dc =
     Some \<lparr>ae_cgid = cg, ae_ts_ns = ts, ae_pid = pid, ae_kind = kind_from_raw (ev_kind ev),
           ae_decision = decision_from_raw (ev_decision ev), ae_errno = ev_errno ev,
           ae_seq = seq, ae_dropped_count = dc\<rparr> \<and>
   (kind_from_raw v = kind_from_raw w \<longleftrightarrow> v = w) \<and> (decision_from_raw v = decision_from_raw w \<longleftrightarrow> v = w) \<and>
   (is_kill (decision_from_raw v) \<longleftrightarrow> v = EVT_DECISION_KILL)"
proof (intro conjI)
  show "is_kill (decision_from_raw v) \<longleftrightarrow> v = EVT_DECISION_KILL"
    by (simp add: is_kill_def decision_from_raw_def EVT_DECISION_KILL_def)
qed (simp_all add: event_from_bytes_def c_event_def WIRE_SIZE_def u32_at_def u64_at_def kind_from_raw_inj decision_from_raw_inj)

end
