(* ===== verification/Broker.thy ===== *)
theory Broker
  imports Core
begin

text \<open>
  The session table of the egress broker (\<^verbatim>\<open>aivisor-broker/src/proxy.rs\<close>): session tokens, the cgroup a
  token is bound to, and byte budgets. The map sits behind a mutex, so calls from the connection threads
  are a sequence of operations; the lemmas are about all such sequences. The token generator
  (\<^verbatim>\<open>uuid::now_v7\<close>) and the host's \<^verbatim>\<open>stat\<close> are arguments.
\<close>

section \<open>Sessions\<close>

record SessionState =
  ss_sandbox_id :: SandboxId
  bound_cgroup :: "u64 option"
  byte_budget :: u64
  bytes_used :: u64

type_synonym Broker = "string \<rightharpoonup> SessionState"

definition DEFAULT_BYTE_BUDGET :: u64 where "DEFAULT_BYTE_BUDGET = 100 * 1024 * 1024"

definition broker_new :: Broker where "broker_new = Map.empty"

definition session_token :: "string \<Rightarrow> string" where "session_token uuid = ''aiv-ses-'' @ uuid"

definition issue_session_bound :: "string \<Rightarrow> SandboxId \<Rightarrow> u64 option \<Rightarrow> Broker \<Rightarrow> (error + string) \<times> Broker" where
  "issue_session_bound uuid sandbox_id cgroup b =
     (let token = session_token uuid
      in (Inr token,
          b(token \<mapsto> \<lparr>ss_sandbox_id = sandbox_id, bound_cgroup = cgroup,
                      byte_budget = DEFAULT_BYTE_BUDGET, bytes_used = 0\<rparr>)))"

definition issue_session :: "string \<Rightarrow> SandboxId \<Rightarrow> Broker \<Rightarrow> (error + string) \<times> Broker" where
  "issue_session uuid sandbox_id b = issue_session_bound uuid sandbox_id None b"

definition revoke_session :: "string \<Rightarrow> Broker \<Rightarrow> (error + unit) \<times> Broker" where
  "revoke_session token b = (Inr (), b(token := None))"

definition record_bytes :: "string \<Rightarrow> u64 \<Rightarrow> Broker \<Rightarrow> (error + unit) \<times> Broker" where
  "record_bytes token n b =
     (case b token of
        None \<Rightarrow> (Inl (PolicyInvalid ''unknown broker session''), b)
      | Some session \<Rightarrow>
          (let new_total = saturating_add (bytes_used session) n
           in if new_total > byte_budget session
              then (Inl (PolicyInvalid ''broker session exceeded byte budget''), b)
              else (Inr (), b(token \<mapsto> session\<lparr>bytes_used := new_total\<rparr>))))"

definition remaining_budget :: "string \<Rightarrow> Broker \<Rightarrow> u64 option" where
  "remaining_budget token b = map_option (\<lambda>s. saturating_sub (byte_budget s) (bytes_used s)) (b token)"

definition verify_peer_cgroup :: "string \<Rightarrow> u64 \<Rightarrow> Broker \<Rightarrow> error + unit" where
  "verify_peer_cgroup token peer_cgroup b =
     (case b token of
        None \<Rightarrow> Inl (PolicyInvalid ''unknown broker session'')
      | Some session \<Rightarrow>
          (case bound_cgroup session of
             Some expected \<Rightarrow>
               if expected = peer_cgroup then Inr ()
               else Inl (PolicyInvalid ''peer cgroup does not match the cgroup it was issued for'')
           | None \<Rightarrow> Inl (PolicyInvalid ''was never bound to a cgroup'')))"

definition broker_stats :: "Broker \<Rightarrow> nat" where
  "broker_stats b = card (dom b)"

text \<open>The peer of a connection: the cgroup v2 line of \<^verbatim>\<open>/proc/<pid>/cgroup\<close>, resolved by the inode of the
  cgroup directory.\<close>

definition cgroup_id_from_proc_cgroup :: "(string \<Rightarrow> u64 option) \<Rightarrow> string \<Rightarrow> error + u64" where
  "cgroup_id_from_proc_cgroup stat content =
     (case List.find (\<lambda>line. strip_prefix line ''0::'' \<noteq> None) (str_lines content) of
        None \<Rightarrow> Inl (PolicyInvalid ''no cgroup v2 (0::) entry'')
      | Some line \<Rightarrow>
          ok_or (PolicyInvalid ''stat'') (stat (''/sys/fs/cgroup'' @ the (strip_prefix line ''0::''))))"

text \<open>\<^verbatim>\<open>cgroup_of_pid\<close> and \<^verbatim>\<open>unix_peer_cgroup\<close>: the pid from \<^verbatim>\<open>SO_PEERCRED\<close>, its \<^verbatim>\<open>/proc\<close> entry, the id.\<close>

definition unix_peer_cgroup ::
    "nat option \<Rightarrow> (nat \<Rightarrow> string option) \<Rightarrow> (string \<Rightarrow> u64 option) \<Rightarrow> error + u64" where
  "unix_peer_cgroup peercred proc_cgroup stat =
     rbind (ok_or (PolicyInvalid ''SO_PEERCRED'') peercred) (\<lambda>pid.
     rbind (ok_or (PolicyInvalid ''read /proc/pid/cgroup'') (proc_cgroup pid)) (\<lambda>content.
       cgroup_id_from_proc_cgroup stat content))"

section \<open>The budget contract\<close>

text \<open>
  What the relay paths rely on when they charge a session: a charge is all or nothing, it stays within the
  cap, and it touches one account.
\<close>

locale ledger =
  fixes charge_acct :: "'k \<Rightarrow> u64 \<Rightarrow> 's \<Rightarrow> ('e + unit) \<times> 's"
    and used :: "'s \<Rightarrow> 'k \<Rightarrow> nat option"
    and cap :: "'s \<Rightarrow> 'k \<Rightarrow> nat"
    and inv :: "'s \<Rightarrow> bool"
  assumes charge_ok: "inv s \<Longrightarrow> charge_acct k n s = (Inr u, s') \<Longrightarrow>
      \<exists>m. used s k = Some m \<and> used s' k = Some (m + unat n) \<and> m + unat n \<le> cap s k"
    and charge_refused: "charge_acct k n s = (Inl e, s') \<Longrightarrow> s' = s"
    and charge_others: "charge_acct k n s = (r, s') \<Longrightarrow> j \<noteq> k \<Longrightarrow> used s' j = used s j"
    and charge_caps: "charge_acct k n s = (r, s') \<Longrightarrow> cap s' = cap s"
    and charge_inv: "inv s \<Longrightarrow> charge_acct k n s = (r, s') \<Longrightarrow> inv s'"
begin

text \<open>Charges to several accounts in any order, and the bytes of one account that were accepted.\<close>

fun charge_seq :: "('k \<times> u64) list \<Rightarrow> 's \<Rightarrow> ('k \<times> nat) list \<times> 's" where
  "charge_seq [] s = ([], s)"
| "charge_seq ((k, n) # cs) s =
     (case charge_acct k n s of
        (Inl _, s) \<Rightarrow> charge_seq cs s
      | (Inr _, s) \<Rightarrow> (let (acc, s) = charge_seq cs s in ((k, unat n) # acc, s)))"

definition accepted :: "'k \<Rightarrow> ('k \<times> nat) list \<Rightarrow> nat" where
  "accepted k acc = sum_list (map snd (filter (\<lambda>a. fst a = k) acc))"

lemma charge_acct_used:
  assumes "charge_acct k n s = (r, s')" "used s j = Some m" "inv s"
  shows "used s' j = Some (m + (if j = k \<and> r = Inr () then unat n else 0))"
  using assms charge_ok [of s k n "()" s'] charge_refused [of k n s _ s'] charge_others [of k n s r s' j]
  by (cases r; cases "j = k") auto

lemma charge_seq_exact:
  assumes "charge_seq cs s = (acc, s')" "used s k = Some m" "inv s" "m \<le> cap s k"
  shows "used s' k = Some (m + accepted k acc) \<and> cap s' = cap s \<and> inv s' \<and> m + accepted k acc \<le> cap s k"
  using assms
proof (induction cs arbitrary: s acc s' m)
  case (Cons c cs)
  obtain j n where c: "c = (j, n)" by force
  obtain r s1 where ch: "charge_acct j n s = (r, s1)" by force
  obtain acc1 s2 where rest: "charge_seq cs s1 = (acc1, s2)" by force
  have eq: "charge_seq (c # cs) s = (case r of Inl _ \<Rightarrow> (acc1, s2) | Inr _ \<Rightarrow> ((j, unat n) # acc1, s2))"
    by (simp add: c ch rest split: sum.split)
  define m1 where "m1 = m + (if k = j \<and> r = Inr () then unat n else 0)"
  have "used s1 k = Some m1" unfolding m1_def by (rule charge_acct_used [OF ch Cons.prems(2,3)])
  moreover have "m1 \<le> cap s k"
    using Cons.prems charge_ok [of s j n "()" s1] ch by (auto simp: m1_def split: if_splits)
  ultimately have "used s2 k = Some (m1 + accepted k acc1) \<and> cap s2 = cap s1 \<and> inv s2 \<and> m1 + accepted k acc1 \<le> cap s1 k"
    using Cons.IH [OF rest] charge_caps [OF ch] charge_inv [OF Cons.prems(3) ch] by simp
  then show ?case
    using Cons.prems(1) charge_caps [OF ch] unfolding eq m1_def accepted_def by (cases r) auto
qed (auto simp: accepted_def)

end

definition session_used :: "Broker \<Rightarrow> string \<Rightarrow> nat option" where
  "session_used b token = map_option (\<lambda>s. unat (bytes_used s)) (b token)"

definition session_cap :: "Broker \<Rightarrow> string \<Rightarrow> nat" where
  "session_cap b token = (case b token of None \<Rightarrow> 0 | Some s \<Rightarrow> unat (byte_budget s))"

text \<open>Every session has the default budget: no operation sets another one. (A budget of \<^verbatim>\<open>u64::MAX\<close> would
  not be enforced, since the saturated total equals it.)\<close>

definition sessions_ok :: "Broker \<Rightarrow> bool" where
  "sessions_ok b \<longleftrightarrow>
     (\<forall>token s. b token = Some s \<longrightarrow> byte_budget s = DEFAULT_BYTE_BUDGET \<and> bytes_used s \<le> DEFAULT_BYTE_BUDGET)"

lemma record_bytes_cases:
  assumes "sessions_ok b"
  obtains (unknown) "b token = None" "record_bytes token n b = (Inl (PolicyInvalid ''unknown broker session''), b)"
  | (refused) s where "b token = Some s" "unat DEFAULT_BYTE_BUDGET < unat (bytes_used s) + unat n"
      "record_bytes token n b = (Inl (PolicyInvalid ''broker session exceeded byte budget''), b)"
  | (granted) s where "b token = Some s" "unat (bytes_used s) + unat n \<le> unat DEFAULT_BYTE_BUDGET"
      "record_bytes token n b = (Inr (), b(token \<mapsto> s\<lparr>bytes_used := bytes_used s + n\<rparr>))"
proof (cases "b token")
  case (Some s)
  have bud: "byte_budget s = DEFAULT_BYTE_BUDGET" using assms Some by (auto simp: sessions_ok_def)
  have v: "unat DEFAULT_BYTE_BUDGET = 104857600" by (simp add: DEFAULT_BYTE_BUDGET_def)
  show ?thesis
  proof (cases "unat (bytes_used s) + unat n \<le> unat DEFAULT_BYTE_BUDGET")
    case True
    then have "saturating_add (bytes_used s) n = bytes_used s + n" "unat (bytes_used s + n) \<le> unat DEFAULT_BYTE_BUDGET"
      by (simp_all add: saturating_add_def unat_plus_small v)
    then show ?thesis using Some True bud by (intro granted) (auto simp: record_bytes_def word_less_nat_alt Let_def)
  next
    case False
    then have "unat DEFAULT_BYTE_BUDGET < unat (saturating_add (bytes_used s) n)"
      by (simp add: unat_saturating_add v)
    then show ?thesis using Some False bud by (intro refused) (auto simp: record_bytes_def word_less_nat_alt Let_def)
  qed
qed (auto intro: unknown simp: record_bytes_def)

lemma record_bytes_ok:
  assumes "sessions_ok b" "record_bytes token n b = (r, b')"
  shows "sessions_ok b'"
  using assms(1)
proof (cases rule: record_bytes_cases [of b token n])
  case (granted s)
  then have "unat (bytes_used s + n) \<le> unat DEFAULT_BYTE_BUDGET"
    by (subst unat_plus_small) (simp_all add: DEFAULT_BYTE_BUDGET_def)
  with granted assms show ?thesis by (auto simp: sessions_ok_def word_le_nat_alt)
qed (use assms in auto)

interpretation bl: ledger record_bytes session_used session_cap sessions_ok
proof
  fix b b' :: Broker and k j n and r :: "error + unit" and u e
  show "\<exists>m. session_used b k = Some m \<and> session_used b' k = Some (m + unat n) \<and> m + unat n \<le> session_cap b k"
    if "sessions_ok b" "record_bytes k n b = (Inr u, b')"
    using that(1)
  proof (cases rule: record_bytes_cases [of b k n])
    case (granted s)
    then have "unat (bytes_used s + n) = unat (bytes_used s) + unat n"
      by (intro unat_plus_small) (simp add: DEFAULT_BYTE_BUDGET_def)
    moreover have "byte_budget s = DEFAULT_BYTE_BUDGET" using that(1) granted(1) by (auto simp: sessions_ok_def)
    ultimately show ?thesis using granted that(2) by (auto simp: session_used_def session_cap_def)
  qed (use that in auto)
  show "b' = b" if "record_bytes k n b = (Inl e, b')"
    using that by (auto simp: record_bytes_def Let_def split: option.splits if_splits)
  show "session_used b' j = session_used b j" if "record_bytes k n b = (r, b')" "j \<noteq> k"
    using that by (auto simp: record_bytes_def Let_def session_used_def split: option.splits if_splits)
  show "session_cap b' = session_cap b" if "record_bytes k n b = (r, b')"
    using that by (auto simp: record_bytes_def Let_def session_cap_def split: option.splits if_splits intro!: ext)
  show "sessions_ok b'" if "sessions_ok b" "record_bytes k n b = (r, b')"
    using that by (rule record_bytes_ok)
qed

section \<open>Histories\<close>

datatype broker_op =
    Issue string SandboxId "u64 option"
  | Revoke string
  | Record string u64

fun broker_step :: "broker_op \<Rightarrow> Broker \<Rightarrow> Broker" where
  "broker_step (Issue uuid sid cg) b = snd (issue_session_bound uuid sid cg b)"
| "broker_step (Revoke token) b = snd (revoke_session token b)"
| "broker_step (Record token n) b = snd (record_bytes token n b)"

text \<open>The bytes a session has been granted since its token was last issued.\<close>

fun granted_since :: "string \<Rightarrow> nat \<Rightarrow> broker_op list \<Rightarrow> Broker \<Rightarrow> nat" where
  "granted_since token g [] b = g"
| "granted_since token g (op # ops) b =
     granted_since token
       (case op of
          Issue uuid _ _ \<Rightarrow> if session_token uuid = token then 0 else g
        | Revoke _ \<Rightarrow> g
        | Record t n \<Rightarrow> if t = token \<and> isl (fst (record_bytes t n b)) = False then g + unat n else g)
       ops (broker_step op b)"

lemma broker_step_ok: "sessions_ok b \<Longrightarrow> sessions_ok (broker_step op b)"
proof (cases op)
  case (Record token n)
  assume "sessions_ok b"
  from record_bytes_ok [OF this surjective_pairing] show ?thesis by (simp add: Record)
qed (auto simp: issue_session_bound_def revoke_session_def Let_def sessions_ok_def)

definition account :: "string \<Rightarrow> nat \<Rightarrow> Broker \<Rightarrow> bool" where
  "account token g b \<longleftrightarrow>
     sessions_ok b \<and> g \<le> unat DEFAULT_BYTE_BUDGET \<and> (\<forall>m. session_used b token = Some m \<longrightarrow> m = g)"

lemma account_record:
  assumes "account token g b"
  shows "account token (if t = token \<and> \<not> isl (fst (record_bytes t n b)) then g + unat n else g)
    (snd (record_bytes t n b))"
proof -
  obtain r b' where rb: "record_bytes t n b = (r, b')" by force
  have ok: "sessions_ok b" "sessions_ok b'"
    using assms record_bytes_ok [OF _ rb] by (auto simp: account_def)
  have cap: "session_cap b t \<le> unat DEFAULT_BYTE_BUDGET"
    using ok(1) by (auto simp: session_cap_def sessions_ok_def split: option.split)
  show ?thesis
  proof (cases r)
    case (Inl e)
    then show ?thesis using bl.charge_refused [of t n b e b'] rb assms by simp
  next
    case (Inr u)
    from bl.charge_ok [OF ok(1) rb [unfolded Inr]] obtain m where
      "session_used b t = Some m" "session_used b' t = Some (m + unat n)" "m + unat n \<le> session_cap b t" by blast
    with ok cap assms rb Inr bl.charge_others [OF rb, of token] show ?thesis by (auto simp: account_def)
  qed
qed

lemma account_step:
  assumes "account token g b"
  shows "account token
    (case op of
       Issue uuid _ _ \<Rightarrow> if session_token uuid = token then 0 else g
     | Revoke _ \<Rightarrow> g
     | Record t n \<Rightarrow> if t = token \<and> isl (fst (record_bytes t n b)) = False then g + unat n else g)
    (broker_step op b)"
proof (cases op)
  case (Record t n)
  then show ?thesis using account_record [OF assms] by simp
next
  case (Issue uuid sid cg)
  then show ?thesis
    using assms broker_step_ok [of b op]
    by (auto simp: account_def issue_session_bound_def Let_def session_used_def)
next
  case (Revoke t)
  then show ?thesis
    using assms broker_step_ok [of b op] by (auto simp: account_def revoke_session_def session_used_def)
qed

lemma account_run:
  "account token g b \<Longrightarrow> account token (granted_since token g ops b) (fold broker_step ops b)"
  by (induction ops arbitrary: g b) (simp_all add: account_step)

text \<open>
  Byte budgets hold across all interleavings of the connection threads. After any sequence of
  operations on a new broker, a live session's recorded use is exactly the bytes granted to it since its
  token was issued, and that total is within the budget (also for a session revoked meanwhile).
\<close>
theorem session_budget_enforced:
  "granted_since token 0 ops broker_new \<le> unat DEFAULT_BYTE_BUDGET \<and>
   (case fold broker_step ops broker_new token of
      None \<Rightarrow> True
    | Some s \<Rightarrow> unat (bytes_used s) = granted_since token 0 ops broker_new)"
proof -
  have "account token 0 broker_new"
    by (simp add: account_def broker_new_def sessions_ok_def session_used_def)
  from account_run [OF this, of ops] show ?thesis
    by (auto simp: account_def session_used_def split: option.split)
qed

text \<open>
  A charge is exact on every branch and fails closed: an unknown token and a charge that would pass the
  budget are refused and change nothing; any other charge is accepted, is deducted from the remaining
  budget of that session alone, and leaves every other session as it was.
\<close>
theorem record_bytes_exact:
  assumes "sessions_ok b"
  shows "record_bytes token n b =
    (case remaining_budget token b of
       None \<Rightarrow> (Inl (PolicyInvalid ''unknown broker session''), b)
     | Some left \<Rightarrow>
         if left < n then (Inl (PolicyInvalid ''broker session exceeded byte budget''), b)
         else (Inr (), b(token \<mapsto> (the (b token))\<lparr>bytes_used := bytes_used (the (b token)) + n\<rparr>))) \<and>
    (n \<le> the (remaining_budget token b) \<and> b token \<noteq> None \<longrightarrow>
       remaining_budget token (snd (record_bytes token n b)) = map_option (\<lambda>left. left - n) (remaining_budget token b))"
proof (cases "b token")
  case None
  then show ?thesis by (simp add: record_bytes_def remaining_budget_def)
next
  case (Some s)
  have bud: "byte_budget s = DEFAULT_BYTE_BUDGET" and le: "bytes_used s \<le> DEFAULT_BYTE_BUDGET"
    using assms Some by (auto simp: sessions_ok_def)
  have rem: "remaining_budget token b = Some (DEFAULT_BYTE_BUDGET - bytes_used s)"
    using Some bud le by (auto simp: remaining_budget_def saturating_sub_def)
  have lt: "DEFAULT_BYTE_BUDGET - bytes_used s < n \<longleftrightarrow> unat DEFAULT_BYTE_BUDGET < unat (bytes_used s) + unat n"
    using le unat_minus_small [OF le] by (auto simp: word_less_nat_alt word_le_nat_alt)
  show ?thesis
    using assms
  proof (cases rule: record_bytes_cases [of b token n])
    case (granted s')
    have "unat (bytes_used s + n) = unat (bytes_used s) + unat n"
      using granted Some by (intro unat_plus_small) (simp add: DEFAULT_BYTE_BUDGET_def)
    then have "\<not> DEFAULT_BYTE_BUDGET < bytes_used s + n" using granted Some by (simp add: word_less_nat_alt)
    with granted Some rem lt bud show ?thesis
      by (auto simp: remaining_budget_def saturating_sub_def algebra_simps)
  qed (use Some rem lt in \<open>auto simp: not_less [symmetric]\<close>)
qed

theorem record_bytes_exact_witness:
  "record_bytes ''aiv-ses-a'' 1024 (snd (issue_session ''a'' 7 broker_new)) =
     (Inr (), (snd (issue_session ''a'' 7 broker_new))(''aiv-ses-a'' \<mapsto>
        \<lparr>ss_sandbox_id = 7, bound_cgroup = None, byte_budget = DEFAULT_BYTE_BUDGET, bytes_used = 1024\<rparr>))"
proof -
  have "sessions_ok (snd (issue_session ''a'' 7 broker_new))"
    using broker_step_ok [of broker_new "Issue ''a'' 7 None"]
    by (simp add: issue_session_def sessions_ok_def broker_new_def)
  from record_bytes_exact [OF this, of "''aiv-ses-a''" 1024] show ?thesis
    by (simp add: issue_session_def issue_session_bound_def session_token_def broker_new_def remaining_budget_def saturating_sub_def
        DEFAULT_BYTE_BUDGET_def Let_def)
qed

definition issues :: "string \<Rightarrow> broker_op \<Rightarrow> bool" where
  "issues token op \<longleftrightarrow> (\<exists>uuid sid cg. op = Issue uuid sid cg \<and> session_token uuid = token)"

text \<open>The last issue of the token bound it to the peer, and it was not revoked since.\<close>

definition bound_to :: "string \<Rightarrow> u64 \<Rightarrow> broker_op list \<Rightarrow> bool" where
  "bound_to token peer ops \<longleftrightarrow>
     (\<exists>before uuid sid after. ops = before @ Issue uuid sid (Some peer) # after \<and> session_token uuid = token \<and>
        (\<forall>op\<in>set after. op \<noteq> Revoke token \<and> \<not> issues token op))"

lemma bound_to_snoc:
  "bound_to token peer (ops @ [op]) \<longleftrightarrow>
     (\<exists>uuid sid. op = Issue uuid sid (Some peer) \<and> session_token uuid = token) \<or>
     bound_to token peer ops \<and> op \<noteq> Revoke token \<and> \<not> issues token op" (is "?l = ?r")
proof
  assume ?l
  then obtain before uuid sid after where d: "ops @ [op] = before @ Issue uuid sid (Some peer) # after"
    "session_token uuid = token" "\<forall>op\<in>set after. op \<noteq> Revoke token \<and> \<not> issues token op"
    unfolding bound_to_def by blast
  show ?r
  proof (cases after rule: rev_cases)
    case (snoc after' op')
    with d have "ops = before @ Issue uuid sid (Some peer) # after'" "op' = op" by auto
    with d snoc have "bound_to token peer ops" unfolding bound_to_def
      by (intro exI [of _ before] exI [of _ uuid] exI [of _ sid] exI [of _ after']) auto
    with d(3) snoc \<open>op' = op\<close> show ?thesis by auto
  qed (use d in auto)
next
  assume ?r
  then consider uuid sid where "op = Issue uuid sid (Some peer)" "session_token uuid = token"
    | "bound_to token peer ops" "op \<noteq> Revoke token" "\<not> issues token op" by blast
  then show ?l
  proof cases
    case 1
    then show ?thesis unfolding bound_to_def by (intro exI [of _ ops] exI [of _ uuid] exI [of _ sid] exI [of _ "[]"]) simp
  next
    case 2
    then obtain before uuid sid after where "ops = before @ Issue uuid sid (Some peer) # after"
      "session_token uuid = token" "\<forall>op\<in>set after. op \<noteq> Revoke token \<and> \<not> issues token op"
      unfolding bound_to_def by blast
    with 2 show ?thesis unfolding bound_to_def
      by (intro exI [of _ before] exI [of _ uuid] exI [of _ sid] exI [of _ "after @ [op]"]) auto
  qed
qed

lemma verify_step:
  "verify_peer_cgroup token peer (broker_step op b) = Inr () \<longleftrightarrow>
     (\<exists>uuid sid. op = Issue uuid sid (Some peer) \<and> session_token uuid = token) \<or>
     verify_peer_cgroup token peer b = Inr () \<and> op \<noteq> Revoke token \<and> \<not> issues token op"
  by (cases op)
    (auto simp: verify_peer_cgroup_def issue_session_bound_def revoke_session_def record_bytes_def Let_def issues_def
      split: option.splits if_splits)

text \<open>
  A token is good only for the cgroup it was issued to: from a new broker, after any operations,
  \<^verbatim>\<open>verify_peer_cgroup\<close> accepts a peer exactly when the token's last issue bound that very cgroup and no
  revocation followed; an unbound or unknown session verifies nobody.
\<close>
theorem peer_verification_exact:
  "verify_peer_cgroup token peer (fold broker_step ops broker_new) = Inr () \<longleftrightarrow> bound_to token peer ops"
proof (induction ops rule: rev_induct)
  case Nil
  then show ?case by (simp add: verify_peer_cgroup_def broker_new_def bound_to_def)
next
  case (snoc op ops)
  then show ?case by (simp add: verify_step bound_to_snoc)
qed

end
