(* ===== verification/Egress.thy ===== *)
theory Egress
  imports Broker
begin

text \<open>
  The egress proxy (\<^verbatim>\<open>aivisor-broker/src/egress.rs\<close>): host and method allowlists, the request reader, DNS
  pinning with the metadata block, credential injection, and the relays that charge the session's budget.

  The network is an argument: what the client sends, what a name resolves to, which connections and
  writes succeed and how far, and what the origin answers. Other connections use the same session table,
  so every call into the broker is preceded by an arbitrary list of their operations. Refusals carry the
  fixed part of their message.
\<close>

section \<open>Routes\<close>

record Route =
  hosts :: "string list"
  methods :: "string list"

definition matches_pattern :: "string \<Rightarrow> string \<Rightarrow> bool" where
  "matches_pattern host pattern =
     (case strip_prefix pattern ''*.'' of
        Some suffix \<Rightarrow>
          length host > length suffix \<and> ends_with host suffix \<and>
          host ! (length host - length suffix - 1) = CHR ''.''
      | None \<Rightarrow> host = pattern)"

definition matches_host :: "Route \<Rightarrow> string \<Rightarrow> bool" where
  "matches_host r host =
     (let host = to_ascii_lowercase host
      in list_ex (\<lambda>pattern. matches_pattern host (to_ascii_lowercase pattern)) (hosts r))"

definition allows_method :: "Route \<Rightarrow> string \<Rightarrow> bool" where
  "allows_method r m = list_ex (\<lambda>x. eq_ignore_ascii_case x m) (methods r)"

type_synonym secret_provider = "string \<Rightarrow> (string \<times> string) option"

type_synonym StaticSecrets = "string \<rightharpoonup> string \<times> string"

definition secrets_insert :: "string \<Rightarrow> string \<Rightarrow> string \<Rightarrow> StaticSecrets \<Rightarrow> StaticSecrets" where
  "secrets_insert host hdr value s = s(to_ascii_lowercase host \<mapsto> (hdr, value))"

definition header_for :: "StaticSecrets \<Rightarrow> secret_provider" where
  "header_for s host = s (to_ascii_lowercase host)"

record EgressPolicy =
  routes :: "Route list"
  max_request_bytes :: u64
  secrets :: secret_provider

definition route_for :: "EgressPolicy \<Rightarrow> string \<Rightarrow> Route option" where
  "route_for p host = List.find (\<lambda>r. matches_host r host) (routes p)"

definition permits_host :: "EgressPolicy \<Rightarrow> string \<Rightarrow> bool" where
  "permits_host p host \<longleftrightarrow> route_for p host \<noteq> None"

section \<open>Refusals\<close>

datatype Refusal =
    BadRequest string
  | Unauthorized string
  | Forbidden string
  | TooLarge string
  | Upstream string

fun refusal_status :: "Refusal \<Rightarrow> nat \<times> string" where
  "refusal_status (BadRequest _) = (400, ''Bad Request'')"
| "refusal_status (Unauthorized _) = (407, ''Proxy Authentication Required'')"
| "refusal_status (Forbidden _) = (403, ''Forbidden'')"
| "refusal_status (TooLarge _) = (413, ''Payload Too Large'')"
| "refusal_status (Upstream _) = (502, ''Bad Gateway'')"

fun refusal_detail :: "Refusal \<Rightarrow> string" where
  "refusal_detail (BadRequest m) = m"
| "refusal_detail (Unauthorized m) = m"
| "refusal_detail (Forbidden m) = m"
| "refusal_detail (TooLarge m) = m"
| "refusal_detail (Upstream m) = m"

section \<open>Reading a request\<close>

definition MAX_HEADER_BYTES :: nat where "MAX_HEADER_BYTES = 64 * 1024"

text \<open>The client's side of the connection: the bytes it will send, then an end of file or an error.\<close>

record input =
  in_bytes :: string
  in_fails :: bool

text \<open>\<^verbatim>\<open>read_line\<close> fails on bytes that are not UTF-8, as \<^verbatim>\<open>str::from_utf8\<close> decides.\<close>

fun utf8_codes :: "nat list \<Rightarrow> bool" where
  "utf8_codes [] = True"
| "utf8_codes (a # s) =
     (let cont = (\<lambda>x. 0x80 \<le> x \<and> x \<le> 0xBF)
      in if a < 0x80 then utf8_codes s
         else if 0xC2 \<le> a \<and> a \<le> 0xDF then (case s of b # s \<Rightarrow> cont b \<and> utf8_codes s | _ \<Rightarrow> False)
         else if 0xE0 \<le> a \<and> a \<le> 0xEF then
           (case s of b # c # s \<Rightarrow> cont b \<and> cont c \<and> (a = 0xE0 \<longrightarrow> 0xA0 \<le> b) \<and> (a = 0xED \<longrightarrow> b \<le> 0x9F) \<and> utf8_codes s
            | _ \<Rightarrow> False)
         else if 0xF0 \<le> a \<and> a \<le> 0xF4 then
           (case s of b # c # d # s \<Rightarrow>
               cont b \<and> cont c \<and> cont d \<and> (a = 0xF0 \<longrightarrow> 0x90 \<le> b) \<and> (a = 0xF4 \<longrightarrow> b \<le> 0x8F) \<and> utf8_codes s
            | _ \<Rightarrow> False)
         else False)"

definition utf8_valid :: "string \<Rightarrow> bool" where
  "utf8_valid s = utf8_codes (map of_char s)"

definition read_line :: "input \<Rightarrow> Refusal + string \<times> input" where
  "read_line i =
     (if char_lf \<in> set (in_bytes i) then
        (let line = takeWhile (\<lambda>c. c \<noteq> char_lf) (in_bytes i) @ [char_lf]
         in if utf8_valid line then Inr (line, i\<lparr>in_bytes := drop (length line) (in_bytes i)\<rparr>)
            else Inl (BadRequest ''read''))
      else if in_fails i \<or> \<not> utf8_valid (in_bytes i) then Inl (BadRequest ''read'')
      else if in_bytes i = [] then Inl (BadRequest ''connection closed mid-request'')
      else Inr (in_bytes i, i\<lparr>in_bytes := []\<rparr>))"

text \<open>The closure of \<^verbatim>\<open>read_request\<close>: one line, counted against the bound on the head.\<close>

definition head_line :: "nat \<Rightarrow> input \<Rightarrow> Refusal + string \<times> nat \<times> input" where
  "head_line consumed i =
     rbind (read_line i) (\<lambda>(line, i).
       let consumed = consumed + length line
       in if consumed > MAX_HEADER_BYTES then Inl (TooLarge ''request head exceeded 65536 bytes'')
          else Inr (line, consumed, i))"

definition trim_end_crlf :: "string \<Rightarrow> string" where
  "trim_end_crlf s = rev (dropWhile (\<lambda>c. c = char_cr \<or> c = char_lf) (rev s))"

lemma read_line_shrinks:
  "read_line i = Inr (line, i') \<Longrightarrow> length (in_bytes i') < length (in_bytes i)"
  by (auto simp: read_line_def Let_def split: if_splits)
     (metis length_greater_0_conv length_pos_if_in_set zero_less_Suc diff_less)

lemma head_line_shrinks:
  "head_line k i = Inr (line, k', i') \<Longrightarrow> length (in_bytes i') < length (in_bytes i)"
  by (auto simp: head_line_def rbind_Inr_iff Let_def read_line_shrinks split: if_splits)

function read_headers :: "nat \<Rightarrow> input \<Rightarrow> Refusal + (string \<times> string) list \<times> input" where
  "read_headers consumed i =
     (case head_line consumed i of
        Inl r \<Rightarrow> Inl r
      | Inr (line, consumed', i') \<Rightarrow>
          (let trimmed = trim_end_crlf line
           in if trimmed = [] then Inr ([], i')
              else case split_once CHR '':'' trimmed of
                     None \<Rightarrow> Inl (BadRequest ''malformed header'')
                   | Some (name, value) \<Rightarrow>
                       rbind (read_headers consumed' i') (\<lambda>(hs, i''). Inr ((trim name, trim value) # hs, i''))))"
  by pat_completeness auto
termination
  by (relation "measure (\<lambda>(_, i). length (in_bytes i))") (auto dest: head_line_shrinks)

declare read_headers.simps [simp del]

record Request =
  req_method :: string
  req_target :: string
  req_headers :: "(string \<times> string) list"

definition req_header :: "Request \<Rightarrow> string \<Rightarrow> string option" where
  "req_header r name = map_option snd (List.find (\<lambda>(k, _). eq_ignore_ascii_case k name) (req_headers r))"

definition read_request :: "input \<Rightarrow> Refusal + Request \<times> input" where
  "read_request i =
     rbind (head_line 0 i) (\<lambda>(line, consumed, i).
       case split_whitespace line of
         m # t # _ \<Rightarrow>
           rbind (read_headers consumed i) (\<lambda>(hs, i).
             Inr (\<lparr>req_method = m, req_target = t, req_headers = hs\<rparr>, i))
       | _ \<Rightarrow> Inl (BadRequest ''malformed request line''))"

definition split_authority :: "string \<Rightarrow> u16 \<Rightarrow> Refusal + string \<times> u16" where
  "split_authority authority default_port =
     (case strip_prefix authority ''['' of
        Some rest \<Rightarrow>
          rbind (ok_or (BadRequest ''malformed IPv6 authority'') (split_once CHR '']'' rest)) (\<lambda>(host, tail).
            rbind (case strip_prefix tail '':'' of
                     Some p \<Rightarrow> ok_or (BadRequest ''bad port'') (map_option of_nat (parse_uint 16 p))
                   | None \<Rightarrow> Inr default_port) (\<lambda>port. Inr (host, port)))
      | None \<Rightarrow>
          (case rsplit_once CHR '':'' authority of
             Some (host, port) \<Rightarrow>
               rbind (ok_or (BadRequest ''bad port'') (map_option of_nat (parse_uint 16 port))) (\<lambda>port. Inr (host, port))
           | None \<Rightarrow> Inr (authority, default_port)))"

section \<open>Resolution\<close>

datatype IpAddr = V4 u32 | V6 "128 word"

type_synonym sock_addr = "IpAddr \<times> u16"

text \<open>169.254.169.254, 168.63.129.16 and fd00:ec2::254.\<close>

definition METADATA_IPS :: "IpAddr list" where
  "METADATA_IPS = [V4 0xA9FEA9FE, V4 0xA83F8110, V6 0xFD000EC2000000000000000000000254]"

text \<open>How a write ends: all of it went out, or it failed after some bytes.\<close>

type_synonym write_outcome = "nat option"

definition write_all :: "write_outcome \<Rightarrow> string \<Rightarrow> string \<times> bool" where
  "write_all w s = (case w of None \<Rightarrow> (s, True) | Some k \<Rightarrow> (take k s, False))"

datatype direction = ToOrigin | ToClient

record network =
  resolve :: "string \<Rightarrow> u16 \<Rightarrow> sock_addr list option"
  connects :: "sock_addr \<Rightarrow> bool"
  head_write :: write_outcome
  body_write :: write_outcome
  established_write :: write_outcome
  clones_ok :: bool
  traffic :: "(direction \<times> string \<times> write_outcome) list"

definition resolve_pinned :: "network \<Rightarrow> string \<Rightarrow> u16 \<Rightarrow> Refusal + sock_addr" where
  "resolve_pinned E host port =
     (case resolve E host port of
        None \<Rightarrow> Inl (Upstream ''resolve'')
      | Some addrs \<Rightarrow>
          if list_ex (\<lambda>a. List.member METADATA_IPS (fst a)) addrs
          then Inl (Forbidden ''resolves to cloud metadata address - always blocked'')
          else case addrs of [] \<Rightarrow> Inl (Upstream ''resolved to no addresses'') | a # _ \<Rightarrow> Inr a)"

section \<open>Serving a connection\<close>

text \<open>
  The state of one connection: the session table, what the other threads do to it before each of this
  connection's calls, those calls, the bytes charged here, the addresses dialled, and the bytes sent to the origin and
  to the client.
\<close>

datatype call = Look string | Charge string u64

record conn =
  brk :: Broker
  others :: "broker_op list list"
  calls :: "call list"
  charged :: nat
  dialed :: "sock_addr list"
  up_out :: string
  cl_out :: string

text \<open>The lock of the session table is taken for a call: the others had it before.\<close>

definition lock_broker :: "call \<Rightarrow> conn \<Rightarrow> conn" where
  "lock_broker a c =
     (case others c of
        [] \<Rightarrow> c\<lparr>calls := calls c @ [a]\<rparr>
      | ops # rest \<Rightarrow> c\<lparr>brk := fold broker_step ops (brk c), others := rest, calls := calls c @ [a]\<rparr>)"

definition conn_record_bytes :: "string \<Rightarrow> u64 \<Rightarrow> conn \<Rightarrow> (error + unit) \<times> conn" where
  "conn_record_bytes token n c =
     (let c = lock_broker (Charge token n) c
      in case record_bytes token n (brk c) of
           (Inl e, b) \<Rightarrow> (Inl e, c\<lparr>brk := b\<rparr>)
         | (Inr _, b) \<Rightarrow> (Inr (), c\<lparr>brk := b, charged := charged c + unat n\<rparr>))"

definition charge :: "string \<Rightarrow> u64 \<Rightarrow> conn \<Rightarrow> (Refusal + unit) \<times> conn" where
  "charge token n c =
     (case conn_record_bytes token n c of
        (Inl _, c) \<Rightarrow> (Inl (Forbidden ''egress budget''), c)
      | (Inr _, c) \<Rightarrow> (Inr (), c))"

definition PUMP_BUF :: nat where "PUMP_BUF = 16 * 1024"

definition send_to :: "direction \<Rightarrow> string \<Rightarrow> conn \<Rightarrow> conn" where
  "send_to d s c = (case d of ToOrigin \<Rightarrow> c\<lparr>up_out := up_out c @ s\<rparr> | ToClient \<Rightarrow> c\<lparr>cl_out := cl_out c @ s\<rparr>)"

text \<open>One turn of the loop of \<^verbatim>\<open>pump\<close>: a read (empty at the end of the stream or on an error), the charge, the
  write. The result says whether the loop goes on.\<close>

definition pump_step :: "string \<Rightarrow> direction \<Rightarrow> string \<Rightarrow> write_outcome \<Rightarrow> conn \<Rightarrow> bool \<times> conn" where
  "pump_step token d chunk w c =
     (let data = take PUMP_BUF chunk
      in if data = [] then (False, c)
         else case conn_record_bytes token (of_nat (length data)) c of
                (Inl _, c) \<Rightarrow> (False, c)
              | (Inr _, c) \<Rightarrow> (let (sent, ok) = write_all w data in (ok, send_to d sent c)))"

text \<open>The pumps that are open run interleaved, in the order of the traffic they read.\<close>

fun pumps :: "string \<Rightarrow> (direction \<times> string \<times> write_outcome) list \<Rightarrow> (direction \<Rightarrow> bool) \<Rightarrow> conn \<Rightarrow> conn" where
  "pumps token [] open c = c"
| "pumps token ((d, chunk, w) # evs) open c =
     (if open d then
        (let (go, c) = pump_step token d chunk w c in pumps token evs (open(d := go)) c)
      else pumps token evs open c)"

definition relay :: "network \<Rightarrow> string \<Rightarrow> conn \<Rightarrow> conn" where
  "relay E token c = pumps token (traffic E) (\<lambda>d. d = ToClient) c"

definition HOP_BY_HOP :: "string list" where
  "HOP_BY_HOP =
     [''connection'', ''proxy-authorization'', ''proxy-connection'', ''keep-alive'', ''te'', ''trailer'',
      ''transfer-encoding'', ''upgrade'']"

definition crlf :: string where "crlf = [char_cr, char_lf]"

definition header_text :: "string \<times> string \<Rightarrow> string" where
  "header_text h = fst h @ '': '' @ snd h @ crlf"

definition forwarded_headers :: "Request \<Rightarrow> (string \<times> string) list" where
  "forwarded_headers req =
     filter (\<lambda>(name, _). \<not> list_ex (\<lambda>h. eq_ignore_ascii_case name h) HOP_BY_HOP \<and> \<not> eq_ignore_ascii_case name ''host'')
       (req_headers req)"

definition plain_head :: "secret_provider \<Rightarrow> Request \<Rightarrow> string \<Rightarrow> string \<Rightarrow> string \<Rightarrow> string" where
  "plain_head sp req authority host path =
     req_method req @ '' '' @ path @ '' HTTP/1.1'' @ crlf @
     concat (map header_text (forwarded_headers req)) @
     header_text (''Host'', authority) @
     (case sp host of None \<Rightarrow> [] | Some h \<Rightarrow> header_text h) @
     header_text (''Connection'', ''close'') @ crlf"

text \<open>The checks of \<^verbatim>\<open>serve_plain\<close> up to the resolved address: authority, host, path, body length, address.\<close>

record plain_plan =
  pp_authority :: string
  pp_host :: string
  pp_path :: string
  pp_body_len :: u64
  pp_addr :: sock_addr

definition plain_target :: "string \<Rightarrow> Refusal + string \<times> string" where
  "plain_target t =
     rbind (ok_or (BadRequest ''expected an absolute http:// target'') (strip_prefix t ''http://'')) (\<lambda>rest.
       Inr (if CHR ''/'' \<in> set rest
            then (takeWhile (\<lambda>c. c \<noteq> CHR ''/'') rest, dropWhile (\<lambda>c. c \<noteq> CHR ''/'') rest)
            else (rest, ''/'')))"

definition content_length :: "Request \<Rightarrow> Refusal + u64" where
  "content_length req =
     (case req_header req ''content-length'' of
        Some v \<Rightarrow> ok_or (BadRequest ''bad Content-Length'') (map_option of_nat (parse_uint 64 v))
      | None \<Rightarrow> Inr 0)"

definition authorize_plain :: "EgressPolicy \<Rightarrow> network \<Rightarrow> Request \<Rightarrow> Refusal + plain_plan" where
  "authorize_plain policy E req =
     rbind (plain_target (req_target req)) (\<lambda>(authority, path).
     rbind (split_authority authority 80) (\<lambda>(host, port).
     rbind (ok_or (Forbidden ''no egress route permits host'') (route_for policy host)) (\<lambda>route.
       if \<not> allows_method route (req_method req) then Inl (Forbidden ''method is not permitted'')
       else if req_header req ''transfer-encoding'' \<noteq> None then Inl (BadRequest ''Transfer-Encoding is not supported'')
       else rbind (content_length req) (\<lambda>body_len.
         if body_len > max_request_bytes policy then Inl (TooLarge ''request body exceeds the byte limit'')
         else rbind (resolve_pinned E host port) (\<lambda>addr.
           Inr \<lparr>pp_authority = authority, pp_host = host, pp_path = path, pp_body_len = body_len, pp_addr = addr\<rparr>)))))"

definition send_body :: "network \<Rightarrow> input \<Rightarrow> string \<Rightarrow> u64 \<Rightarrow> conn \<Rightarrow> (Refusal + unit) \<times> conn" where
  "send_body E i token body_len c =
     (if body_len = 0 then (Inr (), c)
      else if length (in_bytes i) < unat body_len then (Inl (BadRequest ''read body''), c)
      else case charge token body_len c of
             (Inl r, c) \<Rightarrow> (Inl r, c)
           | (Inr _, c) \<Rightarrow>
               (let (sent, ok) = write_all (body_write E) (take (unat body_len) (in_bytes i));
                    c = send_to ToOrigin sent c
                in (if ok then Inr () else Inl (Upstream ''write body''), c)))"

definition serve_plain ::
    "EgressPolicy \<Rightarrow> network \<Rightarrow> Request \<Rightarrow> input \<Rightarrow> string \<Rightarrow> conn \<Rightarrow> (Refusal + unit) \<times> conn" where
  "serve_plain policy E req i token c =
     (case authorize_plain policy E req of
        Inl r \<Rightarrow> (Inl r, c)
      | Inr p \<Rightarrow>
          (let c = c\<lparr>dialed := dialed c @ [pp_addr p]\<rparr>
           in if \<not> connects E (pp_addr p) then (Inl (Upstream ''connect''), c)
              else let head = plain_head (secrets policy) req (pp_authority p) (pp_host p) (pp_path p)
                   in case charge token (of_nat (length head)) c of
                        (Inl r, c) \<Rightarrow> (Inl r, c)
                      | (Inr _, c) \<Rightarrow>
                          (let (sent, ok) = write_all (head_write E) head;
                               c = send_to ToOrigin sent c
                           in if \<not> ok then (Inl (Upstream ''write head''), c)
                              else case send_body E i token (pp_body_len p) c of
                                     (Inl r, c) \<Rightarrow> (Inl r, c)
                                   | (Inr _, c) \<Rightarrow> (Inr (), relay E token c))))"

definition connect_established :: string where
  "connect_established = ''HTTP/1.1 200 Connection Established'' @ crlf @ crlf"

definition serve_connect ::
    "EgressPolicy \<Rightarrow> network \<Rightarrow> Request \<Rightarrow> string \<Rightarrow> conn \<Rightarrow> (Refusal + unit) \<times> conn" where
  "serve_connect policy E req token c =
     (case split_authority (req_target req) 443 of
        Inl r \<Rightarrow> (Inl r, c)
      | Inr (host, port) \<Rightarrow>
          if route_for policy host = None then (Inl (Forbidden ''no egress route permits host''), c)
          else case resolve_pinned E host port of
                 Inl r \<Rightarrow> (Inl r, c)
               | Inr addr \<Rightarrow>
                   (let c = c\<lparr>dialed := dialed c @ [addr]\<rparr>
                    in if \<not> connects E addr then (Inl (Upstream ''connect''), c)
                       else let (sent, ok) = write_all (established_write E) connect_established;
                                c = send_to ToClient sent c
                            in if \<not> ok then (Inl (Upstream ''write CONNECT response''), c)
                               else if \<not> clones_ok E then (Inl (Upstream ''clone''), c)
                               else (Inr (), pumps token (traffic E) (\<lambda>_. True) c)))"

definition session_token_of :: "Request \<Rightarrow> string option" where
  "session_token_of req =
     map_option trim (Option.bind (req_header req ''proxy-authorization'') (\<lambda>v. strip_prefix v ''Bearer ''))"

definition serve_request ::
    "EgressPolicy \<Rightarrow> network \<Rightarrow> input \<Rightarrow> conn \<Rightarrow> (Refusal + unit) \<times> conn" where
  "serve_request policy E i c =
     (case read_request i of
        Inl r \<Rightarrow> (Inl r, c)
      | Inr (req, i) \<Rightarrow>
          (case session_token_of req of
             None \<Rightarrow> (Inl (Unauthorized ''missing Proxy-Authorization: Bearer <session token>''), c)
           | Some token \<Rightarrow>
               (let c = lock_broker (Look token) c
                in if remaining_budget token (brk c) = None then (Inl (Unauthorized ''unknown session token''), c)
                   else if eq_ignore_ascii_case (req_method req) ''CONNECT''
                   then serve_connect policy E req token c
                   else serve_plain policy E req i token c)))"

definition handle_connection :: "EgressPolicy \<Rightarrow> network \<Rightarrow> input \<Rightarrow> conn \<Rightarrow> conn" where
  "handle_connection policy E i c =
     (case serve_request policy E i c of
        (Inr _, c) \<Rightarrow> c
      | (Inl refusal, c) \<Rightarrow>
          (let (code, reason) = refusal_status refusal;
               body = ''aivisor-broker: '' @ refusal_detail refusal @ [char_lf]
           in send_to ToClient
                (''HTTP/1.1 '' @ show_uint code @ '' '' @ reason @ crlf @
                 header_text (''Content-Length'', show_uint (length body)) @
                 header_text (''Content-Type'', ''text/plain'') @
                 header_text (''Connection'', ''close'') @ crlf @ body) c))"

end
