(* ===== verification/Egress_Safe.thy ===== *)
theory Egress_Safe
  imports Egress
begin

text \<open>
  What the egress proxy guarantees, over every network behaviour and every interference of other connections:
  host patterns match at label boundaries, an address is dialled only for an authorised request, the bytes
  that leave were charged first, and what the sandbox sees does not depend on the injected credential.
\<close>

section \<open>Host patterns\<close>

lemma ascii_lower_char_fix:
  assumes "c = CHR ''*'' \<or> c = CHR ''.''"
  shows "ascii_lower_char x = c \<longleftrightarrow> x = c"
proof
  assume x: "ascii_lower_char x = c"
  show "x = c"
  proof (cases "(65::nat) \<le> of_char x \<and> of_char x \<le> (90::nat)")
    case True
    then have "(of_char (ascii_lower_char x) :: nat) = of_char x + 32" by (simp add: ascii_lower_char_def of_char_of)
    with x assms True show ?thesis by auto
  next
    case False
    with x show ?thesis by (simp add: ascii_lower_char_def split: if_splits)
  qed
qed (use assms in \<open>auto simp: ascii_lower_char_def\<close>)

lemma strip_wildcard_lower:
  "strip_prefix (to_ascii_lowercase p) ''*.'' = map_option to_ascii_lowercase (strip_prefix p ''*.'')"
proof (cases p)
  case (Cons a q)
  then show ?thesis
    by (cases q) (auto simp: strip_prefix_def starts_with_def to_ascii_lowercase_def ascii_lower_char_fix)
qed (simp add: strip_prefix_def starts_with_def to_ascii_lowercase_def)

lemma wildcard_iff:
  "length h > length s \<and> ends_with h s \<and> h ! (length h - length s - 1) = CHR ''.'' \<longleftrightarrow> (\<exists>l. h = l @ CHR ''.'' # s)"
proof
  assume a: "length h > length s \<and> ends_with h s \<and> h ! (length h - length s - 1) = CHR ''.''"
  then obtain r where r: "h = r @ s" by (auto simp: ends_with_iff)
  with a have "r \<noteq> []" by auto
  then obtain l x where "r = l @ [x]" by (metis rev_exhaust)
  with a r show "\<exists>l. h = l @ CHR ''.'' # s" by (auto simp: nth_append)
next
  assume "\<exists>l. h = l @ CHR ''.'' # s"
  then obtain l where "h = (l @ ''.'') @ s" by auto
  then show "length h > length s \<and> ends_with h s \<and> h ! (length h - length s - 1) = CHR ''.''"
    by (simp add: nth_append del: append_assoc)
qed

lemma matches_pattern_lower:
  "matches_pattern (to_ascii_lowercase host) (to_ascii_lowercase p) =
     (case strip_prefix p ''*.'' of
        Some suffix \<Rightarrow> (\<exists>l. to_ascii_lowercase host = l @ ''.'' @ to_ascii_lowercase suffix)
      | None \<Rightarrow> eq_ignore_ascii_case host p)"
proof (cases "strip_prefix p ''*.''")
  case (Some suffix)
  then show ?thesis
    using wildcard_iff [of "to_ascii_lowercase suffix" "to_ascii_lowercase host"]
    by (simp add: matches_pattern_def strip_wildcard_lower)
qed (simp add: matches_pattern_def strip_wildcard_lower eq_ignore_ascii_case_def)

text \<open>
  A route matches a host exactly when, up to ASCII case, the host is one of its exact names or ends in a
  dot followed by the suffix of one of its wildcards. So neither the bare apex nor a name that merely ends in
  the same letters satisfies a wildcard.
\<close>
theorem route_match_exact:
  "matches_host r host \<longleftrightarrow>
     (\<exists>p\<in>set (hosts r).
        case strip_prefix p ''*.'' of
          Some suffix \<Rightarrow> (\<exists>l. to_ascii_lowercase host = l @ ''.'' @ to_ascii_lowercase suffix)
        | None \<Rightarrow> eq_ignore_ascii_case host p)"
  by (simp add: matches_host_def list_ex_iff matches_pattern_lower Let_def)

section \<open>What is dialled\<close>

lemma lock_broker_keeps [simp]:
  "dialed (lock_broker a c) = dialed c" "up_out (lock_broker a c) = up_out c" "cl_out (lock_broker a c) = cl_out c"
  "charged (lock_broker a c) = charged c"
  by (auto simp: lock_broker_def split: list.split)

lemma send_to_keeps [simp]:
  "dialed (send_to d s c) = dialed c" "charged (send_to d s c) = charged c" "brk (send_to d s c) = brk c"
  by (cases d; simp add: send_to_def)+

lemma conn_record_bytes_keeps:
  "conn_record_bytes token n c = (r, c') \<Longrightarrow>
     dialed c' = dialed c \<and> up_out c' = up_out c \<and> cl_out c' = cl_out c \<and>
     charged c' = charged c + (if isl r then 0 else unat n)"
  by (auto simp: conn_record_bytes_def Let_def split: prod.splits sum.splits)

lemma charge_keeps:
  "charge token n c = (r, c') \<Longrightarrow>
     dialed c' = dialed c \<and> up_out c' = up_out c \<and> cl_out c' = cl_out c \<and>
     charged c' = charged c + (if isl r then 0 else unat n)"
  by (auto simp: charge_def split: prod.splits sum.splits dest: conn_record_bytes_keeps)

lemma pump_step_dialed: "pump_step token d chunk w c = (go, c') \<Longrightarrow> dialed c' = dialed c"
  by (auto simp: pump_step_def Let_def split: prod.splits sum.splits if_splits dest: conn_record_bytes_keeps)

lemma pumps_dialed [simp]: "dialed (pumps token evs op c) = dialed c"
proof (induction evs arbitrary: op c)
  case (Cons ev evs)
  obtain d chunk w where "ev = (d, chunk, w)" by (metis prod_cases3)
  then show ?case using Cons by (auto split: prod.splits dest: pump_step_dialed)
qed simp

lemma send_body_dialed: "send_body E i token n c = (r, c') \<Longrightarrow> dialed c' = dialed c"
  by (auto simp: send_body_def Let_def split: prod.splits sum.splits if_splits dest: charge_keeps)

text \<open>The address a resolved name gives, when none of the answers is a metadata address.\<close>

definition safe_resolution :: "network \<Rightarrow> string \<Rightarrow> u16 \<Rightarrow> sock_addr \<Rightarrow> bool" where
  "safe_resolution E host port addr \<longleftrightarrow>
     (\<exists>more. resolve E host port = Some (addr # more) \<and> (\<forall>a\<in>set (addr # more). fst a \<notin> set METADATA_IPS))"

lemma resolve_pinned_iff: "resolve_pinned E host port = Inr addr \<longleftrightarrow> safe_resolution E host port addr"
  by (auto simp: resolve_pinned_def safe_resolution_def list_ex_iff split: option.splits list.splits if_splits)

definition plain_ok :: "EgressPolicy \<Rightarrow> network \<Rightarrow> Request \<Rightarrow> plain_plan \<Rightarrow> bool" where
  "plain_ok policy E req p \<longleftrightarrow>
     (\<exists>port route. plain_target (req_target req) = Inr (pp_authority p, pp_path p) \<and>
        split_authority (pp_authority p) 80 = Inr (pp_host p, port) \<and>
        route_for policy (pp_host p) = Some route \<and> allows_method route (req_method req) \<and>
        req_header req ''transfer-encoding'' = None \<and> content_length req = Inr (pp_body_len p) \<and>
        pp_body_len p \<le> max_request_bytes policy \<and> safe_resolution E (pp_host p) port (pp_addr p))"

lemma authorize_plain_iff: "authorize_plain policy E req = Inr p \<longleftrightarrow> plain_ok policy E req p"
  by (cases p)
    (auto simp: authorize_plain_def plain_ok_def rbind_Inr_iff resolve_pinned_iff not_less split: if_splits; blast)

lemma serve_plain_dialed:
  "dialed (snd (serve_plain policy E req i token c)) =
     (case authorize_plain policy E req of Inl _ \<Rightarrow> dialed c | Inr p \<Rightarrow> dialed c @ [pp_addr p])"
  by (auto simp: serve_plain_def Let_def relay_def split: sum.splits prod.splits if_splits
      dest!: charge_keeps send_body_dialed)

lemma serve_connect_dialed:
  "dialed (snd (serve_connect policy E req token c)) = dialed c \<or>
   (\<exists>host port addr. split_authority (req_target req) 443 = Inr (host, port) \<and> permits_host policy host \<and>
      safe_resolution E host port addr \<and> dialed (snd (serve_connect policy E req token c)) = dialed c @ [addr])"
  by (auto simp: serve_connect_def Let_def permits_host_def resolve_pinned_iff [symmetric]
      split: sum.splits prod.splits if_splits)

text \<open>
  C7. The proxy dials at most one address per connection, and only for an authorised request. If it dials, the
  head was read within its bound, the request carried a session token that is live at that moment, a route of the
  policy covers the host the address was resolved for, no answer of that resolution is a cloud metadata
  address, and the address is its first answer. For a plain request the method is on that route's list, there
  is no transfer coding, and the declared body is within the limit.
\<close>
theorem egress_confined:
  assumes "serve_request policy E i c = (r, c')" and "dialed c' \<noteq> dialed c"
  shows "\<exists>req rest token addr. read_request i = Inr (req, rest) \<and> session_token_of req = Some token \<and>
    brk (lock_broker (Look token) c) token \<noteq> None \<and> dialed c' = dialed c @ [addr] \<and>
    (if eq_ignore_ascii_case (req_method req) ''CONNECT''
     then \<exists>host port. split_authority (req_target req) 443 = Inr (host, port) \<and> permits_host policy host \<and>
            safe_resolution E host port addr
     else \<exists>p. plain_ok policy E req p \<and> pp_addr p = addr)"
proof -
  obtain req rest token where rq: "read_request i = Inr (req, rest)" "session_token_of req = Some token"
      "remaining_budget token (brk (lock_broker (Look token) c)) \<noteq> None"
    using assms by (fastforce simp: serve_request_def Let_def split: sum.splits option.splits if_splits)
  have live: "brk (lock_broker (Look token) c) token \<noteq> None" using rq(3) by (auto simp: remaining_budget_def)
  show ?thesis
  proof (cases "eq_ignore_ascii_case (req_method req) ''CONNECT''")
    case True
    then have "c' = snd (serve_connect policy E req token (lock_broker (Look token) c))"
      using assms(1) rq by (auto simp: serve_request_def Let_def split: if_splits)
    then show ?thesis
      using serve_connect_dialed [of policy E req token "lock_broker (Look token) c"] assms(2) rq(1,2) live True by auto
  next
    case False
    then have "c' = snd (serve_plain policy E req rest token (lock_broker (Look token) c))"
      using assms(1) rq by (auto simp: serve_request_def Let_def split: if_splits)
    then obtain p where "authorize_plain policy E req = Inr p" "dialed c' = dialed c @ [pp_addr p]"
      using serve_plain_dialed [of policy E req rest token "lock_broker (Look token) c"] assms(2) by (auto split: sum.splits)
    then show ?thesis using rq(1,2) live False by (auto simp: authorize_plain_iff)
  qed
qed

section \<open>Bytes are charged before they leave\<close>

lemma split_ws_acc_length: "sum_list (map length (split_ws_acc cur s)) \<le> length cur + length s"
proof (induction cur s rule: split_ws_acc.induct)
  case (2 cur c s)
  then show ?case by (cases "is_ws c"; cases "cur = []") auto
qed simp

lemma takeWhile_dropWhile_length: "length (takeWhile P s) + length (dropWhile P s) = length s"
  by (metis length_append takeWhile_dropWhile_id)

lemma trim_length: "length (trim s) \<le> length s"
proof -
  have "length (dropWhile is_ws (rev (dropWhile is_ws s))) \<le> length (dropWhile is_ws s)"
    by (metis length_dropWhile_le length_rev)
  then show ?thesis using length_dropWhile_le [of is_ws s] by (simp add: trim_def)
qed

lemma trim_end_crlf_length: "length (trim_end_crlf s) \<le> length s"
  by (metis length_dropWhile_le length_rev trim_end_crlf_def)

lemma head_line_bound:
  "head_line k i = Inr (line, k', i') \<Longrightarrow> k' = k + length line \<and> k' \<le> MAX_HEADER_BYTES"
  by (auto simp: head_line_def rbind_Inr_iff Let_def split: if_splits)

definition headers_size :: "(string \<times> string) list \<Rightarrow> nat" where
  "headers_size hs = sum_list (map (\<lambda>(n, v). length n + length v + 1) hs)"

lemma read_headers_bound:
  "read_headers k i = Inr (hs, i') \<Longrightarrow> k \<le> MAX_HEADER_BYTES \<Longrightarrow> k + headers_size hs \<le> MAX_HEADER_BYTES"
proof (induction k i arbitrary: hs i' rule: read_headers.induct)
  case (1 k i)
  from 1(2) obtain line k1 i1 where hl: "head_line k i = Inr (line, k1, i1)"
    by (subst (asm) read_headers.simps) (auto split: sum.splits)
  note b = head_line_bound [OF hl]
  show ?case
  proof (cases "trim_end_crlf line = []")
    case True
    then show ?thesis using 1(2,3) hl by (subst (asm) read_headers.simps) (simp add: headers_size_def)
  next
    case False
    then obtain n v rest where nv: "split_once CHR '':'' (trim_end_crlf line) = Some (n, v)"
        and rec: "read_headers k1 i1 = Inr (rest, i')" and hs: "hs = (trim n, trim v) # rest"
      using 1(2) hl by (subst (asm) read_headers.simps) (auto simp: rbind_Inr_iff Let_def split: option.splits)
    have "k1 + headers_size rest \<le> MAX_HEADER_BYTES"
      using 1(1) [OF hl refl refl refl False nv refl rec] b by simp
    moreover have "length (trim n) + length (trim v) + 1 \<le> length line"
      using nv trim_length [of n] trim_length [of v] trim_end_crlf_length [of line] by (simp add: split_once_Some_iff)
    ultimately show ?thesis using b by (simp add: hs headers_size_def)
  qed
qed

lemma read_request_bound:
  assumes "read_request i = Inr (req, i')"
  shows "length (req_method req) + length (req_target req) + headers_size (req_headers req) \<le> MAX_HEADER_BYTES"
proof -
  obtain line k i1 where hl: "head_line 0 i = Inr (line, k, i1)"
      and body: "(case split_whitespace line of
         m # t # _ \<Rightarrow> rbind (read_headers k i1) (\<lambda>(hs, i). Inr (\<lparr>req_method = m, req_target = t, req_headers = hs\<rparr>, i))
       | _ \<Rightarrow> Inl (BadRequest ''malformed request line'')) = Inr (req, i')"
    using assms by (auto simp: read_request_def rbind_Inr_iff)
  obtain m t ws where ws: "split_whitespace line = m # t # ws"
    using body by (cases "split_whitespace line" rule: remdups_adj.cases) auto
  then obtain hs where rh: "read_headers k i1 = Inr (hs, i')"
      and req: "req = \<lparr>req_method = m, req_target = t, req_headers = hs\<rparr>"
    using body by (auto simp: rbind_Inr_iff)
  have "length m + length t \<le> length line"
    using split_ws_acc_length [of "[]" line] ws by (simp add: split_whitespace_def)
  then show ?thesis using head_line_bound [OF hl] read_headers_bound [OF rh] by (simp add: req)
qed

lemma header_texts_length: "length (concat (map header_text hs)) \<le> 4 * headers_size hs"
  by (induction hs) (auto simp: headers_size_def header_text_def crlf_def)

lemma headers_size_filter: "headers_size (filter P hs) \<le> headers_size hs"
  by (induction hs) (auto simp: headers_size_def)

lemma plain_head_length:
  assumes "read_request i = Inr (req, i')" "plain_target (req_target req) = Inr (authority, path)"
    and "\<And>h. sp host = Some h \<Longrightarrow> length (header_text h) < 2 ^ 32"
  shows "length (plain_head sp req authority host path) < 2 ^ 64"
proof -
  have "length authority + length path \<le> length (req_target req) + 1"
    using assms(2) by (auto simp: plain_target_def rbind_Inr_iff strip_prefix_Some_iff takeWhile_dropWhile_length split: if_splits)
  moreover have "length (case sp host of None \<Rightarrow> [] | Some h \<Rightarrow> header_text h) < 2 ^ 32"
    using assms(3) by (auto split: option.split)
  moreover have "length (concat (map header_text (forwarded_headers req))) \<le> 4 * headers_size (req_headers req)"
    using header_texts_length [of "forwarded_headers req"]
    by (rule order_trans) (simp add: forwarded_headers_def headers_size_filter)
  ultimately show ?thesis
    using read_request_bound [OF assms(1)]
    by (simp add: plain_head_def header_text_def crlf_def MAX_HEADER_BYTES_def del: length_concat)
qed

text \<open>What this connection charged is part of the session's recorded use, as long as the token is not issued
  to somebody else meanwhile.\<close>

definition within_budget :: "string \<Rightarrow> conn \<Rightarrow> bool" where
  "within_budget token c \<longleftrightarrow>
     sessions_ok (brk c) \<and> (\<forall>ops\<in>set (others c). \<forall>op\<in>set ops. \<not> issues token op) \<and>
     charged c \<le> unat DEFAULT_BYTE_BUDGET \<and> (\<forall>m. session_used (brk c) token = Some m \<longrightarrow> charged c \<le> m)"

lemma broker_step_grows:
  assumes "sessions_ok b" "\<not> issues token op" "session_used (broker_step op b) token = Some m"
  shows "\<exists>m0. session_used b token = Some m0 \<and> m0 \<le> m"
proof (cases op)
  case (Record t n)
  obtain r b' where rb: "record_bytes t n b = (r, b')" by force
  show ?thesis
  proof (cases "session_used b token")
    case None
    then show ?thesis using assms(3) rb Record bl.charge_others [OF rb, of token]
      by (cases "t = token") (auto simp: record_bytes_def session_used_def)
  next
    case (Some m0)
    from bl.charge_acct_used [OF rb this assms(1)] show ?thesis using assms(3) rb Record Some by auto
  qed
qed (use assms in \<open>auto simp: issue_session_bound_def revoke_session_def session_used_def issues_def Let_def split: if_splits\<close>)

lemma broker_steps_grow:
  "sessions_ok b \<Longrightarrow> \<forall>op\<in>set ops. \<not> issues token op \<Longrightarrow> session_used (fold broker_step ops b) token = Some m \<Longrightarrow>
     \<exists>m0. session_used b token = Some m0 \<and> m0 \<le> m"
proof (induction ops arbitrary: b)
  case (Cons op ops)
  then obtain m1 where "session_used (broker_step op b) token = Some m1" "m1 \<le> m" using broker_step_ok by fastforce
  with broker_step_grows [of b token op m1] Cons.prems show ?case by fastforce
qed simp

lemma broker_steps_ok: "sessions_ok b \<Longrightarrow> sessions_ok (fold broker_step ops b)"
  by (induction ops arbitrary: b) (simp_all add: broker_step_ok)

lemma lock_broker_within: "within_budget token c \<Longrightarrow> within_budget token (lock_broker a c)"
proof (cases "others c")
  case (Cons ops rest)
  assume w: "within_budget token c"
  with Cons have ok: "sessions_ok (brk c)" "\<forall>op\<in>set ops. \<not> issues token op" by (auto simp: within_budget_def)
  have "charged c \<le> m" if "session_used (fold broker_step ops (brk c)) token = Some m" for m
    using broker_steps_grow [OF ok that] w by (force simp: within_budget_def)
  then show ?thesis using w ok Cons by (auto simp: within_budget_def lock_broker_def broker_steps_ok)
qed (simp add: lock_broker_def within_budget_def)

lemma conn_record_bytes_within:
  assumes "within_budget token c" "conn_record_bytes token n c = (r, c')"
  shows "within_budget token c'"
proof -
  let ?c = "lock_broker (Charge token n) c"
  note w = lock_broker_within [OF assms(1), of "Charge token n"]
  obtain r1 b where rb: "record_bytes token n (brk ?c) = (r1, b)" by force
  have ok: "sessions_ok (brk ?c)" using w by (simp add: within_budget_def)
  show ?thesis
  proof (cases r1)
    case (Inl e)
    then show ?thesis using assms(2) w rb bl.charge_refused [of token n "brk ?c" e b]
      by (auto simp: conn_record_bytes_def Let_def)
  next
    case (Inr u)
    from bl.charge_ok [OF ok rb [unfolded Inr]] obtain m where
      m: "session_used (brk ?c) token = Some m" "session_used b token = Some (m + unat n)" "m + unat n \<le> session_cap (brk ?c) token"
      by blast
    moreover have "session_cap (brk ?c) token \<le> unat DEFAULT_BYTE_BUDGET"
      using ok by (auto simp: session_cap_def sessions_ok_def split: option.split)
    ultimately show ?thesis
      using assms(2) w rb Inr record_bytes_ok [OF ok rb] by (auto simp: within_budget_def conn_record_bytes_def Let_def)
  qed
qed

lemma send_to_within [simp]: "within_budget token (send_to d s c) = within_budget token c"
  by (cases d) (simp_all add: within_budget_def send_to_def)

text \<open>The bytes sent so far are covered by charges, but for \<^verbatim>\<open>k\<close> of them.\<close>

definition covered :: "nat \<Rightarrow> string \<Rightarrow> conn \<Rightarrow> bool" where
  "covered k token c \<longleftrightarrow> length (up_out c) + length (cl_out c) \<le> charged c + k \<and> within_budget token c"

lemma write_all_length: "write_all w s = (sent, ok) \<Longrightarrow> length sent \<le> length s"
  by (auto simp: write_all_def split: option.splits)

lemma length_send_to:
  "length (up_out (send_to d s c)) + length (cl_out (send_to d s c)) = length (up_out c) + length (cl_out c) + length s"
  by (cases d) (simp_all add: send_to_def)

lemma record_covered:
  assumes "covered k token c" "conn_record_bytes token n c = (r, c')"
  shows "covered k token c' \<and> (\<forall>d s. r = Inr () \<and> length s \<le> unat n \<longrightarrow> covered k token (send_to d s c'))"
  using assms conn_record_bytes_keeps [OF assms(2)] conn_record_bytes_within [OF _ assms(2)]
  by (auto simp: covered_def length_send_to)

lemma charge_covered:
  assumes "covered k token c" "charge token n c = (r, c')"
  shows "covered k token c' \<and> (\<forall>d s. r = Inr () \<and> length s \<le> unat n \<longrightarrow> covered k token (send_to d s c'))"
  using assms record_covered [OF assms(1)] by (auto simp: charge_def split: prod.splits sum.splits)

lemma pump_step_covered:
  assumes "pump_step token d chunk w c = (go, c')" "covered k token c"
  shows "covered k token c'"
proof -
  define data where "data = take PUMP_BUF chunk"
  have small: "unat (of_nat (length data) :: u64) = length data"
    by (simp add: data_def PUMP_BUF_def unsigned_of_nat take_bit_nat_eq_self)
  obtain r c1 where cr: "conn_record_bytes token (of_nat (length data)) c = (r, c1)" by force
  obtain sent ok where wr: "write_all w data = (sent, ok)" by force
  show ?thesis
    using assms record_covered [OF assms(2) cr] cr wr write_all_length [OF wr] small
    by (cases r) (auto simp: pump_step_def Let_def simp flip: data_def split: if_splits)
qed

lemma pumps_covered: "covered k token c \<Longrightarrow> covered k token (pumps token evs op c)"
proof (induction evs arbitrary: op c)
  case (Cons ev evs)
  obtain d chunk w where ev: "ev = (d, chunk, w)" by (metis prod_cases3)
  obtain go c1 where ps: "pump_step token d chunk w c = (go, c1)" by force
  show ?case using Cons pump_step_covered [OF ps] by (simp add: ev ps)
qed simp

lemma send_body_covered:
  assumes "send_body E i token n c = (r, c')" "covered k token c"
  shows "covered k token c'"
proof -
  obtain r1 c1 where ch: "charge token n c = (r1, c1)" by force
  obtain sent ok where wr: "write_all (body_write E) (take (unat n) (in_bytes i)) = (sent, ok)" by force
  have "length sent \<le> unat n" using write_all_length [OF wr] by simp
  then show ?thesis
    using assms charge_covered [OF assms(2) ch] ch wr
    by (cases r1) (auto simp: send_body_def Let_def split: if_splits)
qed

lemma dial_within [simp]: "within_budget token (c\<lparr>dialed := x\<rparr>) = within_budget token c"
  by (simp add: within_budget_def)

lemma dial_covered [simp]: "covered k token (c\<lparr>dialed := x\<rparr>) = covered k token c"
  by (simp add: covered_def)

lemma serve_plain_covered:
  assumes "covered k token c" "read_request i0 = Inr (req, i)"
    and "\<And>host h. secrets policy host = Some h \<Longrightarrow> length (header_text h) < 2 ^ 32"
  shows "covered k token (snd (serve_plain policy E req i token c))"
proof (cases "authorize_plain policy E req")
  case (Inr p)
  define head where "head = plain_head (secrets policy) req (pp_authority p) (pp_host p) (pp_path p)"
  have "length head < 2 ^ 64"
    using plain_head_length [OF assms(2)] assms(3) Inr unfolding head_def authorize_plain_iff plain_ok_def by blast
  then have small: "unat (of_nat (length head) :: u64) = length head" by (simp add: unsigned_of_nat take_bit_nat_eq_self)
  obtain r1 c1 where ch: "charge token (of_nat (length head)) (c\<lparr>dialed := dialed c @ [pp_addr p]\<rparr>) = (r1, c1)" by force
  obtain sent ok where wr: "write_all (head_write E) head = (sent, ok)" by force
  obtain r2 c2 where sb: "send_body E i token (pp_body_len p) (send_to ToOrigin sent c1) = (r2, c2)" by force
  have cov: "covered k token (c\<lparr>dialed := dialed c @ [pp_addr p]\<rparr>)" using assms(1) by simp
  note c1 = charge_covered [OF cov ch]
  have c2: "covered k token (send_to ToOrigin sent c1)" if "r1 = Inr ()"
    using c1 that write_all_length [OF wr] small by simp
  show ?thesis
    using assms(1) c1 c2 send_body_covered [OF sb] pumps_covered [of k token c2] ch wr sb
    by (cases r1; cases r2) (auto simp: serve_plain_def Inr Let_def relay_def simp flip: head_def)
qed (use assms in \<open>simp add: serve_plain_def\<close>)

lemma serve_connect_covered:
  assumes "covered 0 token c"
  shows "covered (length connect_established) token (snd (serve_connect policy E req token c))"
proof -
  obtain sent ok where wr: "write_all (established_write E) connect_established = (sent, ok)" by force
  have grow: "covered (length connect_established) token c" using assms by (auto simp: covered_def)
  have "covered (length connect_established) token (send_to ToClient sent (c\<lparr>dialed := x\<rparr>))" for x
    using assms write_all_length [OF wr] by (auto simp: covered_def length_send_to)
  with grow show ?thesis
    by (auto simp: serve_connect_def wr Let_def pumps_covered split: sum.split prod.split)
qed

lemma serve_request_covered:
  assumes "serve_request policy E i c = (r, c')"
    and "up_out c = []" and "cl_out c = []" and "charged c = 0" and "sessions_ok (brk c)"
    and "\<And>req rest token ops op. read_request i = Inr (req, rest) \<Longrightarrow> session_token_of req = Some token \<Longrightarrow>
        ops \<in> set (others (lock_broker (Look token) c)) \<Longrightarrow> op \<in> set ops \<Longrightarrow>
        brk (lock_broker (Look token) c) token \<noteq> None \<Longrightarrow> \<not> issues token op"
    and "\<And>host h. secrets policy host = Some h \<Longrightarrow> length (header_text h) < 2 ^ 32"
  shows "length (up_out c') + length (cl_out c') \<le> charged c' + length connect_established \<and>
    charged c' \<le> unat DEFAULT_BYTE_BUDGET"
proof (cases "dialed c' = dialed c \<and> up_out c' = [] \<and> cl_out c' = [] \<and> charged c' = 0")
  case False
  then obtain req rest token where rq: "read_request i = Inr (req, rest)" "session_token_of req = Some token"
      "remaining_budget token (brk (lock_broker (Look token) c)) \<noteq> None"
    using assms(1-4) by (fastforce simp: serve_request_def Let_def split: sum.splits option.splits if_splits)
  then have "brk (lock_broker (Look token) c) token \<noteq> None" by (auto simp: remaining_budget_def)
  with assms(2-5) assms(6) [OF rq(1,2)] have cov: "covered 0 token (lock_broker (Look token) c)"
    by (auto simp: covered_def within_budget_def lock_broker_def broker_steps_ok split: list.splits)
  have "covered 0 token (snd (serve_plain policy E req rest token (lock_broker (Look token) c)))"
    by (intro serve_plain_covered [OF cov rq(1)] assms(7))
  then have "covered (length connect_established) token c'"
    using assms(1) rq serve_connect_covered [OF cov, of policy E req]
    by (auto simp: serve_request_def Let_def covered_def split: if_splits)
  then show ?thesis by (simp add: covered_def within_budget_def)
qed simp

text \<open>
  C8. Every byte a connection relays, in either direction, was first charged to its session, and a connection
  never relays more than the session's budget: whatever the network does, however the two pumps of a tunnel
  interleave, and whatever other connections charge, spend or revoke meanwhile. The only uncharged bytes
  are the fixed answer to \<^verbatim>\<open>CONNECT\<close>. (Hypotheses: a fresh connection, a token that is live when the
  request is authenticated is not issued again meanwhile, and credentials are shorter than 4 GiB.)
\<close>
theorem egress_charged:
  assumes "serve_request policy E i c = (r, c')"
    and "up_out c = []" and "cl_out c = []" and "charged c = 0" and "sessions_ok (brk c)"
    and "\<And>ops op token. ops \<in> set (others (lock_broker (Look token) c)) \<Longrightarrow> op \<in> set ops \<Longrightarrow>
        brk (lock_broker (Look token) c) token \<noteq> None \<Longrightarrow> \<not> issues token op"
    and "\<And>host h. secrets policy host = Some h \<Longrightarrow> length (header_text h) < 2 ^ 32"
  shows "length (up_out c') + length (cl_out c') \<le> charged c' + length connect_established \<and>
    charged c' \<le> unat DEFAULT_BYTE_BUDGET"
  using assms by (intro serve_request_covered [OF assms(1-5)]) blast+

section \<open>What the origin sees\<close>

lemma pumps_to_client: "\<not> op ToOrigin \<Longrightarrow> up_out (pumps token evs op c) = up_out c"
proof (induction evs arbitrary: op c)
  case (Cons ev evs)
  obtain d chunk w where ev: "ev = (d, chunk, w)" by (metis prod_cases3)
  obtain go c1 where ps: "pump_step token d chunk w c = (go, c1)" by force
  have "up_out c1 = up_out c" if "d = ToClient"
    using ps that by (auto simp: pump_step_def Let_def send_to_def split: prod.splits sum.splits if_splits
        dest!: conn_record_bytes_keeps)
  then show ?case using Cons ps by (cases d) (simp_all add: ev)
qed simp

lemma write_all_take: "write_all w s = (sent, ok) \<Longrightarrow> \<exists>k. sent = take k s \<and> (ok \<longrightarrow> sent = s)"
  by (cases w) (auto simp: write_all_def intro: exI [of _ "length s"])

lemma send_body_up:
  assumes "send_body E i token n c = (r, c')"
  shows "\<exists>k. up_out c' = up_out c @ take k (take (unat n) (in_bytes i)) \<and>
    (r = Inr () \<longrightarrow> up_out c' = up_out c @ take (unat n) (in_bytes i))"
proof -
  obtain r1 c1 where ch: "charge token n c = (r1, c1)" by force
  obtain sent ok where wr: "write_all (body_write E) (take (unat n) (in_bytes i)) = (sent, ok)" by force
  obtain k where k: "sent = take k (take (unat n) (in_bytes i))" "ok \<longrightarrow> sent = take (unat n) (in_bytes i)"
    using write_all_take [OF wr] by blast
  show ?thesis
    using assms charge_keeps [OF ch] ch wr k(2)
    by (cases r1) (auto simp: send_body_def send_to_def Let_def k(1) split: if_splits intro: exI [of _ 0] exI [of _ k])
qed

definition origin_bytes :: "EgressPolicy \<Rightarrow> Request \<Rightarrow> input \<Rightarrow> plain_plan \<Rightarrow> string" where
  "origin_bytes policy req i p =
     plain_head (secrets policy) req (pp_authority p) (pp_host p) (pp_path p) @ take (unat (pp_body_len p)) (in_bytes i)"

lemma serve_plain_up:
  assumes "serve_plain policy E req i token c = (r, c')" "up_out c = []" and p: "authorize_plain policy E req = Inr p"
  shows "\<exists>k. up_out c' = take k (origin_bytes policy req i p) \<and> (r = Inr () \<longrightarrow> up_out c' = origin_bytes policy req i p)"
proof -
  define head where "head = plain_head (secrets policy) req (pp_authority p) (pp_host p) (pp_path p)"
  let ?body = "take (unat (pp_body_len p)) (in_bytes i)"
  obtain r1 c1 where ch: "charge token (of_nat (length head)) (c\<lparr>dialed := dialed c @ [pp_addr p]\<rparr>) = (r1, c1)" by force
  obtain sent ok where wr: "write_all (head_write E) head = (sent, ok)" by force
  obtain k where k: "sent = take k head" "ok \<longrightarrow> sent = head" using write_all_take [OF wr] by blast
  obtain r2 c2 where sb: "send_body E i token (pp_body_len p) (send_to ToOrigin sent c1) = (r2, c2)" by force
  have up1: "up_out c1 = []" using charge_keeps [OF ch] assms(2) by simp
  then obtain k2 where k2: "up_out c2 = sent @ take k2 ?body" "r2 = Inr () \<longrightarrow> up_out c2 = sent @ ?body"
    using send_body_up [OF sb] by (auto simp: send_to_def)
  have "up_out c' = [] \<and> r \<noteq> Inr () \<or> up_out c' = take k head \<and> r \<noteq> Inr () \<or>
      up_out c' = head @ take k2 ?body \<and> (r = Inr () \<longrightarrow> up_out c' = head @ ?body)"
    using assms ch wr sb k k2 up1
    by (cases r1; cases r2)
      (auto simp: serve_plain_def Let_def relay_def pumps_to_client send_to_def head_def [symmetric] split: if_splits)
  moreover have "take k head = take (min k (length head)) (head @ ?body)" by (simp add: min_def)
  moreover have "head @ take k2 ?body = take (length head + k2) (head @ ?body)" by simp
  ultimately show ?thesis unfolding origin_bytes_def head_def [symmetric] by (metis take0)
qed


section \<open>What the sandbox sees\<close>

text \<open>Everything of a connection but the bytes sent to the origin.\<close>

definition client_view :: "conn \<Rightarrow> Broker \<times> broker_op list list \<times> call list \<times> nat \<times> sock_addr list \<times> string" where
  "client_view c = (brk c, others c, calls c, charged c, dialed c, cl_out c)"

lemma same_view_cases:
  assumes "fst x = fst y \<and> client_view (snd x) = client_view (snd y)"
  obtains r a b where "x = (r, a)" "y = (r, b)" "client_view a = client_view b"
  using assms by (cases x; cases y) auto

lemma conn_record_bytes_view:
  assumes "client_view c = client_view d"
  shows "fst (conn_record_bytes token n c) = fst (conn_record_bytes token n d) \<and>
    client_view (snd (conn_record_bytes token n c)) = client_view (snd (conn_record_bytes token n d))"
  using assms
  by (auto simp: client_view_def conn_record_bytes_def lock_broker_def Let_def split: list.split prod.split sum.split)

lemma charge_view:
  assumes "client_view c = client_view d"
  shows "fst (charge token n c) = fst (charge token n d) \<and> client_view (snd (charge token n c)) = client_view (snd (charge token n d))"
  using conn_record_bytes_view [OF assms, of token n] by (auto simp: charge_def split: prod.splits sum.splits)

lemma send_to_view:
  "client_view c = client_view d \<Longrightarrow> client_view (send_to x s c) = client_view (send_to x s d)"
  "client_view (send_to ToOrigin s c) = client_view c"
  by (cases x) (simp_all add: client_view_def send_to_def)

lemma pump_step_view:
  assumes "client_view c = client_view d"
  shows "fst (pump_step token x chunk w c) = fst (pump_step token x chunk w d) \<and>
    client_view (snd (pump_step token x chunk w c)) = client_view (snd (pump_step token x chunk w d))"
proof -
  let ?n = "of_nat (length (take PUMP_BUF chunk))"
  obtain r c1 d1 where "conn_record_bytes token ?n c = (r, c1)" "conn_record_bytes token ?n d = (r, d1)"
      "client_view c1 = client_view d1"
    by (rule same_view_cases [OF conn_record_bytes_view [OF assms]])
  then show ?thesis using assms send_to_view(1) [of c1 d1]
    by (cases r; cases "write_all w (take PUMP_BUF chunk)") (simp_all add: pump_step_def Let_def)
qed

lemma pumps_view:
  "client_view c = client_view d \<Longrightarrow> client_view (pumps token evs op c) = client_view (pumps token evs op d)"
proof (induction evs arbitrary: op c d)
  case (Cons ev evs)
  obtain x chunk w where ev: "ev = (x, chunk, w)" by (metis prod_cases3)
  obtain go c1 d1 where "pump_step token x chunk w c = (go, c1)" "pump_step token x chunk w d = (go, d1)"
      "client_view c1 = client_view d1"
    by (rule same_view_cases [OF pump_step_view [OF Cons.prems]])
  then show ?case using Cons.IH [of c1 d1] Cons.IH [OF Cons.prems] by (simp add: ev)
qed simp

lemma send_body_view:
  assumes "client_view c = client_view d"
  shows "fst (send_body E i token n c) = fst (send_body E i token n d) \<and>
    client_view (snd (send_body E i token n c)) = client_view (snd (send_body E i token n d))"
proof -
  obtain r c1 d1 where "charge token n c = (r, c1)" "charge token n d = (r, d1)" "client_view c1 = client_view d1"
    by (rule same_view_cases [OF charge_view [OF assms]])
  then show ?thesis using assms send_to_view(1) [of c1 d1]
    by (cases r; cases "write_all (body_write E) (take (unat n) (in_bytes i))") (simp_all add: send_body_def Let_def)
qed

definition same_but_secrets :: "EgressPolicy \<Rightarrow> EgressPolicy \<Rightarrow> bool" where
  "same_but_secrets p q \<longleftrightarrow>
     routes p = routes q \<and> max_request_bytes p = max_request_bytes q \<and>
     (\<forall>host. map_option (\<lambda>h. length (header_text h)) (secrets p host) = map_option (\<lambda>h. length (header_text h)) (secrets q host))"

lemma authorize_plain_same:
  assumes "same_but_secrets p q"
  shows "route_for p = route_for q" "authorize_plain p E req = authorize_plain q E req"
proof -
  show r: "route_for p = route_for q" using assms by (simp add: same_but_secrets_def route_for_def fun_eq_iff)
  show "authorize_plain p E req = authorize_plain q E req"
    unfolding authorize_plain_def r using assms by (simp only: same_but_secrets_def)
qed

lemma plain_head_same_length:
  assumes "same_but_secrets p q"
  shows "length (plain_head (secrets p) req a h path) = length (plain_head (secrets q) req a h path)"
proof -
  have "map_option (\<lambda>h. length (header_text h)) (secrets p h) = map_option (\<lambda>h. length (header_text h)) (secrets q h)"
    using assms by (simp add: same_but_secrets_def)
  then have "length (case secrets p h of None \<Rightarrow> [] | Some h \<Rightarrow> header_text h) =
      length (case secrets q h of None \<Rightarrow> [] | Some h \<Rightarrow> header_text h)"
    by (auto split: option.split)
  then show ?thesis by (simp add: plain_head_def)
qed

lemma serve_plain_view:
  assumes "same_but_secrets p q"
  shows "fst (serve_plain p E req i token c) = fst (serve_plain q E req i token c) \<and>
    client_view (snd (serve_plain p E req i token c)) = client_view (snd (serve_plain q E req i token c))"
proof (cases "authorize_plain q E req")
  case (Inr a)
  define hp hq where "hp = plain_head (secrets p) req (pp_authority a) (pp_host a) (pp_path a)"
    and "hq = plain_head (secrets q) req (pp_authority a) (pp_host a) (pp_path a)"
  have len: "length hp = length hq" unfolding hp_def hq_def by (rule plain_head_same_length [OF assms])
  obtain r1 c1 where ch: "charge token (of_nat (length hq)) (c\<lparr>dialed := dialed c @ [pp_addr a]\<rparr>) = (r1, c1)" by force
  obtain sp sq ok where wr: "write_all (head_write E) hp = (sp, ok)" "write_all (head_write E) hq = (sq, ok)"
    by (cases "head_write E") (auto simp: write_all_def)
  have v: "client_view (send_to ToOrigin sp c1) = client_view (send_to ToOrigin sq c1)" by (simp add: send_to_view)
  obtain r2 d1 d2 where "send_body E i token (pp_body_len a) (send_to ToOrigin sp c1) = (r2, d1)"
      "send_body E i token (pp_body_len a) (send_to ToOrigin sq c1) = (r2, d2)" "client_view d1 = client_view d2"
    by (rule same_view_cases [OF send_body_view [OF v]])
  then show ?thesis
    using v pumps_view [of d1 d2] ch wr len
    by (cases r1; cases r2)
      (auto simp: serve_plain_def authorize_plain_same [OF assms] Inr Let_def relay_def
        hp_def [symmetric] hq_def [symmetric])
qed (simp add: serve_plain_def authorize_plain_same [OF assms])


section \<open>Concrete connections\<close>

definition sample_route :: Route where
  "sample_route = \<lparr>hosts = [''*.ex.com''], methods = [''GET'']\<rparr>"

definition sample_policy :: EgressPolicy where
  "sample_policy =
     \<lparr>routes = [sample_route], max_request_bytes = 10, secrets = (\<lambda>h. if h = ''a.ex.com'' then Some (''K'', ''v'') else None)\<rparr>"

definition sample_network :: network where
  "sample_network =
     \<lparr>resolve = (\<lambda>h p. Some [(V4 7, p)]), connects = (\<lambda>_. True), head_write = None, body_write = None,
      established_write = None, clones_ok = True, traffic = [(ToClient, ''ok'', None)]\<rparr>"

definition sample_conn :: conn where
  "sample_conn =
     \<lparr>brk = snd (issue_session ''t'' 1 broker_new), others = [], calls = [], charged = 0, dialed = [], up_out = [], cl_out = []\<rparr>"

definition sample_input :: input where
  "sample_input =
     \<lparr>in_bytes = ''GET http://a.ex.com/x HTTP/1.1'' @ crlf @ ''Proxy-Authorization: Bearer aiv-ses-t'' @ crlf @ crlf,
      in_fails = False\<rparr>"

definition sample_request :: Request where
  "sample_request =
     \<lparr>req_method = ''GET'', req_target = ''http://a.ex.com/x'',
      req_headers = [(''Proxy-Authorization'', ''Bearer aiv-ses-t'')]\<rparr>"

lemma sample_read: "read_request sample_input = Inr (sample_request, \<lparr>in_bytes = [], in_fails = False\<rparr>)"
  by (simp add: read_request_def head_line_def read_line_def utf8_valid_def MAX_HEADER_BYTES_def read_headers.simps
      sample_input_def sample_request_def split_whitespace_def is_ws_def crlf_def char_cr_def char_lf_def
      trim_end_crlf_def split_once_def trim_def)

lemma sample_token: "session_token_of sample_request = Some ''aiv-ses-t''"
  by (simp add: session_token_of_def req_header_def sample_request_def eq_ignore_ascii_case_def to_ascii_lowercase_def
      ascii_lower_char_def strip_prefix_def starts_with_def trim_def is_ws_def char_of_eq_iff)

lemma sample_authorized:
  "authorize_plain sample_policy sample_network sample_request =
     Inr \<lparr>pp_authority = ''a.ex.com'', pp_host = ''a.ex.com'', pp_path = ''/x'', pp_body_len = 0, pp_addr = (V4 7, 80)\<rparr>"
  by (simp add: authorize_plain_def plain_target_def sample_request_def strip_prefix_def starts_with_def
      split_authority_def rsplit_once_def split_once_def route_for_def sample_policy_def sample_route_def matches_host_def
      matches_pattern_def to_ascii_lowercase_def ascii_lower_char_def ends_with_def allows_method_def eq_ignore_ascii_case_def
      req_header_def content_length_def resolve_pinned_def sample_network_def METADATA_IPS_def Let_def)

lemma sample_conn_live: "remaining_budget ''aiv-ses-t'' (brk (lock_broker (Look ''aiv-ses-t'') sample_conn)) \<noteq> None"
  by (simp add: sample_conn_def lock_broker_def remaining_budget_def issue_session_def issue_session_bound_def
      session_token_def Let_def)

lemma sample_method: "\<not> eq_ignore_ascii_case (req_method sample_request) ''CONNECT''"
  by (simp add: eq_ignore_ascii_case_def to_ascii_lowercase_def sample_request_def)

lemma sample_dialed: "dialed (snd (serve_request sample_policy sample_network sample_input sample_conn)) = [(V4 7, 80)]"
proof -
  have "serve_request sample_policy sample_network sample_input sample_conn =
      serve_plain sample_policy sample_network sample_request \<lparr>in_bytes = [], in_fails = False\<rparr> ''aiv-ses-t'' (lock_broker (Look ''aiv-ses-t'') sample_conn)"
    using sample_conn_live sample_method by (auto simp: serve_request_def sample_read sample_token Let_def)
  then show ?thesis by (simp add: serve_plain_dialed sample_authorized sample_conn_def)
qed

theorem egress_confined_witness:
  "\<exists>req rest token addr. read_request sample_input = Inr (req, rest) \<and> session_token_of req = Some token \<and>
     dialed (snd (serve_request sample_policy sample_network sample_input sample_conn)) = [addr]"
proof -
  obtain r c' where c': "serve_request sample_policy sample_network sample_input sample_conn = (r, c')" by force
  have d: "dialed c' = [(V4 7, 80)]" "dialed sample_conn = []" using sample_dialed c' by (simp_all add: sample_conn_def)
  from egress_confined [OF c'] d c' show ?thesis by auto
qed

theorem egress_charged_witness:
  "charged (snd (serve_request sample_policy sample_network sample_input sample_conn)) \<le> unat DEFAULT_BYTE_BUDGET"
proof -
  obtain r c' where c': "serve_request sample_policy sample_network sample_input sample_conn = (r, c')" by force
  have ok: "sessions_ok (brk sample_conn)"
    using broker_step_ok [of broker_new "Issue ''t'' 1 None"]
    by (simp add: sample_conn_def issue_session_def sessions_ok_def broker_new_def)
  have "length (header_text h) < 2 ^ 32" if "secrets sample_policy host = Some h" for host h
    using that by (auto simp: sample_policy_def header_text_def crlf_def split: if_splits)
  with egress_charged [OF c' _ _ _ ok] c' show ?thesis
    by (auto simp: sample_conn_def lock_broker_def)
qed



text \<open>
  The metadata block compares addresses by value, so the IPv4-mapped form of the metadata address
  (\<^verbatim>\<open>::ffff:169.254.169.254\<close>) is not blocked: a name that resolves to it is dialled.
\<close>
theorem mapped_metadata_not_blocked:
  "resolve_pinned (sample_network\<lparr>resolve := (\<lambda>_ p. Some [(V6 0xFFFFA9FEA9FE, p)])\<rparr>) host port = Inr (V6 0xFFFFA9FEA9FE, port) \<and>
   resolve_pinned (sample_network\<lparr>resolve := (\<lambda>_ p. Some [(V4 0xA9FEA9FE, p)])\<rparr>) host port =
     Inl (Forbidden ''resolves to cloud metadata address - always blocked'')"
  by (simp add: resolve_pinned_def METADATA_IPS_def)

end
