(* ===== verification/Egress_Server.thy ===== *)
theory Egress_Server
  imports Egress_Safe
begin

text \<open>
  The accept loop of the egress proxy (\<^verbatim>\<open>EgressProxy::serve\<close> and \<^verbatim>\<open>serve_on\<close> of \<^verbatim>\<open>aivisor-broker/src/egress.rs\<close>): one thread per
  accepted connection, all of them on one session table. A run of the server is a sequence of calls into the table, each made by one of the
  threads or by the rest of the process; what a thread finds done to the table between two of its own calls is what the sequence has there.
\<close>

section \<open>The accept loop\<close>

text \<open>The listener yields connections and failures to accept one; a failure is skipped.\<close>

type_synonym thread = "network \<times> input"

fun serve_on :: "thread option list \<Rightarrow> thread list" where
  "serve_on [] = []"
| "serve_on (None # incoming) = serve_on incoming"
| "serve_on (Some stream # incoming) = stream # serve_on incoming"

definition serve :: "bool \<Rightarrow> thread option list \<Rightarrow> error + thread list" where
  "serve binds incoming = (if binds then Inr (serve_on incoming) else Inl (LaunchFailed ''broker bind''))"

section \<open>Runs\<close>

datatype event = By nat call | Outside broker_op

fun apply_call :: "call \<Rightarrow> Broker \<Rightarrow> Broker" where
  "apply_call (Look token) b = b"
| "apply_call (Charge token n) b = broker_step (Record token n) b"

fun event_ops :: "event \<Rightarrow> broker_op list" where
  "event_ops (By j (Look token)) = []"
| "event_ops (By j (Charge token n)) = [Record token n]"
| "event_ops (Outside op) = [op]"

text \<open>The calls of one thread, and what the others did before each of them.\<close>

fun calls_of :: "nat \<Rightarrow> event list \<Rightarrow> call list" where
  "calls_of j [] = []"
| "calls_of j (By i a # tr) = (if i = j then a # calls_of j tr else calls_of j tr)"
| "calls_of j (Outside op # tr) = calls_of j tr"

fun gaps :: "nat \<Rightarrow> broker_op list \<Rightarrow> event list \<Rightarrow> broker_op list list" where
  "gaps j ops [] = []"
| "gaps j ops (ev # tr) =
     (case ev of
        By i a \<Rightarrow> if i = j then ops # gaps j [] tr else gaps j (ops @ event_ops ev) tr
      | Outside op \<Rightarrow> gaps j (ops @ [op]) tr)"

definition accepted_conn :: "Broker \<Rightarrow> broker_op list list \<Rightarrow> conn" where
  "accepted_conn b gs = \<lparr>brk = b, others = gs, calls = [], charged = 0, dialed = [], up_out = [], cl_out = []\<rparr>"

text \<open>How a thread ends in a run, before a refusal is answered.\<close>

definition thread_end :: "EgressPolicy \<Rightarrow> thread list \<Rightarrow> Broker \<Rightarrow> event list \<Rightarrow> nat \<Rightarrow> conn" where
  "thread_end policy ts b tr j = snd (serve_request policy (fst (ts ! j)) (snd (ts ! j)) (accepted_conn b (gaps j [] tr)))"

text \<open>A run in which every thread has ended: the calls in it are those the threads make.\<close>

definition server_run :: "EgressPolicy \<Rightarrow> thread list \<Rightarrow> Broker \<Rightarrow> event list \<Rightarrow> bool" where
  "server_run policy ts b tr \<longleftrightarrow>
     list_all (\<lambda>ev. case ev of By j _ \<Rightarrow> j < length ts | Outside _ \<Rightarrow> True) tr \<and>
     list_all (\<lambda>j. calls (thread_end policy ts b tr j) = calls_of j tr) [0..<length ts]"

section \<open>What every call and every write keeps\<close>

locale conn_keeps =
  fixes P :: "conn \<Rightarrow> bool" and token :: string
  assumes keeps_record: "P c \<Longrightarrow> conn_record_bytes token n c = (r, c') \<Longrightarrow> P c'"
    and keeps_send: "P c \<Longrightarrow> P (send_to d s c)"
    and keeps_dial: "P c \<Longrightarrow> P (c\<lparr>dialed := x\<rparr>)"
begin

lemma kept_charge: "P c \<Longrightarrow> charge token n c = (r, c') \<Longrightarrow> P c'"
  by (auto simp: charge_def split: prod.splits sum.splits dest: keeps_record)

lemma kept_pump_step: "P c \<Longrightarrow> pump_step token d chunk w c = (go, c') \<Longrightarrow> P c'"
  by (auto simp: pump_step_def Let_def keeps_send split: prod.splits sum.splits if_splits dest: keeps_record)

lemma kept_pumps: "P c \<Longrightarrow> P (pumps token evs op c)"
proof (induction evs arbitrary: op c)
  case (Cons ev evs)
  obtain d chunk w where "ev = (d, chunk, w)" by (metis prod_cases3)
  then show ?case using Cons by (auto split: prod.splits dest: kept_pump_step)
qed simp

lemma kept_send_body: "P c \<Longrightarrow> send_body E i token n c = (r, c') \<Longrightarrow> P c'"
  by (auto simp: send_body_def Let_def keeps_send split: prod.splits sum.splits if_splits dest: kept_charge)

lemma kept_serve_plain: "P c \<Longrightarrow> P (snd (serve_plain policy E req i token c))"
  by (auto simp: serve_plain_def Let_def relay_def intro!: kept_pumps keeps_send keeps_dial
      split: sum.split prod.split dest!: kept_charge [rotated] kept_send_body [rotated] intro: keeps_send keeps_dial)

lemma kept_serve_connect: "P c \<Longrightarrow> P (snd (serve_connect policy E req token c))"
  by (auto simp: serve_connect_def Let_def intro!: kept_pumps keeps_send keeps_dial split: sum.split prod.split)

end

section \<open>The calls of a thread, replayed\<close>

definition gap :: "broker_op list list \<Rightarrow> broker_op list" where
  "gap gs = (case gs of [] \<Rightarrow> [] | ops # _ \<Rightarrow> ops)"

fun got :: "call \<Rightarrow> Broker \<Rightarrow> nat" where
  "got (Look token) b = 0"
| "got (Charge token n) b = (if isl (fst (record_bytes token n b)) then 0 else unat n)"

fun replay :: "broker_op list list \<Rightarrow> call list \<Rightarrow> Broker \<Rightarrow> Broker" where
  "replay gs [] b = b"
| "replay gs (a # as) b = replay (tl gs) as (apply_call a (fold broker_step (gap gs) b))"

fun earned :: "broker_op list list \<Rightarrow> call list \<Rightarrow> Broker \<Rightarrow> nat" where
  "earned gs [] b = 0"
| "earned gs (a # as) b =
     (let b' = fold broker_step (gap gs) b in got a b' + earned (tl gs) as (apply_call a b'))"

lemma replay_snoc: "replay gs (as @ [a]) b = apply_call a (fold broker_step (gap (drop (length as) gs)) (replay gs as b))"
  by (induction as arbitrary: gs b) (simp_all add: drop_Suc)

lemma earned_snoc: "earned gs (as @ [a]) b = earned gs as b + got a (fold broker_step (gap (drop (length as) gs)) (replay gs as b))"
  by (induction as arbitrary: gs b) (simp_all add: drop_Suc Let_def)

text \<open>The table a thread sees, and the bytes it was granted, are those of its calls replayed.\<close>

definition call_token :: "call \<Rightarrow> string" where
  "call_token a = (case a of Look t \<Rightarrow> t | Charge t n \<Rightarrow> t)"

definition tracked :: "Broker \<Rightarrow> broker_op list list \<Rightarrow> string \<Rightarrow> conn \<Rightarrow> bool" where
  "tracked b gs token c \<longleftrightarrow>
     brk c = replay gs (calls c) b \<and> others c = drop (length (calls c)) gs \<and> charged c = earned gs (calls c) b \<and>
     (\<forall>a\<in>set (calls c). call_token a = token)"

lemma lock_broker_replay:
  assumes "brk c = replay gs (calls c) b" "others c = drop (length (calls c)) gs"
  shows "brk (lock_broker a c) = fold broker_step (gap (drop (length (calls c)) gs)) (replay gs (calls c) b)"
    "others (lock_broker a c) = drop (Suc (length (calls c))) gs" "calls (lock_broker a c) = calls c @ [a]"
  using assms by (auto simp: lock_broker_def gap_def drop_Suc split: list.split) (metis drop_Suc drop_eq_Nil2 list.sel(3) drop_tl tl_drop)+

interpretation tk: conn_keeps "tracked b gs token" token for b gs token
proof
  fix c n r c' d s x
  assume t: "tracked b gs token c"
  show "tracked b gs token (send_to d s c)" using t by (cases d) (simp_all add: tracked_def send_to_def)
  show "tracked b gs token (c\<lparr>dialed := x\<rparr>)" using t by (simp add: tracked_def)
  assume "conn_record_bytes token n c = (r, c')"
  then show "tracked b gs token c'"
    using t lock_broker_replay [of c gs b "Charge token n"]
    by (auto simp: conn_record_bytes_def tracked_def replay_snoc earned_snoc call_token_def Let_def split: prod.splits sum.splits)
qed

lemma thread_tracked:
  assumes "c' = snd (serve_request policy E i (accepted_conn b gs))"
  shows "calls c' = [] \<and> charged c' = 0 \<or>
    (\<exists>req rest token. read_request i = Inr (req, rest) \<and> session_token_of req = Some token \<and> tracked b gs token c')"
proof -
  have "tracked b gs token (lock_broker (Look token) (accepted_conn b gs))" for token
    using lock_broker_replay [of "accepted_conn b gs" gs b "Look token"]
    by (auto simp: tracked_def accepted_conn_def call_token_def Let_def)
  then show ?thesis
    unfolding assms serve_request_def
    by (auto simp: Let_def accepted_conn_def tk.kept_serve_plain tk.kept_serve_connect split: sum.split option.split)
qed

section \<open>All threads together\<close>

abbreviation apply_event :: "event \<Rightarrow> Broker \<Rightarrow> Broker" where
  "apply_event ev \<equiv> fold broker_step (event_ops ev)"

text \<open>The bytes granted to one thread in a run of the whole server.\<close>

fun granted_to :: "nat \<Rightarrow> event list \<Rightarrow> Broker \<Rightarrow> nat" where
  "granted_to j [] b = 0"
| "granted_to j (ev # tr) b =
     (case ev of By i a \<Rightarrow> if i = j then got a b else 0 | Outside _ \<Rightarrow> 0) + granted_to j tr (apply_event ev b)"

lemma apply_event_By: "apply_event (By j a) b = apply_call a b"
  by (cases a) simp_all

lemma granted_to_earned: "earned (gaps j ops tr) (calls_of j tr) b = granted_to j tr (fold broker_step ops b)"
  by (induction tr arbitrary: ops b rule: calls_of.induct)
    (auto simp: gap_def Let_def apply_event_By split: event.split)

text \<open>What a session granted, with no new issue of its token: at least what the threads that presented it got.\<close>

lemma granted_together:
  assumes "\<forall>j\<in>J. \<forall>a\<in>set (calls_of j tr). call_token a = token" "\<forall>op. Outside op \<in> set tr \<longrightarrow> \<not> issues token op" "finite J"
  shows "(\<Sum>j\<in>J. granted_to j tr b) + g \<le> granted_since token g (concat (map event_ops tr)) b"
  using assms(1,2)
proof (induction tr arbitrary: g b)
  case (Cons ev tr)
  let ?own = "\<lambda>j. case ev of By i a \<Rightarrow> if i = j then got a b else 0 | Outside _ \<Rightarrow> 0"
  have IH: "(\<Sum>j\<in>J. granted_to j tr b') + g' \<le> granted_since token g' (concat (map event_ops tr)) b'" for b' g'
    using Cons.prems by (intro Cons.IH) (cases ev; auto split: if_splits)+
  have sum: "(\<Sum>j\<in>J. granted_to j (ev # tr) b) = (\<Sum>j\<in>J. ?own j) + (\<Sum>j\<in>J. granted_to j tr (apply_event ev b))"
    by (simp add: sum.distrib)
  show ?case
  proof (cases ev)
    case (By i a)
    have "(\<Sum>j\<in>J. ?own j) = (if i \<in> J then got a b else 0)" using assms(3) by (simp add: By sum.delta)
    then show ?thesis
      using IH [of "apply_event ev b" g] IH [of "apply_event ev b" "g + got a b"] Cons.prems(1) unfolding sum
      by (cases a) (force simp: By call_token_def)+
  next
    case (Outside op)
    have "(\<Sum>j\<in>J. ?own j) = 0" by (simp add: Outside)
    moreover have "g \<le> (case op of Issue uuid _ _ \<Rightarrow> if session_token uuid = token then 0 else g | Revoke _ \<Rightarrow> g
        | Record t n \<Rightarrow> if t = token \<and> isl (fst (record_bytes t n b)) = False then g + unat n else g)" (is "g \<le> ?g")
      using Cons.prems(2) by (auto simp: Outside issues_def split: broker_op.split)
    ultimately show ?thesis using IH [of "broker_step op b" ?g] unfolding sum by (simp add: Outside)
  qed
qed simp

lemma gaps_ops: "ops' \<in> set (gaps j ops tr) \<Longrightarrow> op \<in> set ops' \<Longrightarrow> op \<in> set ops \<or> Outside op \<in> set tr \<or> (\<exists>t n. op = Record t n)"
proof (induction tr arbitrary: ops)
  case (Cons ev tr)
  have "op \<in> set (event_ops ev) \<Longrightarrow> Outside op = ev \<or> (\<exists>t n. op = Record t n)" by (cases ev rule: event_ops.cases) auto
  with Cons.IH [of "[]"] Cons.IH [of "ops @ event_ops ev"] Cons.prems show ?case by (cases ev) (auto split: if_splits)
qed simp

text \<open>The token a connection presents.\<close>

definition presents :: "thread \<Rightarrow> string \<Rightarrow> bool" where
  "presents t token \<longleftrightarrow> (case read_request (snd t) of Inl _ \<Rightarrow> False | Inr (req, _) \<Rightarrow> session_token_of req = Some token)"

lemma thread_end_granted:
  assumes "server_run policy ts b tr" "j < length ts"
  shows "charged (thread_end policy ts b tr j) = granted_to j tr b"
    "presents (ts ! j) token \<Longrightarrow> a \<in> set (calls_of j tr) \<Longrightarrow> call_token a = token"
proof -
  let ?c = "thread_end policy ts b tr j"
  have c: "calls ?c = calls_of j tr" using assms by (simp add: server_run_def list_all_iff)
  note t = thread_tracked [OF thread_end_def [of policy ts b tr j]]
  show "charged ?c = granted_to j tr b"
    using t granted_to_earned [of j "[]" tr b] by (auto simp: tracked_def c)
  show "presents (ts ! j) token \<Longrightarrow> a \<in> set (calls_of j tr) \<Longrightarrow> call_token a = token"
    using t by (auto simp: tracked_def presents_def c)
qed

lemma thread_relays:
  assumes "sessions_ok b" "\<forall>op. Outside op \<in> set tr \<longrightarrow> \<not> issues token op" "presents (ts ! j) token"
    and "\<And>host h. secrets policy host = Some h \<Longrightarrow> length (header_text h) < 2 ^ 32"
  shows "length (up_out (thread_end policy ts b tr j)) + length (cl_out (thread_end policy ts b tr j)) \<le>
    charged (thread_end policy ts b tr j) + length connect_established"
proof -
  let ?c = "accepted_conn b (gaps j [] tr)"
  have "\<not> issues token op" if "ops \<in> set (others (lock_broker (Look token) ?c))" "op \<in> set ops" for ops op
  proof -
    have "ops \<in> set (gaps j [] tr)" using that(1) by (auto simp: lock_broker_def accepted_conn_def split: list.splits)
    from gaps_ops [OF this that(2)] show ?thesis using assms(2) by (auto simp: issues_def)
  qed
  moreover have "\<exists>r. serve_request policy (fst (ts ! j)) (snd (ts ! j)) ?c = (r, thread_end policy ts b tr j)"
    by (metis surjective_pairing thread_end_def)
  then obtain r where sr: "serve_request policy (fst (ts ! j)) (snd (ts ! j)) ?c = (r, thread_end policy ts b tr j)" by blast
  ultimately show ?thesis using assms(1,3)
    by (intro serve_request_covered [OF sr, THEN conjunct1] assms(4)) (auto simp: presents_def accepted_conn_def)
qed

text \<open>The threads of a session.\<close>

definition on_session :: "thread list \<Rightarrow> string \<Rightarrow> nat list" where
  "on_session ts token = filter (\<lambda>j. presents (ts ! j) token) [0..<length ts]"

lemma session_charges:
  assumes run: "server_run policy ts b tr" and ok: "sessions_ok b" "session_used b token = Some u"
    and iss: "\<forall>op. Outside op \<in> set tr \<longrightarrow> \<not> issues token op"
  shows "(\<Sum>j\<leftarrow>on_session ts token. charged (thread_end policy ts b tr j)) + u \<le> unat DEFAULT_BYTE_BUDGET"
proof -
  let ?J = "set (on_session ts token)"
  have "u \<le> unat DEFAULT_BYTE_BUDGET" using ok by (auto simp: session_used_def sessions_ok_def word_le_nat_alt)
  then have "account token u b" using ok by (simp add: account_def)
  from account_run [OF this] have "granted_since token u (concat (map event_ops tr)) b \<le> unat DEFAULT_BYTE_BUDGET"
    by (simp add: account_def)
  moreover have "(\<Sum>j\<in>?J. granted_to j tr b) + u \<le> granted_since token u (concat (map event_ops tr)) b"
    using thread_end_granted(2) [OF run] by (intro granted_together [OF _ iss]) (auto simp: on_session_def)
  moreover have "(\<Sum>j\<leftarrow>on_session ts token. charged (thread_end policy ts b tr j)) = (\<Sum>j\<leftarrow>on_session ts token. granted_to j tr b)"
    by (intro arg_cong [of _ _ sum_list] map_cong refl) (simp add: thread_end_granted(1) [OF run] on_session_def)
  moreover have "distinct (on_session ts token)" by (simp add: on_session_def)
  ultimately show ?thesis by (simp add: sum.distinct_set_conv_list)
qed

text \<open>
  C9. All connections on a session together stay within its budget. Take any number of connections accepted by the proxy, served by one
  thread each and interleaved call by call in any way, with the rest of the process issuing, spending and revoking sessions meanwhile. The bytes that
  the threads presenting a token are charged, with those it had used before, never exceed the budget of the session; and what these
  threads relay in both directions together exceeds it by no more than the fixed answers to \<^verbatim>\<open>CONNECT\<close>, one per connection. (Hypotheses: the token is not issued
  again during the run, and credentials are shorter than 4 GiB.)
\<close>
theorem server_within_budget:
  assumes "serve True incoming = Inr ts" "server_run policy ts b tr" "sessions_ok b" "session_used b token = Some u"
    and "\<forall>op. Outside op \<in> set tr \<longrightarrow> \<not> issues token op"
    and "\<And>host h. secrets policy host = Some h \<Longrightarrow> length (header_text h) < 2 ^ 32"
  shows "(\<Sum>j\<leftarrow>on_session ts token. charged (thread_end policy ts b tr j)) + u \<le> unat DEFAULT_BYTE_BUDGET \<and>
    (\<Sum>j\<leftarrow>on_session ts token. length (up_out (thread_end policy ts b tr j)) + length (cl_out (thread_end policy ts b tr j))) + u \<le>
      unat DEFAULT_BYTE_BUDGET + length (on_session ts token) * length connect_established"
proof -
  note budget = session_charges [OF assms(2-5)]
  have "(\<Sum>j\<leftarrow>on_session ts token. length (up_out (thread_end policy ts b tr j)) + length (cl_out (thread_end policy ts b tr j))) \<le>
      (\<Sum>j\<leftarrow>on_session ts token. charged (thread_end policy ts b tr j) + length connect_established)"
    by (intro sum_list_mono thread_relays [OF assms(3,5) _ assms(6)]) (auto simp: on_session_def)
  with budget show ?thesis by (simp add: sum_list_addf sum_list_triv)
qed

section \<open>Two connections on one session\<close>

definition sample_broker :: Broker where
  "sample_broker = snd (issue_session ''t'' 1 broker_new)"

definition sample_threads :: "thread list" where
  "sample_threads = [(sample_network, sample_input), (sample_network, sample_input)]"

definition sample_trace :: "event list" where
  "sample_trace =
     [By 0 (Look ''aiv-ses-t''), By 1 (Look ''aiv-ses-t''), By 0 (Charge ''aiv-ses-t'' 60), By 1 (Charge ''aiv-ses-t'' 60),
      By 0 (Charge ''aiv-ses-t'' 2), By 1 (Charge ''aiv-ses-t'' 2)]"

lemma sample_head: "length (plain_head (secrets sample_policy) sample_request ''a.ex.com'' ''a.ex.com'' ''/x'') = 60"
  by (simp add: plain_head_def sample_policy_def sample_request_def forwarded_headers_def HOP_BY_HOP_def header_text_def crlf_def
      eq_ignore_ascii_case_def to_ascii_lowercase_def ascii_lower_char_def char_of_eq_iff)

lemma sample_calls:
  assumes "c = accepted_conn sample_broker gs" "gs \<in> {[[], [], [Record ''aiv-ses-t'' 60]], [[], [Record ''aiv-ses-t'' 60], [Record ''aiv-ses-t'' 2]]}"
  shows "calls (snd (serve_request sample_policy sample_network sample_input c)) =
    [Look ''aiv-ses-t'', Charge ''aiv-ses-t'' 60, Charge ''aiv-ses-t'' 2]"
proof -
  define head where "head = plain_head (secrets sample_policy) sample_request ''a.ex.com'' ''a.ex.com'' ''/x''"
  have l: "length head = 60" by (simp add: head_def sample_head)
  show ?thesis using assms sample_method
    by (auto simp: serve_request_def sample_read sample_token Let_def serve_plain_def sample_authorized l simp flip: head_def,
       auto simp: accepted_conn_def lock_broker_def sample_broker_def issue_session_def issue_session_bound_def session_token_def
        remaining_budget_def sample_network_def charge_def conn_record_bytes_def record_bytes_def DEFAULT_BYTE_BUDGET_def
        write_all_def send_to_def send_body_def relay_def pump_step_def PUMP_BUF_def broker_new_def saturating_add_def Let_def)
qed

lemma sample_server_run: "server_run sample_policy sample_threads sample_broker sample_trace"
  using sample_calls [OF refl, of "[[], [], [Record ''aiv-ses-t'' 60]]"] sample_calls [OF refl, of "[[], [Record ''aiv-ses-t'' 60], [Record ''aiv-ses-t'' 2]]"]
  by (simp add: server_run_def thread_end_def sample_threads_def sample_trace_def upt_rec)

theorem server_within_budget_witness:
  "(\<Sum>j\<leftarrow>on_session sample_threads ''aiv-ses-t''. charged (thread_end sample_policy sample_threads sample_broker sample_trace j)) \<le>
     unat DEFAULT_BYTE_BUDGET \<and> on_session sample_threads ''aiv-ses-t'' = [0, 1]"
proof -
  have ok: "sessions_ok sample_broker"
    using broker_step_ok [of broker_new "Issue ''t'' 1 None"]
    by (simp add: sample_broker_def issue_session_def sessions_ok_def broker_new_def)
  have used: "session_used sample_broker ''aiv-ses-t'' = Some 0"
    by (simp add: sample_broker_def issue_session_def issue_session_bound_def session_token_def session_used_def Let_def)
  have "serve True [Some (sample_network, sample_input), None, Some (sample_network, sample_input)] = Inr sample_threads"
    by (simp add: serve_def sample_threads_def)
  moreover have "length (header_text h) < 2 ^ 32" if "secrets sample_policy host = Some h" for host h
    using that by (auto simp: sample_policy_def header_text_def crlf_def split: if_splits)
  moreover have "on_session sample_threads ''aiv-ses-t'' = [0, 1]"
    by (simp add: on_session_def sample_threads_def presents_def sample_read sample_token upt_rec)
  ultimately show ?thesis
    using server_within_budget [OF _ sample_server_run ok used] by (auto simp: sample_trace_def)
qed

end
