(* ===== verification/Turn_Tracker.thy ===== *)
theory Turn_Tracker
  imports Core
begin

text \<open>
  The crate \<^verbatim>\<open>aivisor-snapshot\<close>: the tracker of dirty turns (\<^verbatim>\<open>turn.rs\<close>), and the snapshot and checkpoint
  operations, which refuse (\<^verbatim>\<open>workspace.rs\<close>, \<^verbatim>\<open>criu.rs\<close>). The tracker is shown to refine its history:
  what it answers is what the events since the last beginning of a turn say.
\<close>

section \<open>The tracker\<close>

record TurnEntry =
  current_turn_id :: string
  dirty :: bool
  baseline_pids :: u64

type_synonym TurnTracker = "string \<Rightarrow> TurnEntry option"

definition tracker_new :: TurnTracker where
  "tracker_new = Map.empty"

definition tracker_begin :: "string \<Rightarrow> string \<Rightarrow> TurnTracker \<Rightarrow> TurnTracker" where
  "tracker_begin sandbox_id turn t = t(sandbox_id \<mapsto> \<lparr>current_turn_id = turn, dirty = False, baseline_pids = 0\<rparr>)"

text \<open>Ending a turn leaves the entry in place.\<close>

definition tracker_end :: "string \<Rightarrow> TurnTracker \<Rightarrow> bool \<times> TurnTracker" where
  "tracker_end sandbox_id t = (case t sandbox_id of Some st \<Rightarrow> (dirty st, t) | None \<Rightarrow> (True, t))"

definition mark_dirty :: "string \<Rightarrow> TurnTracker \<Rightarrow> TurnTracker" where
  "mark_dirty sandbox_id t = (case t sandbox_id of Some st \<Rightarrow> t(sandbox_id \<mapsto> st\<lparr>dirty := True\<rparr>) | None \<Rightarrow> t)"

definition is_dirty :: "string \<Rightarrow> TurnTracker \<Rightarrow> bool" where
  "is_dirty sandbox_id t = (case map_option dirty (t sandbox_id) of Some b \<Rightarrow> b | None \<Rightarrow> True)"

section \<open>Snapshots and checkpoints\<close>

definition workspace_create :: "string \<Rightarrow> error + string" where
  "workspace_create upper_dir = Inl (Unsupported ''workspace snapshot creation not implemented in this build'')"

definition workspace_restore :: "string \<Rightarrow> string \<Rightarrow> error + unit" where
  "workspace_restore snap target = Inl (Unsupported ''workspace snapshot restore not implemented in this build'')"

definition criu_checkpoint :: "int \<Rightarrow> string \<Rightarrow> error + unit" where
  "criu_checkpoint pid image_dir = Inl (Unsupported ''CRIU checkpoint in Phase 4'')"

definition criu_restore :: "string \<Rightarrow> error + int" where
  "criu_restore image_dir = Inl (Unsupported ''CRIU restore in Phase 4'')"

definition criu_check_available :: "error + bool" where
  "criu_check_available = Inr False"

section \<open>Refinement of the history\<close>

datatype tracker_event = Began string string | Marked string | Ended string

fun tracker_step :: "tracker_event \<Rightarrow> TurnTracker \<Rightarrow> TurnTracker" where
  "tracker_step (Began sid turn) t = tracker_begin sid turn t"
| "tracker_step (Marked sid) t = mark_dirty sid t"
| "tracker_step (Ended sid) t = snd (tracker_end sid t)"

definition tracker_run :: "tracker_event list \<Rightarrow> TurnTracker" where
  "tracker_run evs = fold tracker_step evs tracker_new"

text \<open>What a history says of a sandbox, newest event first: marked before the last beginning of a turn is found, or no turn ever begun.\<close>

fun dirty_since :: "string \<Rightarrow> tracker_event list \<Rightarrow> bool" where
  "dirty_since sid [] = True"
| "dirty_since sid (Began s turn # evs) = (if s = sid then False else dirty_since sid evs)"
| "dirty_since sid (Marked s # evs) = (s = sid \<or> dirty_since sid evs)"
| "dirty_since sid (Ended s # evs) = dirty_since sid evs"

lemma is_dirty_step: "is_dirty sid (tracker_step e t) \<longleftrightarrow>
   (case e of Began s turn \<Rightarrow> if s = sid then False else is_dirty sid t | Marked s \<Rightarrow> s = sid \<or> is_dirty sid t | Ended s \<Rightarrow> is_dirty sid t)"
  by (cases e) (auto simp: tracker_begin_def mark_dirty_def tracker_end_def is_dirty_def split: option.splits)

lemma tracker_end_dirty: "fst (tracker_end sid t) = is_dirty sid t"
  by (auto simp: tracker_end_def is_dirty_def split: option.splits)

text \<open>
  The tracker answers as its history says: a turn is clean only when it was begun and nothing was marked for this sandbox since; events of
  other sandboxes do not count, and an unknown sandbox counts as dirty.
\<close>

theorem tracker_refines_history:
  "is_dirty sid (tracker_run evs) = dirty_since sid (rev evs) \<and> fst (tracker_end sid (tracker_run evs)) = dirty_since sid (rev evs)"
proof -
  have "is_dirty sid (tracker_run evs) = dirty_since sid (rev evs)"
    by (induction evs rule: rev_induct)
       (simp_all add: tracker_run_def tracker_new_def is_dirty_step is_dirty_def [of _ Map.empty]
         split: tracker_event.splits)
  then show ?thesis by (simp add: tracker_end_dirty)
qed

end
