(* ===== verification/Seccomp.thy ===== *)
theory Seccomp
  imports Bpf_Wire
begin

text \<open>
  The seccomp profiles (\<^verbatim>\<open>aivisor-runtime/src/seccomp.rs\<close>): the classic BPF programs the child installs, an
  interpreter for the instructions they use, and the proof that the compiled programs decide as the
  tables they were built from.

  System call numbers come from the \<^verbatim>\<open>libc\<close> crate and differ per architecture; they are an argument
  \<^verbatim>\<open>SYS\<close> from names to numbers. Opcodes and return codes are those of the Linux system call interface.
\<close>

section \<open>Classic BPF\<close>

record sock_filter =
  sf_code :: u16
  sf_jt :: u8
  sf_jf :: u8
  sf_k :: u32

definition BPF_LD :: u32 where "BPF_LD = 0x00"
definition BPF_ABS :: u32 where "BPF_ABS = 0x20"
definition BPF_JMP :: u32 where "BPF_JMP = 0x05"
definition BPF_JEQ :: u32 where "BPF_JEQ = 0x10"
definition BPF_RET :: u32 where "BPF_RET = 0x06"

definition SECCOMP_RET_KILL_PROCESS :: u32 where "SECCOMP_RET_KILL_PROCESS = 0x80000000"
definition SECCOMP_RET_ERRNO :: u32 where "SECCOMP_RET_ERRNO = 0x00050000"
definition SECCOMP_RET_ALLOW :: u32 where "SECCOMP_RET_ALLOW = 0x7fff0000"

definition ENOSYS :: u32 where "ENOSYS = 38"

definition bpf_stmt :: "u32 \<Rightarrow> u32 \<Rightarrow> sock_filter" where
  "bpf_stmt code k = \<lparr>sf_code = ucast code, sf_jt = 0, sf_jf = 0, sf_k = k\<rparr>"

definition bpf_jump :: "u32 \<Rightarrow> u8 \<Rightarrow> u8 \<Rightarrow> u32 \<Rightarrow> sock_filter" where
  "bpf_jump code jt jf k = \<lparr>sf_code = ucast code, sf_jt = jt, sf_jf = jf, sf_k = k\<rparr>"

text \<open>
  The kernel's interpreter for the three instructions the profiles use: load a word of
  \<^verbatim>\<open>struct seccomp_data\<close>, compare the accumulator and skip, return. Anything else, and running off the end,
  has no result.
\<close>

function bpf_run :: "bytes \<Rightarrow> u32 \<Rightarrow> sock_filter list \<Rightarrow> u32 option" where
  "bpf_run data a [] = None"
| "bpf_run data a (i # is) =
     (if sf_code i = 0x20 then
        (if unat (sf_k i) + 4 \<le> length data then bpf_run data (u32_at data (unat (sf_k i))) is else None)
      else if sf_code i = 0x15 then
        bpf_run data a (drop (unat (if a = sf_k i then sf_jt i else sf_jf i)) is)
      else if sf_code i = 0x06 then Some (sf_k i)
      else None)"
  by pat_completeness auto
termination
  by (relation "measure (\<lambda>(_, _, is). length is)") auto

text \<open>\<^verbatim>\<open>struct seccomp_data\<close>: the number, the architecture, the instruction pointer and six arguments.\<close>

definition seccomp_data :: "u32 \<Rightarrow> u32 \<Rightarrow> u64 \<Rightarrow> u64 list \<Rightarrow> bytes" where
  "seccomp_data nr arch ip args = le_bytes 4 nr @ le_bytes 4 arch @ le_bytes 8 ip @ concat (map (le_bytes 8) args)"

section \<open>The profiles\<close>

definition arch_offset :: u32 where "arch_offset = 4"
definition nr_offset :: u32 where "nr_offset = 0"

definition AUDIT_ARCH_X86_64 :: u32 where "AUDIT_ARCH_X86_64 = 0xc000003e"
definition AUDIT_ARCH_AARCH64 :: u32 where "AUDIT_ARCH_AARCH64 = 0xc00000b7"

definition build_arch_check :: "u32 \<Rightarrow> sock_filter list" where
  "build_arch_check expected_arch =
     [bpf_stmt (BPF_LD OR BPF_ABS OR 0x20) arch_offset,
      bpf_jump (BPF_JMP OR BPF_JEQ) 1 0 expected_arch,
      bpf_stmt (BPF_RET OR 0x04) SECCOMP_RET_KILL_PROCESS]"

definition denied :: "(string \<times> u32) list" where
  "denied =
     [(''init_module'', SECCOMP_RET_KILL_PROCESS),
      (''finit_module'', SECCOMP_RET_KILL_PROCESS),
      (''delete_module'', SECCOMP_RET_KILL_PROCESS),
      (''kexec_load'', SECCOMP_RET_KILL_PROCESS),
      (''kexec_file_load'', SECCOMP_RET_KILL_PROCESS),
      (''bpf'', SECCOMP_RET_KILL_PROCESS),
      (''perf_event_open'', SECCOMP_RET_ERRNO OR 1),
      (''ptrace'', SECCOMP_RET_ERRNO OR 1),
      (''process_vm_readv'', SECCOMP_RET_ERRNO OR 1),
      (''process_vm_writev'', SECCOMP_RET_ERRNO OR 1),
      (''userfaultfd'', SECCOMP_RET_ERRNO OR ENOSYS),
      (''memfd_secret'', SECCOMP_RET_ERRNO OR ENOSYS),
      (''setns'', SECCOMP_RET_ERRNO OR 1),
      (''mount_setattr'', SECCOMP_RET_ERRNO OR 1),
      (''open_by_handle_at'', SECCOMP_RET_ERRNO OR 1),
      (''name_to_handle_at'', SECCOMP_RET_ERRNO OR 1),
      (''swapon'', SECCOMP_RET_ERRNO OR 1),
      (''swapoff'', SECCOMP_RET_ERRNO OR 1),
      (''pivot_root'', SECCOMP_RET_KILL_PROCESS),
      (''reboot'', SECCOMP_RET_KILL_PROCESS),
      (''iopl'', SECCOMP_RET_KILL_PROCESS),
      (''ioperm'', SECCOMP_RET_KILL_PROCESS),
      (''io_uring_setup'', SECCOMP_RET_ERRNO OR ENOSYS),
      (''clock_settime'', SECCOMP_RET_ERRNO OR 1),
      (''settimeofday'', SECCOMP_RET_ERRNO OR 1),
      (''adjtimex'', SECCOMP_RET_ERRNO OR 1),
      (''unshare'', SECCOMP_RET_ERRNO OR 1),
      (''keyctl'', SECCOMP_RET_ERRNO OR 1),
      (''add_key'', SECCOMP_RET_ERRNO OR 1),
      (''request_key'', SECCOMP_RET_ERRNO OR 1),
      (''pidfd_getfd'', SECCOMP_RET_ERRNO OR 1),
      (''personality'', SECCOMP_RET_ERRNO OR 1),
      (''move_pages'', SECCOMP_RET_ERRNO OR 1),
      (''fanotify_init'', SECCOMP_RET_ERRNO OR 1),
      (''seccomp'', SECCOMP_RET_ERRNO OR 1),
      (''acct'', SECCOMP_RET_KILL_PROCESS),
      (''quotactl'', SECCOMP_RET_ERRNO OR 1),
      (''nfsservctl'', SECCOMP_RET_ERRNO OR ENOSYS)]"

definition allow :: "string list" where
  "allow =
     [''read'', ''write'', ''openat'', ''close'', ''fstat'', ''newfstatat'', ''mmap'', ''mprotect'', ''munmap'',
      ''exit_group'', ''exit'', ''brk'', ''access'', ''faccessat2'', ''readlinkat'', ''getdents64'', ''getrandom'',
      ''clock_gettime'', ''nanosleep'', ''clone3'', ''madvise'', ''rt_sigaction'', ''rt_sigprocmask'',
      ''rt_sigreturn'', ''getpid'', ''gettid'', ''getppid'', ''getuid'', ''geteuid'', ''getgid'', ''getegid'',
      ''lseek'', ''dup'', ''dup3'', ''pipe2'', ''pselect6'', ''ppoll'', ''writev'', ''readv'', ''sched_yield'',
      ''prctl'', ''arch_prctl'', ''set_tid_address'', ''set_robust_list'', ''rseq'']"

text \<open>The loops over the tables push a comparison and a return for each entry.\<close>

definition match_entry :: "u32 \<Rightarrow> u32 \<Rightarrow> sock_filter list" where
  "match_entry nr action = [bpf_jump (BPF_JMP OR BPF_JEQ) 0 1 nr, bpf_stmt (BPF_RET OR 0x04) action]"

definition build_default_bpf :: "u32 \<Rightarrow> (string \<Rightarrow> int) \<Rightarrow> sock_filter list" where
  "build_default_bpf native SYS =
     build_arch_check native @ [bpf_stmt (BPF_LD OR BPF_ABS OR 0x20) nr_offset] @
     concat (map (\<lambda>(nr, action). match_entry (of_int (SYS nr)) action) denied) @
     [bpf_stmt (BPF_RET OR 0x04) SECCOMP_RET_ALLOW]"

definition build_strict_bpf :: "u32 \<Rightarrow> (string \<Rightarrow> int) \<Rightarrow> sock_filter list" where
  "build_strict_bpf native SYS =
     build_arch_check native @ [bpf_stmt (BPF_LD OR BPF_ABS OR 0x20) nr_offset] @
     concat (map (\<lambda>nr. match_entry (of_int (SYS nr)) SECCOMP_RET_ALLOW) allow) @
     [bpf_stmt (BPF_RET OR 0x04) SECCOMP_RET_KILL_PROCESS]"

text \<open>
  What a task has installed, and the answers of the two system calls of \<^verbatim>\<open>install_filter\<close>. A task runs under
  all the filters installed; the length goes to the kernel as a \<^verbatim>\<open>u16\<close>, which reads that many instructions.
\<close>

record seccomp_kernel =
  no_new_privs_ok :: bool
  set_filter_ok :: bool

definition install_filter :: "seccomp_kernel \<Rightarrow> sock_filter list \<Rightarrow> sock_filter list list \<Rightarrow> (error + unit) \<times> sock_filter list list" where
  "install_filter K filt installed =
     (let len = (of_nat (length filt) :: u16)
      in if \<not> no_new_privs_ok K then (Inl (LaunchFailed ''PR_SET_NO_NEW_PRIVS''), installed)
         else if \<not> set_filter_ok K then (Inl (LaunchFailed ''seccomp''), installed)
         else (Inr (), take (unat len) filt # installed))"

definition PROFILE_DEFAULT :: string where "PROFILE_DEFAULT = ''aivisor-default''"
definition PROFILE_STRICT :: string where "PROFILE_STRICT = ''aivisor-strict''"

definition apply_default_filter where
  "apply_default_filter native SYS K installed = install_filter K (build_default_bpf native SYS) installed"

definition apply_strict_filter where
  "apply_strict_filter native SYS K installed = install_filter K (build_strict_bpf native SYS) installed"

definition apply_seccomp ::
    "u32 \<Rightarrow> (string \<Rightarrow> int) \<Rightarrow> seccomp_kernel \<Rightarrow> string \<Rightarrow> sock_filter list list \<Rightarrow> (error + unit) \<times> sock_filter list list" where
  "apply_seccomp native SYS K profile installed =
     (if profile = PROFILE_DEFAULT then apply_default_filter native SYS K installed
      else if profile = PROFILE_STRICT then apply_strict_filter native SYS K installed
      else (Inl (LaunchFailed ''unknown seccomp profile''), installed))"

section \<open>The programs decide as their tables\<close>

lemma seccomp_data_fields [simp]:
  "u32_at (seccomp_data nr arch ip args) 0 = nr" "u32_at (seccomp_data nr arch ip args) 4 = arch"
  "4 \<le> length (seccomp_data nr arch ip args)" "8 \<le> length (seccomp_data nr arch ip args)"
  by (simp_all add: u32_at_def seccomp_data_def)

lemmas bpf_code = bpf_stmt_def bpf_jump_def BPF_LD_def BPF_ABS_def BPF_JMP_def BPF_JEQ_def BPF_RET_def

lemma run_ret [simp]: "bpf_run data a (bpf_stmt (BPF_RET OR 0x04) k # is) = Some k"
  by (simp add: bpf_code)

lemma run_entry [simp]:
  "bpf_run data a (match_entry nr action @ is) = (if a = nr then Some action else bpf_run data a is)"
  by (simp add: match_entry_def bpf_code)

lemma run_entries:
  "bpf_run data a (concat (map (\<lambda>x. match_entry (f x) (g x)) xs) @ is) =
     (case map_of (map (\<lambda>x. (f x, g x)) xs) a of Some action \<Rightarrow> Some action | None \<Rightarrow> bpf_run data a is)"
  by (induction xs) auto

lemma run_prologue:
  "bpf_run (seccomp_data nr arch ip args) a
     (build_arch_check native @ [bpf_stmt (BPF_LD OR BPF_ABS OR 0x20) nr_offset] @ is) =
   (if arch = native then bpf_run (seccomp_data nr arch ip args) nr is else Some SECCOMP_RET_KILL_PROCESS)"
  by (simp add: build_arch_check_def bpf_code arch_offset_def nr_offset_def)

declare bpf_run.simps(2) [simp del]

text \<open>The decision of a profile, without instructions: kill foreign architectures, then the first table entry
  with the system call's number, then the default.\<close>

definition seccomp_decision :: "u32 \<Rightarrow> (string \<Rightarrow> int) \<Rightarrow> string \<Rightarrow> u32 \<Rightarrow> u32 \<Rightarrow> u32" where
  "seccomp_decision native SYS profile nr arch =
     (if arch \<noteq> native then SECCOMP_RET_KILL_PROCESS
      else if profile = PROFILE_DEFAULT then
        (case List.find (\<lambda>(s, _). of_int (SYS s) = nr) denied of
           Some (_, action) \<Rightarrow> action
         | None \<Rightarrow> SECCOMP_RET_ALLOW)
      else if list_ex (\<lambda>s. of_int (SYS s) = nr) allow then SECCOMP_RET_ALLOW
      else SECCOMP_RET_KILL_PROCESS)"

lemma map_of_find: "map_of (map (\<lambda>x. (f x, g x)) xs) a = map_option g (List.find (\<lambda>x. f x = a) xs)"
  by (induction xs) auto

lemma run_default:
  "bpf_run (seccomp_data nr arch ip args) a (build_default_bpf native SYS) =
     Some (seccomp_decision native SYS PROFILE_DEFAULT nr arch)"
proof -
  have "bpf_run data nr (concat (map (\<lambda>(s, action). match_entry (of_int (SYS s)) action) denied) @
      [bpf_stmt (BPF_RET OR 0x04) SECCOMP_RET_ALLOW]) =
    Some (case List.find (\<lambda>(s, _). of_int (SYS s) = nr) denied of Some (_, action) \<Rightarrow> action | None \<Rightarrow> SECCOMP_RET_ALLOW)"
    for data
    using run_entries [of data nr "\<lambda>x. of_int (SYS (fst x))" snd denied "[bpf_stmt (BPF_RET OR 0x04) SECCOMP_RET_ALLOW]"]
    by (simp add: map_of_find case_prod_beta' split: option.splits)
  then show ?thesis
    using run_prologue [of nr arch ip args a native] by (simp add: build_default_bpf_def seccomp_decision_def)
qed

lemma list_ex_find: "list_ex P xs \<longleftrightarrow> List.find P xs \<noteq> None"
  by (auto simp: find_None_iff list_ex_iff)

lemma run_strict:
  "bpf_run (seccomp_data nr arch ip args) a (build_strict_bpf native SYS) =
     Some (seccomp_decision native SYS PROFILE_STRICT nr arch)"
proof -
  have "bpf_run data nr (concat (map (\<lambda>s. match_entry (of_int (SYS s)) SECCOMP_RET_ALLOW) allow) @
      [bpf_stmt (BPF_RET OR 0x04) SECCOMP_RET_KILL_PROCESS]) =
    Some (if list_ex (\<lambda>s. of_int (SYS s) = nr) allow then SECCOMP_RET_ALLOW else SECCOMP_RET_KILL_PROCESS)" for data
    using run_entries [of data nr "\<lambda>s. of_int (SYS s)" "\<lambda>_. SECCOMP_RET_ALLOW" allow
        "[bpf_stmt (BPF_RET OR 0x04) SECCOMP_RET_KILL_PROCESS]"]
    by (cases "List.find (\<lambda>s. of_int (SYS s) = nr) allow") (simp_all add: map_of_find list_ex_find)
  then show ?thesis
    using run_prologue [of nr arch ip args a native]
    by (simp add: build_strict_bpf_def seccomp_decision_def PROFILE_STRICT_def PROFILE_DEFAULT_def)
qed

lemma filter_lengths:
  "length (build_default_bpf native SYS) = 81" "length (build_strict_bpf native SYS) = 95"
  by (simp_all add: build_default_bpf_def build_strict_bpf_def build_arch_check_def denied_def allow_def match_entry_def)

lemma install_filter_whole:
  "length filt < 2 ^ 16 \<Longrightarrow>
   install_filter K filt inst =
     (if \<not> no_new_privs_ok K then (Inl (LaunchFailed ''PR_SET_NO_NEW_PRIVS''), inst)
      else if \<not> set_filter_ok K then (Inl (LaunchFailed ''seccomp''), inst) else (Inr (), filt # inst))"
  by (simp add: install_filter_def unsigned_of_nat take_bit_nat_eq_self Let_def)

text \<open>
  C40. The seccomp programs implement their tables. Applying a profile either fails and installs nothing (an
  unknown profile, or a refused system call), or installs one program, whole, and that program gives a
  result for every system call of every architecture: kill for an architecture other than the native one,
  otherwise the action of the first entry that names the call's number, otherwise the profile's default.
\<close>
theorem seccomp_filters_exact:
  assumes "apply_seccomp native SYS K profile installed = (r, installed')"
  shows "case r of
      Inl _ \<Rightarrow> installed' = installed
    | Inr _ \<Rightarrow> \<exists>prog. installed' = prog # installed \<and>
        bpf_run (seccomp_data nr arch ip args) 0 prog = Some (seccomp_decision native SYS profile nr arch)"
  using assms
  by (auto simp: apply_seccomp_def apply_default_filter_def apply_strict_filter_def install_filter_whole filter_lengths
      run_default run_strict PROFILE_DEFAULT_def PROFILE_STRICT_def split: if_splits)

theorem seccomp_filters_exact_witness:
  "\<exists>prog. snd (apply_seccomp AUDIT_ARCH_X86_64 (\<lambda>s. if s = ''bpf'' then 321 else 7) \<lparr>no_new_privs_ok = True, set_filter_ok = True\<rparr>
       PROFILE_DEFAULT []) = [prog] \<and>
     bpf_run (seccomp_data 321 AUDIT_ARCH_X86_64 0 []) 0 prog =
       Some (seccomp_decision AUDIT_ARCH_X86_64 (\<lambda>s. if s = ''bpf'' then 321 else 7) PROFILE_DEFAULT 321 AUDIT_ARCH_X86_64)"
proof -
  let ?a = "apply_seccomp AUDIT_ARCH_X86_64 (\<lambda>s. if s = ''bpf'' then 321 else 7)
      \<lparr>no_new_privs_ok = True, set_filter_ok = True\<rparr> PROFILE_DEFAULT []"
  have ok: "?a = (Inr (), snd ?a)"
    by (simp add: apply_seccomp_def apply_default_filter_def install_filter_whole filter_lengths)
  from seccomp_filters_exact [OF ok, of 321 AUDIT_ARCH_X86_64 0 "[]"] show ?thesis by simp
qed

section \<open>What the tables leave open\<close>

text \<open>
  The x32 variant of a denied system call is allowed. On x86-64 the kernel reports the native architecture
  for the x32 interface and sets bit 30 of the number; the numbers of the table do not have that bit, so the
  default profile answers with its default, although the architecture check is meant to reject x32.
\<close>
theorem x32_syscalls_pass:
  assumes "\<And>s. 0 \<le> SYS s \<and> SYS s < 2 ^ 30"
  shows "seccomp_decision native SYS PROFILE_DEFAULT (of_int (SYS s) OR 0x40000000) native = SECCOMP_RET_ALLOW"
proof -
  have "of_int (SYS t) \<noteq> (of_int (SYS s) OR 0x40000000 :: u32)" for t
  proof
    assume "of_int (SYS t) = (of_int (SYS s) OR 0x40000000 :: u32)"
    then have "bit (of_int (SYS t) :: u32) 30" by (simp add: bit_simps)
    then have "bit (SYS t) 30" by (simp add: bit_of_int_iff)
    moreover have "SYS t = take_bit 30 (SYS t)" using assms [of t] by (simp add: take_bit_int_eq_self)
    ultimately show False by (metis bit_take_bit_iff less_irrefl)
  qed
  then have "List.find (\<lambda>(x, _). of_int (SYS x) = (of_int (SYS s) OR 0x40000000 :: u32)) denied = None"
    by (simp add: find_None_iff case_prod_beta)
  then show ?thesis by (simp add: seccomp_decision_def)
qed

theorem x32_syscalls_pass_witness:
  "seccomp_decision AUDIT_ARCH_X86_64 (\<lambda>s. if s = ''bpf'' then 321 else 7) PROFILE_DEFAULT 0x40000141 AUDIT_ARCH_X86_64
     = SECCOMP_RET_ALLOW"
  using x32_syscalls_pass [of "\<lambda>s. if s = ''bpf'' then 321 else 7" AUDIT_ARCH_X86_64 "''bpf''"] by simp

text \<open>The strict profile allows none of the calls the child still makes after installing it: changing to the
  unprivileged user and executing the command.\<close>

theorem strict_profile_kills_launch:
  assumes "\<And>s t. (of_int (SYS s) :: u32) = of_int (SYS t) \<longleftrightarrow> s = t"
    and "s = ''execve'' \<or> s = ''setresuid'' \<or> s = ''setresgid'' \<or> s = ''capset''"
  shows "seccomp_decision native SYS PROFILE_STRICT (of_int (SYS s)) native = SECCOMP_RET_KILL_PROCESS"
  using assms(2)
  by (auto simp: seccomp_decision_def assms(1) allow_def PROFILE_STRICT_def PROFILE_DEFAULT_def)

end
