(* ===== verification/Exec_Identity.thy ===== *)
theory Exec_Identity
  imports Bpf_Manager
begin

text \<open>
  How executables are identified to the exec hook (\<^verbatim>\<open>aivisor-runtime/src/launcher.rs\<close>): the parser of
  \<^verbatim>\<open>mountinfo\<close>, the most specific mount that covers a path, the identities the child collects inside its
  own namespace and those the daemon resolves through \<^verbatim>\<open>/proc/<pid>/root\<close>; and the framing of the messages
  between the two processes. The file system and the JSON encoder are arguments.
\<close>

section \<open>The mount table\<close>

definition parse_mount_line :: "string \<Rightarrow> (string \<times> u64) option" where
  "parse_mount_line line =
     (case split_whitespace line of
        _ # _ # dev # _ # point # _ \<Rightarrow>
          (case split_once CHR '':'' dev of
             None \<Rightarrow> None
           | Some (major, minor) \<Rightarrow>
               (case (parse_uint 64 major, parse_uint 64 minor) of
                  (Some ma, Some mi) \<Rightarrow> Some (point, push_bit 20 (of_nat ma) OR of_nat mi)
                | _ \<Rightarrow> None))
      | _ \<Rightarrow> None)"

definition mount_entries :: "string \<Rightarrow> (string \<times> u64) list" where
  "mount_entries raw = List.map_filter parse_mount_line (str_lines raw)"

text \<open>\<^verbatim>\<open>sort_by_key(Reverse(point.len()))\<close> is stable, as \<^const>\<open>sort_key\<close> is.\<close>

definition parse_mount_devices :: "string \<Rightarrow> (string \<times> u64) list" where
  "parse_mount_devices raw = sort_key (\<lambda>m. - int (length (fst m))) (mount_entries raw)"

definition device_for_path :: "(string \<times> u64) list \<Rightarrow> string \<Rightarrow> string + u64" where
  "device_for_path mounts path =
     (case List.find (\<lambda>(point, _).
              path = point \<or>
              starts_with path point \<and>
                (point = ''/'' \<or> (length point < length path \<and> path ! length point = CHR ''/''))) mounts of
        Some (_, dev) \<Rightarrow> Inr dev
      | None \<Rightarrow> Inl ''no mount covers'')"

section \<open>Identities\<close>

fun dir_identities :: "u64 \<Rightarrow> metadata option option list \<Rightarrow> string + ExecIdentity list" where
  "dir_identities dev [] = Inr []"
| "dir_identities dev (None # es) = Inl ''read exec prefix''"
| "dir_identities dev (Some None # es) = dir_identities dev es"
| "dir_identities dev (Some (Some md) # es) =
     (if md_is_file md \<and> md_mode md AND 0x49 \<noteq> 0
      then rbind (dir_identities dev es) (\<lambda>out. Inr (\<lparr>ei_dev = dev, ei_inode = md_ino md\<rparr> # out))
      else dir_identities dev es)"

definition path_identity :: "host \<Rightarrow> (string \<times> u64) list \<Rightarrow> string \<Rightarrow> string + ExecIdentity" where
  "path_identity H mounts path =
     rbind (ok_or ''stat allowlisted executable inside sandbox'' (stat H path)) (\<lambda>meta.
     rbind (device_for_path mounts path) (\<lambda>dev. Inr \<lparr>ei_dev = dev, ei_inode = md_ino meta\<rparr>))"

definition prefix_identities :: "host \<Rightarrow> (string \<times> u64) list \<Rightarrow> string \<Rightarrow> string + ExecIdentity list" where
  "prefix_identities H mounts prefix =
     rbind (device_for_path mounts prefix) (\<lambda>dev.
     rbind (ok_or ''read exec prefix inside sandbox'' (read_dir H prefix)) (dir_identities dev))"

text \<open>\<^verbatim>\<open>collect_exec_identities\<close> runs in the child: \<^verbatim>\<open>H\<close> is its own view and \<^verbatim>\<open>mountinfo\<close> its own table.\<close>

definition collect_exec_identities ::
    "host \<Rightarrow> string option \<Rightarrow> string list \<Rightarrow> string list \<Rightarrow> string + ExecIdentity list" where
  "collect_exec_identities H mountinfo paths prefixes =
     (if paths = [] \<and> prefixes = [] then Inr []
      else rbind (ok_or ''read /proc/self/mountinfo'' mountinfo) (\<lambda>raw.
        let mounts = parse_mount_devices raw
        in rbind (traverse (path_identity H mounts) paths) (\<lambda>out.
           rbind (traverse (prefix_identities H mounts) prefixes) (\<lambda>outs. Inr (out @ concat outs)))))"

definition in_sandbox :: "nat \<Rightarrow> string \<Rightarrow> string" where
  "in_sandbox pid path = ''/proc/'' @ show_uint pid @ ''/root'' @ path"

definition path_identity_via :: "host \<Rightarrow> nat \<Rightarrow> (string \<times> u64) list \<Rightarrow> string \<Rightarrow> string + ExecIdentity" where
  "path_identity_via H pid mounts path =
     rbind (ok_or ''stat inside sandbox'' (stat H (in_sandbox pid path))) (\<lambda>meta.
     rbind (device_for_path mounts path) (\<lambda>dev. Inr \<lparr>ei_dev = dev, ei_inode = md_ino meta\<rparr>))"

definition prefix_identities_via :: "host \<Rightarrow> nat \<Rightarrow> (string \<times> u64) list \<Rightarrow> string \<Rightarrow> string + ExecIdentity list" where
  "prefix_identities_via H pid mounts prefix =
     rbind (device_for_path mounts prefix) (\<lambda>dev.
     rbind (ok_or ''read exec prefix inside sandbox'' (read_dir H (in_sandbox pid prefix))) (dir_identities dev))"

text \<open>\<^verbatim>\<open>resolve_exec_identities_via_pid\<close> runs in the daemon: \<^verbatim>\<open>H\<close> is the host's view and \<^verbatim>\<open>mountinfo\<close> the table
  of the task \<^verbatim>\<open>pid\<close>, absent when that task is gone.\<close>

definition resolve_exec_identities_via_pid ::
    "host \<Rightarrow> (nat \<Rightarrow> string option) \<Rightarrow> nat \<Rightarrow> string list \<Rightarrow> string list \<Rightarrow> string + ExecIdentity list" where
  "resolve_exec_identities_via_pid H mountinfo pid paths prefixes =
     (if paths = [] \<and> prefixes = [] then Inr []
      else rbind (ok_or ''read mountinfo - is the sandbox still running?'' (mountinfo pid)) (\<lambda>raw.
        let mounts = parse_mount_devices raw
        in rbind (traverse (path_identity_via H pid mounts) paths) (\<lambda>out.
           rbind (traverse (prefix_identities_via H pid mounts) prefixes) (\<lambda>outs. Inr (out @ concat outs)))))"

section \<open>Messages from the child\<close>

datatype ChildMsg = ReadyMsg "ExecIdentity list" | ErrorMsg string | ExitedMsg int

definition send_msg :: "(ChildMsg \<Rightarrow> bytes) \<Rightarrow> ChildMsg \<Rightarrow> bytes" where
  "send_msg to_vec msg = (let bs = to_vec msg in le_bytes 4 (of_nat (length bs) :: u32) @ bs)"

definition read_exact :: "nat \<Rightarrow> bytes \<Rightarrow> (bytes \<times> bytes) option" where
  "read_exact n s = (if length s < n then None else Some (take n s, drop n s))"

definition recv_msg :: "(bytes \<Rightarrow> ChildMsg option) \<Rightarrow> bytes \<Rightarrow> error + ChildMsg \<times> bytes" where
  "recv_msg from_slice s =
     rbind (ok_or (LaunchFailed ''child recv (len)'') (read_exact 4 s)) (\<lambda>(len_buf, s).
       let len = unat (of_le_bytes len_buf :: u32)
       in if len > 2 ^ 20 then Inl (LaunchFailed ''child message too large'')
          else rbind (ok_or (LaunchFailed ''child recv (body)'') (read_exact len s)) (\<lambda>(buf, s).
            rbind (ok_or (LaunchFailed ''child msg parse'') (from_slice buf)) (\<lambda>msg. Inr (msg, s))))"

section \<open>The most specific mount\<close>

text \<open>A mount point covers itself and the paths below it.\<close>

definition covers_path :: "string \<Rightarrow> string \<Rightarrow> bool" where
  "covers_path point path \<longleftrightarrow> path = point \<or> (\<exists>rest. path = point @ rest \<and> (point = ''/'' \<or> (\<exists>r. rest = CHR ''/'' # r)))"

lemma covers_path_test:
  "(path = point \<or> starts_with path point \<and>
      (point = ''/'' \<or> (length point < length path \<and> path ! length point = CHR ''/''))) \<longleftrightarrow> covers_path point path"
proof -
  have "(\<exists>r. rest = CHR ''/'' # r) \<longleftrightarrow> rest \<noteq> [] \<and> (point @ rest) ! length point = CHR ''/''" for rest
    by (cases rest) (auto simp: nth_append)
  then show ?thesis by (auto simp: covers_path_def starts_with_iff)
qed

lemma find_sorted_key:
  assumes "List.find P (sort_key k xs) = Some x"
  shows "x \<in> set xs \<and> P x \<and> (\<forall>y\<in>set xs. P y \<longrightarrow> k x \<le> k y)"
proof -
  let ?ys = "sort_key k xs"
  obtain i where i: "i < length ?ys" "P (?ys ! i)" "x = ?ys ! i" "\<forall>j<i. \<not> P (?ys ! j)"
    using assms by (auto simp: find_Some_iff)
  have "k x \<le> k y" if "y \<in> set xs" "P y" for y
  proof -
    obtain j where j: "j < length ?ys" "y = ?ys ! j" using \<open>y \<in> set xs\<close> by (metis in_set_conv_nth set_sort)
    then have "i \<le> j" using i(4) \<open>P y\<close> by (metis not_le)
    then show ?thesis
      using j i sorted_nth_mono [OF sorted_sort_key, of i j k xs] by simp
  qed
  moreover have "x \<in> set xs" using i by (metis nth_mem set_sort)
  ultimately show ?thesis using i by blast
qed

lemma covers_path_prefix: "covers_path p path \<Longrightarrow> \<exists>rest. path = p @ rest"
  by (auto simp: covers_path_def)

lemma covering_same_length:
  "covers_path p path \<Longrightarrow> covers_path q path \<Longrightarrow> length p = length q \<Longrightarrow> p = q"
  by (drule covers_path_prefix)+ auto

text \<open>
  A path is attributed to the device of the most specific mount that covers it. The lookup fails exactly when
  no mount of the table covers the path; otherwise it answers with the device of a covering mount, no covering
  mount point is longer, and any other mount point of that length that covers the path is the same mount point.
\<close>
theorem device_for_path_most_specific:
  "case device_for_path (parse_mount_devices raw) path of
     Inl _ \<Rightarrow> filter (\<lambda>m. covers_path (fst m) path) (mount_entries raw) = []
   | Inr dev \<Rightarrow> (\<exists>point. (point, dev) \<in> set (mount_entries raw) \<and> covers_path point path \<and>
       filter (\<lambda>m. covers_path (fst m) path \<and> length point \<le> length (fst m) \<and> fst m \<noteq> point) (mount_entries raw) = [])"
proof -
  let ?P = "\<lambda>m. covers_path (fst m) path"
  have eq: "device_for_path (parse_mount_devices raw) path =
      (case List.find ?P (parse_mount_devices raw) of Some (_, dev) \<Rightarrow> Inr dev | None \<Rightarrow> Inl ''no mount covers'')"
    by (simp add: device_for_path_def covers_path_test case_prod_beta')
  show ?thesis
  proof (cases "List.find ?P (parse_mount_devices raw)")
    case None
    then have "filter ?P (mount_entries raw) = []" by (auto simp: find_None_iff parse_mount_devices_def filter_empty_conv)
    then show ?thesis by (simp add: eq None)
  next
    case (Some m)
    obtain point dev where m: "m = (point, dev)" by force
    have f: "(point, dev) \<in> set (mount_entries raw)" "covers_path point path"
        "\<forall>y\<in>set (mount_entries raw). covers_path (fst y) path \<longrightarrow> length (fst y) \<le> length point"
      using find_sorted_key [OF Some [unfolded parse_mount_devices_def]] by (auto simp: m)
    have "q = point \<or> length q < length point" if "(q, d) \<in> set (mount_entries raw)" "covers_path q path" for q d
      using f(2,3) that covering_same_length [of q path point] by fastforce
    then have "filter (\<lambda>m. covers_path (fst m) path \<and> length point \<le> length (fst m) \<and> fst m \<noteq> point) (mount_entries raw) = []"
      by (force simp: filter_empty_conv)
    then show ?thesis using f(1,2) by (auto simp: eq Some m)
  qed
qed

section \<open>Both ways to the same identities\<close>

text \<open>Results up to the wording of the error.\<close>

definition same_result :: "string + 'a \<Rightarrow> string + 'a \<Rightarrow> bool" where
  "same_result x y \<longleftrightarrow> (case (x, y) of (Inr a, Inr b) \<Rightarrow> a = b | (Inl _, Inl _) \<Rightarrow> True | _ \<Rightarrow> False)"

lemma same_result_simps [simp]:
  "same_result (Inr a) (Inr b) \<longleftrightarrow> a = b" "same_result (Inl e) (Inl e')"
  "\<not> same_result (Inl e) (Inr b)" "\<not> same_result (Inr a) (Inl e')" "same_result x x"
  by (auto simp: same_result_def split: sum.split)

lemma same_result_rbind:
  "same_result x y \<Longrightarrow> (\<And>a. same_result (f a) (g a)) \<Longrightarrow> same_result (rbind x f) (rbind y g)"
  by (cases x; cases y) auto

lemma same_result_traverse:
  "(\<And>x. same_result (f x) (g x)) \<Longrightarrow> same_result (traverse f xs) (traverse g xs)"
  by (induction xs) (auto intro!: same_result_rbind)

lemma same_result_ok_or [simp]: "same_result (ok_or e x) (ok_or e' x)"
  by (cases x) auto

text \<open>
  The daemon resolves the identities the child would report. When \<^verbatim>\<open>/proc/<pid>/root\<close> shows the host the
  file system the child sees and \<^verbatim>\<open>/proc/<pid>/mountinfo\<close> the child's mount table, resolving through a live
  task gives the same identities, in the same order, as collecting them inside the sandbox, and fails when
  that fails; when the task is gone it fails and never answers from the host's own files.
\<close>
theorem identities_via_pid_agree:
  assumes "\<And>p. stat H (in_sandbox pid p) = stat child p"
    and "\<And>p. read_dir H (in_sandbox pid p) = read_dir child p"
  shows "same_result (resolve_exec_identities_via_pid H mountinfo pid paths prefixes)
      (collect_exec_identities child (mountinfo pid) paths prefixes) \<and>
    (mountinfo pid = None \<and> paths \<noteq> [] \<longrightarrow> isl (resolve_exec_identities_via_pid H mountinfo pid paths prefixes))"
proof -
  have p: "same_result (path_identity_via H pid mounts x) (path_identity child mounts x)" for mounts x
    unfolding path_identity_via_def path_identity_def by (intro same_result_rbind) (simp_all add: assms)
  have q: "same_result (prefix_identities_via H pid mounts x) (prefix_identities child mounts x)" for mounts x
    unfolding prefix_identities_via_def prefix_identities_def by (intro same_result_rbind) (simp_all add: assms)
  show ?thesis
    unfolding resolve_exec_identities_via_pid_def collect_exec_identities_def Let_def
    by (auto intro!: same_result_rbind same_result_traverse p q)
qed

definition sample_child_host :: host where
  "sample_child_host =
     \<lparr>read_dir = (\<lambda>_. None), stat = (\<lambda>p. if p = ''/proc/5/root/a'' \<or> p = ''/a''
        then Some \<lparr>md_is_file = True, md_mode = 0x1ed, md_dev = 1, md_ino = 9\<rparr> else None),
      read_file = (\<lambda>_. None), sha256 = id, dev_major = id, dev_minor = id\<rparr>"

theorem identities_via_pid_agree_witness:
  "same_result
     (resolve_exec_identities_via_pid (sample_child_host\<lparr>stat := (\<lambda>p. stat sample_child_host (drop 12 p))\<rparr>) (\<lambda>_. None) 5 [''/a''] [])
     (collect_exec_identities sample_child_host None [''/a''] [])"
proof -
  have "drop 12 (in_sandbox 5 p) = p" for p
    by (simp add: in_sandbox_def show_uint.simps)
  then show ?thesis
    using identities_via_pid_agree [of "sample_child_host\<lparr>stat := (\<lambda>p. stat sample_child_host (drop 12 p))\<rparr>" 5
        sample_child_host "\<lambda>_. None" "[''/a'']" "[]"]
    by (simp add: sample_child_host_def)
qed

section \<open>Framing\<close>

text \<open>Whatever follows on the stream, a message of at most a mebibyte is received as it was sent; a longer
  one is refused before its body is read.\<close>

lemma recv_send_msg:
  assumes "from_slice (to_vec msg) = Some msg" and "length (to_vec msg) < 2 ^ 32"
  shows "recv_msg from_slice (send_msg to_vec msg @ rest) =
    (if length (to_vec msg) \<le> 2 ^ 20 then Inr (msg, rest) else Inl (LaunchFailed ''child message too large''))"
  using assms
  by (simp add: recv_msg_def send_msg_def read_exact_def Let_def unsigned_of_nat take_bit_nat_eq_self)

end
