(* ===== verification/Child_Setup.thy ===== *)
theory Child_Setup
  imports Seccomp Exec_Identity
begin

text \<open>
  What the child of a launch does to itself before it runs the command: credentials and capabilities
  (\<^verbatim>\<open>caps.rs\<close>), the mount tree and \<^verbatim>\<open>pivot_root\<close> (\<^verbatim>\<open>launcher.rs\<close>, \<^verbatim>\<open>rootfs.rs\<close>), Landlock (\<^verbatim>\<open>landlock.rs\<close>)
  and seccomp. Every system call may fail, as decided by the kernel argument at each call, and is
  subject to the seccomp programs installed by then. The lemmas show that a child that gets through holds
  every restriction its policy asks for.
\<close>

section \<open>The task and its system calls\<close>

text \<open>One \<^verbatim>\<open>mount(2)\<close>: null pointers are \<^const>\<open>None\<close>, the flags are named. Capability sets are 64-bit masks.\<close>

record mount_call =
  mc_source :: "string option"
  mc_target :: string
  mc_fstype :: "string option"
  mc_flags :: "string list"
  mc_data :: "string option"

record task =
  t_clock :: nat
  t_uid :: "u32 option"
  t_gid :: "u32 option"
  t_nnp :: bool
  t_private :: bool
  t_mounts :: "mount_call list"
  t_root :: "string option"
  t_old_root :: bool
  t_cwd :: string
  t_effective :: u64
  t_permitted :: u64
  t_inheritable :: u64
  t_bounding :: u64
  t_ambient :: u64
  t_ruleset :: "(u64 \<times> (string \<times> u64) list) option"
  t_landlock :: "(u64 \<times> (string \<times> u64) list) option"
  t_seccomp :: "sock_filter list list"
  t_exec :: "(string \<times> string list \<times> string list) option"

text \<open>The kernel: its system call table and native architecture, which calls fail, the highest capability it
  knows, and whether it has ambient capabilities.\<close>

record launch_kernel =
  lk_native :: u32
  lk_sys :: "string \<Rightarrow> int"
  lk_fails :: "nat \<Rightarrow> bool"
  lk_last_cap :: nat
  lk_ambient :: bool

definition filters_allow :: "launch_kernel \<Rightarrow> task \<Rightarrow> string \<Rightarrow> bool" where
  "filters_allow K t s =
     list_all (\<lambda>p. bpf_run (seccomp_data (of_int (lk_sys K s)) (lk_native K) 0 []) 0 p = Some SECCOMP_RET_ALLOW) (t_seccomp t)"

definition syscall :: "launch_kernel \<Rightarrow> string \<Rightarrow> string \<Rightarrow> (task \<Rightarrow> task) \<Rightarrow> task \<Rightarrow> (string + unit) \<times> task" where
  "syscall K s msg eff t =
     (let t' = t\<lparr>t_clock := Suc (t_clock t)\<rparr>
      in if \<not> filters_allow K t s \<or> lk_fails K (t_clock t) then (Inl msg, t') else (Inr (), eff t'))"

section \<open>Capabilities and credentials\<close>

definition become_namespace_root :: "launch_kernel \<Rightarrow> task \<Rightarrow> (string + unit) \<times> task" where
  "become_namespace_root K =
     sbind (syscall K ''setresgid'' ''setresgid(0,0,0)'' (\<lambda>t. t\<lparr>t_gid := Some 0\<rparr>)) (\<lambda>_.
       syscall K ''setresuid'' ''setresuid(0,0,0)'' (\<lambda>t. t\<lparr>t_uid := Some 0\<rparr>))"

definition set_no_new_privs :: "launch_kernel \<Rightarrow> task \<Rightarrow> (string + unit) \<times> task" where
  "set_no_new_privs K = syscall K ''prctl'' ''PR_SET_NO_NEW_PRIVS'' (\<lambda>t. t\<lparr>t_nnp := True\<rparr>)"

text \<open>A kernel without ambient capabilities answers \<^verbatim>\<open>EINVAL\<close>, which is tolerated.\<close>

definition clear_ambient :: "launch_kernel \<Rightarrow> task \<Rightarrow> (string + unit) \<times> task" where
  "clear_ambient K =
     (if lk_ambient K then syscall K ''prctl'' ''PR_CAP_AMBIENT_CLEAR_ALL'' (\<lambda>t. t\<lparr>t_ambient := 0\<rparr>) else sreturn ())"

definition CAP_PROBE_CEILING :: nat where "CAP_PROBE_CEILING = 63"

text \<open>\<^verbatim>\<open>PR_CAPBSET_DROP\<close> of a capability the kernel does not know answers \<^verbatim>\<open>EINVAL\<close>, which is tolerated.\<close>

definition capbset_drop :: "launch_kernel \<Rightarrow> nat \<Rightarrow> task \<Rightarrow> (string + unit) \<times> task" where
  "capbset_drop K cap =
     (if cap > lk_last_cap K then sreturn ()
      else syscall K ''prctl'' ''PR_CAPBSET_DROP'' (\<lambda>t. t\<lparr>t_bounding := t_bounding t AND NOT (push_bit cap 1)\<rparr>))"

definition drop_bounding_set :: "launch_kernel \<Rightarrow> task \<Rightarrow> (string + unit) \<times> task" where
  "drop_bounding_set K = siter (capbset_drop K) [0..<Suc CAP_PROBE_CEILING]"

definition clear_all_sets :: "launch_kernel \<Rightarrow> task \<Rightarrow> (string + unit) \<times> task" where
  "clear_all_sets K =
     syscall K ''capset'' ''capset'' (\<lambda>t. t\<lparr>t_effective := 0, t_permitted := 0, t_inheritable := 0\<rparr>)"

definition clear_inheritable :: "launch_kernel \<Rightarrow> task \<Rightarrow> (string + unit) \<times> task" where
  "clear_inheritable K =
     sbind (syscall K ''capget'' ''capget'' id) (\<lambda>_.
       syscall K ''capset'' ''capset (clear inheritable)'' (\<lambda>t. t\<lparr>t_inheritable := 0\<rparr>))"

definition drop_bounding_set_and_ambient :: "launch_kernel \<Rightarrow> task \<Rightarrow> (string + unit) \<times> task" where
  "drop_bounding_set_and_ambient K =
     sbind (clear_ambient K) (\<lambda>_. sbind (drop_bounding_set K) (\<lambda>_. clear_inheritable K))"

definition finish_dropping_capabilities :: "launch_kernel \<Rightarrow> task \<Rightarrow> (string + unit) \<times> task" where
  "finish_dropping_capabilities K = clear_all_sets K"

definition drop_to_unprivileged :: "launch_kernel \<Rightarrow> u32 \<Rightarrow> u32 \<Rightarrow> task \<Rightarrow> (string + unit) \<times> task" where
  "drop_to_unprivileged K uid gid =
     sbind (syscall K ''setresgid'' ''setresgid'' (\<lambda>t. t\<lparr>t_gid := Some gid\<rparr>)) (\<lambda>_.
       syscall K ''setresuid'' ''setresuid'' (\<lambda>t. t\<lparr>t_uid := Some uid\<rparr>))"

section \<open>Landlock\<close>

definition landlock_rule :: "launch_kernel \<Rightarrow> u64 \<Rightarrow> LandlockRule \<Rightarrow> task \<Rightarrow> (string + unit) \<times> task" where
  "landlock_rule K handled rule =
     (let access_mask = ll_access_mask rule AND handled
      in if access_mask = 0 then sreturn ()
         else sbind (syscall K ''openat'' ''open path for Landlock'' id) (\<lambda>_.
           syscall K ''landlock_add_rule'' ''landlock_add_rule''
             (\<lambda>t. t\<lparr>t_ruleset := map_option (\<lambda>(h, rs). (h, rs @ [(ll_path rule, access_mask)])) (t_ruleset t)\<rparr>)))"

definition apply_landlock :: "launch_kernel \<Rightarrow> LandlockPlan \<Rightarrow> task \<Rightarrow> (string + unit) \<times> task" where
  "apply_landlock K plan =
     (let handled = known_at_abi (ll_abi plan)
      in sbind (syscall K ''landlock_create_ruleset'' ''landlock_create_ruleset'' (\<lambda>t. t\<lparr>t_ruleset := Some (handled, [])\<rparr>)) (\<lambda>_.
         sbind (siter (landlock_rule K handled) (ll_rules plan)) (\<lambda>_.
           syscall K ''landlock_restrict_self'' ''landlock_restrict_self''
             (\<lambda>t. t\<lparr>t_landlock := t_ruleset t, t_ruleset := None\<rparr>))))"

section \<open>The root file system\<close>

record Rootfs =
  lower :: string
  merged :: string
  upper :: string
  work :: string

definition path_cstring :: "string \<Rightarrow> string + string" where
  "path_cstring p = (if CHR 0x00 \<in> set p then Inl ''interior NUL in path'' else Inr p)"

definition mount_at :: "launch_kernel \<Rightarrow> mount_call \<Rightarrow> string \<Rightarrow> task \<Rightarrow> (string + unit) \<times> task" where
  "mount_at K m msg =
     sbind (slift (path_cstring (mc_target m))) (\<lambda>_.
       syscall K ''mount'' msg (\<lambda>t. t\<lparr>t_mounts := t_mounts t @ [m]\<rparr>))"

definition overlay_data :: "Rootfs \<Rightarrow> string" where
  "overlay_data r = ''lowerdir='' @ lower r @ '',upperdir='' @ upper r @ '',workdir='' @ work r @ '',xino=off''"

definition overlay_call :: "Rootfs \<Rightarrow> mount_call" where
  "overlay_call r = \<lparr>mc_source = Some ''overlay'', mc_target = merged r, mc_fstype = Some ''overlay'',
     mc_flags = [''NODEV'', ''NOSUID''], mc_data = Some (overlay_data r)\<rparr>"

definition mount_overlay :: "launch_kernel \<Rightarrow> Rootfs \<Rightarrow> task \<Rightarrow> (string + unit) \<times> task" where
  "mount_overlay K r =
     sbind (slift (path_cstring (merged r))) (\<lambda>_.
     sbind (slift (path_cstring (overlay_data r))) (\<lambda>_.
       mount_at K (overlay_call r) ''overlay mount failed''))"

definition remount_root_private :: "launch_kernel \<Rightarrow> task \<Rightarrow> (string + unit) \<times> task" where
  "remount_root_private K = syscall K ''mount'' ''remount / private'' (\<lambda>t. t\<lparr>t_private := True\<rparr>)"

definition pjoin :: "string \<Rightarrow> string \<Rightarrow> string" where
  "pjoin p q = p @ ''/'' @ q"

definition mkdir_all :: "launch_kernel \<Rightarrow> string \<Rightarrow> task \<Rightarrow> (string + unit) \<times> task" where
  "mkdir_all K msg = syscall K ''mkdir'' msg id"

text \<open>A virtual file system, named as its own source, on a directory of the new tree; a bind mount.\<close>

definition vfs_call :: "string \<Rightarrow> string \<Rightarrow> string list \<Rightarrow> string option \<Rightarrow> mount_call" where
  "vfs_call target fstype mflags data =
     \<lparr>mc_source = Some fstype, mc_target = target, mc_fstype = Some fstype, mc_flags = mflags, mc_data = data\<rparr>"

definition bind_call :: "string \<Rightarrow> string \<Rightarrow> string list \<Rightarrow> mount_call" where
  "bind_call src dst mflags =
     \<lparr>mc_source = Some src, mc_target = dst, mc_fstype = None, mc_flags = mflags, mc_data = None\<rparr>"

definition proc_call :: "string \<Rightarrow> mount_call" where
  "proc_call m = vfs_call (pjoin m ''proc'') ''proc'' [''NOSUID'', ''NODEV'', ''NOEXEC''] (Some ''hidepid=2,subset=pid'')"

definition mount_proc :: "launch_kernel \<Rightarrow> string \<Rightarrow> task \<Rightarrow> (string + unit) \<times> task" where
  "mount_proc K m = sbind (mkdir_all K ''mkdir proc'') (\<lambda>_. mount_at K (proc_call m) ''mount proc'')"

definition sys_call :: "string \<Rightarrow> mount_call" where
  "sys_call m = vfs_call (pjoin m ''sys'') ''sysfs'' [''RDONLY'', ''NOSUID'', ''NODEV'', ''NOEXEC''] None"

definition mount_sys :: "launch_kernel \<Rightarrow> string \<Rightarrow> task \<Rightarrow> (string + unit) \<times> task" where
  "mount_sys K m = sbind (mkdir_all K ''mkdir sys'') (\<lambda>_. mount_at K (sys_call m) ''mount sys'')"

definition tmp_call :: "string \<Rightarrow> mount_call" where
  "tmp_call m = vfs_call (pjoin m ''tmp'') ''tmpfs'' [''NOSUID'', ''NODEV'', ''NOEXEC''] (Some ''size=536870912,mode=1777'')"

definition mount_tmp :: "launch_kernel \<Rightarrow> string \<Rightarrow> task \<Rightarrow> (string + unit) \<times> task" where
  "mount_tmp K m = sbind (mkdir_all K ''mkdir tmp'') (\<lambda>_. mount_at K (tmp_call m) ''mount tmp'')"

definition bind_host_dev :: "launch_kernel \<Rightarrow> string \<Rightarrow> string \<Rightarrow> task \<Rightarrow> (string + unit) \<times> task" where
  "bind_host_dev K name dest =
     sbind (slift (path_cstring (''/dev/'' @ name))) (\<lambda>src.
       mount_at K (bind_call src dest [''BIND'', ''RDONLY'']) ''bind dev'')"

definition dev_nodes :: "string list" where
  "dev_nodes = [''null'', ''zero'', ''full'', ''random'', ''urandom'', ''tty'']"

definition dev_node :: "launch_kernel \<Rightarrow> string \<Rightarrow> string \<Rightarrow> task \<Rightarrow> (string + unit) \<times> task" where
  "dev_node K dev_path name =
     sbind (syscall K ''openat'' ''touch dev'' id) (\<lambda>_. bind_host_dev K name (pjoin dev_path name))"

definition mount_dev :: "launch_kernel \<Rightarrow> string \<Rightarrow> task \<Rightarrow> (string + unit) \<times> task" where
  "mount_dev K m =
     (let dev_path = pjoin m ''dev''; pts_path = pjoin dev_path ''pts''; ptmx_path = pjoin dev_path ''ptmx''
      in sbind (mkdir_all K ''mkdir dev'') (\<lambda>_.
         sbind (mount_at K (vfs_call dev_path ''tmpfs'' [''NOSUID'', ''NODEV''] (Some ''size=67108864,mode=755'')) ''mount dev (tmpfs)'') (\<lambda>_.
         sbind (siter (dev_node K dev_path) dev_nodes) (\<lambda>_.
         sbind (mkdir_all K ''mkdir dev/pts'') (\<lambda>_.
         sbind (mount_at K (vfs_call pts_path ''devpts'' [''NOSUID'', ''NOEXEC''] (Some ''newinstance,ptmxmode=0666,mode=620''))
                  ''mount dev/pts'') (\<lambda>_.
         sbind (syscall K ''openat'' ''touch dev/ptmx'' id) (\<lambda>_.
         sbind (slift (path_cstring (pjoin pts_path ''ptmx''))) (\<lambda>ptmx_src.
           mount_at K (bind_call ptmx_src ptmx_path [''BIND'']) ''bind dev/ptmx''))))))))"

text \<open>\<^verbatim>\<open>chdir(new_root); pivot_root(".", "."); umount2(".", MNT_DETACH); chdir("/")\<close>: after the second call the old
  root is mounted on the working directory, the third detaches it.\<close>

definition pivot_into :: "launch_kernel \<Rightarrow> string \<Rightarrow> task \<Rightarrow> (string + unit) \<times> task" where
  "pivot_into K new_root =
     sbind (syscall K ''chdir'' ''chdir(new_root)'' (\<lambda>t. t\<lparr>t_cwd := new_root\<rparr>)) (\<lambda>_.
     sbind (syscall K ''pivot_root'' ''pivot_root'' (\<lambda>t. t\<lparr>t_root := Some (t_cwd t), t_old_root := True\<rparr>)) (\<lambda>_.
     sbind (syscall K ''umount2'' ''umount2(old root, MNT_DETACH)'' (\<lambda>t. t\<lparr>t_old_root := False\<rparr>)) (\<lambda>_.
       syscall K ''chdir'' ''chdir(/)'' (\<lambda>t. t\<lparr>t_cwd := ''/''\<rparr>))))"

section \<open>The whole sequence\<close>

record LaunchPolicy =
  lp_landlock :: LandlockPlan
  lp_seccomp_profile :: string
  lp_exec_paths :: "string list"
  lp_exec_prefixes :: "string list"

definition SANDBOX_UID :: u32 where "SANDBOX_UID = 1000"
definition SANDBOX_GID :: u32 where "SANDBOX_GID = 1000"

text \<open>\<^verbatim>\<open>apply_seccomp\<close> on the task: its two system calls, the first of which sets \<^verbatim>\<open>no_new_privs\<close> once more.\<close>

definition task_seccomp :: "launch_kernel \<Rightarrow> string \<Rightarrow> task \<Rightarrow> (string + unit) \<times> task" where
  "task_seccomp K profile t =
     (if profile \<notin> {PROFILE_DEFAULT, PROFILE_STRICT} then (Inl ''unknown seccomp profile'', t) else let ok1 = (filters_allow K t ''prctl'' \<and> \<not> lk_fails K (t_clock t));
          ok2 = (filters_allow K t ''seccomp'' \<and> \<not> lk_fails K (Suc (t_clock t)));
          (r, fs) = apply_seccomp (lk_native K) (lk_sys K) \<lparr>no_new_privs_ok = ok1, set_filter_ok = ok2\<rparr> profile (t_seccomp t)
      in (case r of Inl _ \<Rightarrow> Inl ''apply_seccomp'' | Inr _ \<Rightarrow> Inr (),
          t\<lparr>t_clock := t_clock t + 2, t_nnp := t_nnp t \<or> ok1, t_seccomp := fs\<rparr>))"

text \<open>\<^verbatim>\<open>child_setup\<close> up to the message \<^verbatim>\<open>Ready\<close>; the result is the identities it reports.\<close>

definition mount_tree :: "launch_kernel \<Rightarrow> Rootfs \<Rightarrow> task \<Rightarrow> (string + unit) \<times> task" where
  "mount_tree K rootfs =
     sbind (mount_overlay K rootfs) (\<lambda>_.
     sbind (mount_proc K (merged rootfs)) (\<lambda>_.
     sbind (mount_sys K (merged rootfs)) (\<lambda>_.
     sbind (mount_tmp K (merged rootfs)) (\<lambda>_.
     sbind (mount_dev K (merged rootfs)) (\<lambda>_.
       mkdir_all K ''mkdir workspace'')))))"

definition self_restrict :: "launch_kernel \<Rightarrow> LaunchPolicy \<Rightarrow> task \<Rightarrow> (string + unit) \<times> task" where
  "self_restrict K policy =
     sbind (drop_bounding_set_and_ambient K) (\<lambda>_.
     sbind (apply_landlock K (lp_landlock policy)) (\<lambda>_.
     sbind (task_seccomp K (lp_seccomp_profile policy)) (\<lambda>_.
     sbind (drop_to_unprivileged K SANDBOX_UID SANDBOX_GID) (\<lambda>_.
       finish_dropping_capabilities K))))"

definition child_prepare ::
    "launch_kernel \<Rightarrow> host \<Rightarrow> string option \<Rightarrow> Rootfs \<Rightarrow> LaunchPolicy \<Rightarrow> task \<Rightarrow> (string + ExecIdentity list) \<times> task" where
  "child_prepare K H mountinfo rootfs policy =
     sbind (syscall K ''read'' ''sync read'' id) (\<lambda>_.
     sbind (become_namespace_root K) (\<lambda>_.
     sbind (set_no_new_privs K) (\<lambda>_.
     sbind (remount_root_private K) (\<lambda>_.
     sbind (mount_tree K rootfs) (\<lambda>_.
     sbind (pivot_into K (merged rootfs)) (\<lambda>_.
     sbind (slift (collect_exec_identities H mountinfo (lp_exec_paths policy) (lp_exec_prefixes policy))) (\<lambda>exec_ids.
     sbind (self_restrict K policy) (\<lambda>_.
     sbind (syscall K ''write'' ''send ready'' id) (\<lambda>_.
       sreturn exec_ids)))))))))"

text \<open>The rest of \<^verbatim>\<open>child_setup\<close>: wait for the release, build the argument vectors, \<^verbatim>\<open>execve\<close>.\<close>

definition cstrings :: "string \<Rightarrow> string list \<Rightarrow> string + string list" where
  "cstrings msg xs = traverse (\<lambda>x. if CHR 0x00 \<in> set x then Inl msg else Inr x) xs"

definition child_exec :: "launch_kernel \<Rightarrow> (string \<times> string) list \<Rightarrow> string \<Rightarrow> string list \<Rightarrow> task \<Rightarrow> (string + unit) \<times> task" where
  "child_exec K vars cmd args =
     sbind (syscall K ''read'' ''wait for policy install'' id) (\<lambda>_.
     sbind (slift (cstrings ''CString cmd'' [cmd])) (\<lambda>_.
     sbind (slift (cstrings ''CString arg'' args)) (\<lambda>args.
     sbind (slift (cstrings ''CString env'' (map (\<lambda>(k, v). k @ ''='' @ v) vars))) (\<lambda>envp.
       syscall K ''execve'' ''execve failed'' (\<lambda>t. t\<lparr>t_exec := Some (cmd, cmd # args, envp)\<rparr>)))))"

section \<open>What each step changes\<close>

lemma syscall_Inr:
  "syscall K s msg eff t = (Inr u, t') \<longleftrightarrow>
     filters_allow K t s \<and> \<not> lk_fails K (t_clock t) \<and> t' = eff (t\<lparr>t_clock := Suc (t_clock t)\<rparr>)"
  by (auto simp: syscall_def Let_def)

text \<open>The mount steps make exactly the mounts they name.\<close>

definition mounted :: "mount_call list \<Rightarrow> task \<Rightarrow> task \<Rightarrow> bool" where
  "mounted ms t t' \<longleftrightarrow> (\<exists>n. t' = t\<lparr>t_clock := n, t_mounts := t_mounts t @ ms\<rparr>)"

lemma mounted_trans: "mounted ms t t' \<Longrightarrow> mounted ms' t' t'' \<Longrightarrow> mounted (ms @ ms') t t''"
  by (auto simp: mounted_def)

lemma mounted_plain: "syscall K s msg id t = (Inr u, t') \<Longrightarrow> mounted [] t t'"
  by (auto simp: syscall_Inr mounted_def intro!: exI)

lemma mounted_mkdir: "mkdir_all K msg t = (Inr u, t') \<Longrightarrow> mounted [] t t'"
  unfolding mkdir_all_def by (rule mounted_plain)

lemma mounted_at: "mount_at K m msg t = (Inr u, t') \<Longrightarrow> mounted [m] t t'"
  by (auto simp: mount_at_def sbind_Inr_iff syscall_Inr mounted_def intro!: exI)

lemma path_cstring_Inr: "Inr q = path_cstring p \<longleftrightarrow> q = p \<and> CHR 0x00 \<notin> set p"
  by (auto simp: path_cstring_def)

lemma mounted_dev_node:
  "dev_node K p name t = (Inr u, t') \<Longrightarrow> mounted [bind_call (''/dev/'' @ name) (pjoin p name) [''BIND'', ''RDONLY'']] t t'"
  unfolding dev_node_def bind_host_dev_def sbind_Inr_iff slift_iff path_cstring_Inr
  by (elim exE conjE, hypsubst) (frule mounted_plain, drule mounted_at, drule (1) mounted_trans, simp)

lemma mounted_siter:
  assumes "\<And>x t u t'. f x t = (Inr u, t') \<Longrightarrow> mounted (g x) t t'"
  shows "siter f xs t = (Inr u, t') \<Longrightarrow> mounted (concat (map g xs)) t t'"
proof (induction xs arbitrary: t)
  case Nil
  have "mounted [] t t" unfolding mounted_def by (rule exI [of _ "t_clock t"]) simp
  with Nil show ?case by simp
next
  case (Cons x xs)
  then show ?case by (auto simp: sbind_Inr_iff dest!: assms intro: mounted_trans)
qed

text \<open>The mounts of a sandbox, in order.\<close>

definition dev_mounts :: "string \<Rightarrow> mount_call list" where
  "dev_mounts dev =
     vfs_call dev ''tmpfs'' [''NOSUID'', ''NODEV''] (Some ''size=67108864,mode=755'') #
     map (\<lambda>name. bind_call (''/dev/'' @ name) (pjoin dev name) [''BIND'', ''RDONLY'']) dev_nodes @
     [vfs_call (pjoin dev ''pts'') ''devpts'' [''NOSUID'', ''NOEXEC''] (Some ''newinstance,ptmxmode=0666,mode=620''),
      bind_call (pjoin (pjoin dev ''pts'') ''ptmx'') (pjoin dev ''ptmx'') [''BIND'']]"

definition sandbox_mounts :: "Rootfs \<Rightarrow> mount_call list" where
  "sandbox_mounts r =
     [overlay_call r, proc_call (merged r), sys_call (merged r), tmp_call (merged r)] @ dev_mounts (pjoin (merged r) ''dev'')"

lemma mounted_dev:
  assumes "mount_dev K m t = (Inr u, t')"
  shows "mounted (dev_mounts (pjoin m ''dev'')) t t'"
proof -
  let ?d = "pjoin m ''dev''"
  have concat_single: "concat (map (\<lambda>x. [h x]) xs) = map h xs" for h :: "string \<Rightarrow> mount_call" and xs by (induction xs) auto
  have "mounted ([] @ [vfs_call ?d ''tmpfs'' [''NOSUID'', ''NODEV''] (Some ''size=67108864,mode=755'')] @
      concat (map (\<lambda>name. [bind_call (''/dev/'' @ name) (pjoin ?d name) [''BIND'', ''RDONLY'']]) dev_nodes) @ [] @
      [vfs_call (pjoin ?d ''pts'') ''devpts'' [''NOSUID'', ''NOEXEC''] (Some ''newinstance,ptmxmode=0666,mode=620'')] @ [] @
      [bind_call (pjoin (pjoin ?d ''pts'') ''ptmx'') (pjoin ?d ''ptmx'') [''BIND'']]) t t'"
    using assms unfolding mount_dev_def Let_def sbind_Inr_iff slift_iff path_cstring_Inr
    by (elim exE conjE, hypsubst)
       (rule mounted_trans mounted_mkdir mounted_at mounted_plain mounted_siter [OF mounted_dev_node] | assumption)+
  then show ?thesis by (simp add: dev_mounts_def concat_single)
qed

lemma mounted_tree:
  assumes "mount_tree K r t = (Inr u, t')"
  shows "mounted (sandbox_mounts r) t t'"
proof -
  have "mounted ([overlay_call r] @ ([] @ [proc_call (merged r)]) @ ([] @ [sys_call (merged r)]) @ ([] @ [tmp_call (merged r)]) @
      dev_mounts (pjoin (merged r) ''dev'') @ []) t t'"
    using assms unfolding mount_tree_def mount_overlay_def mount_proc_def mount_sys_def mount_tmp_def sbind_Inr_iff slift_iff
    by (elim exE conjE) (hypsubst, (rule mounted_trans mounted_mkdir mounted_at mounted_dev | assumption)+)
  then show ?thesis by (simp add: sandbox_mounts_def)
qed

text \<open>Dropping the bounding set clears every capability the kernel knows.\<close>

lemma capbset_drop_effect:
  assumes "capbset_drop K cap t = (Inr u, t')"
  shows "\<exists>n b. t' = t\<lparr>t_clock := n, t_bounding := b\<rparr> \<and> (\<forall>c. bit b c \<longrightarrow> bit (t_bounding t) c \<and> (cap \<le> lk_last_cap K \<longrightarrow> c \<noteq> cap))"
proof (cases "cap > lk_last_cap K")
  case True
  with assms have "t' = t\<lparr>t_clock := t_clock t, t_bounding := t_bounding t\<rparr>" by (simp add: capbset_drop_def)
  with True show ?thesis by (metis not_le)
next
  case False
  with assms have "t' = t\<lparr>t_clock := Suc (t_clock t), t_bounding := t_bounding t AND NOT (push_bit cap 1)\<rparr>"
    by (auto simp: capbset_drop_def syscall_Inr)
  moreover have "bit (t_bounding t AND NOT (push_bit cap 1)) c \<Longrightarrow> bit (t_bounding t) c \<and> c \<noteq> cap" for c
    by (auto simp: bit_simps)
  ultimately show ?thesis by blast
qed

lemma capbset_drops_effect:
  "siter (capbset_drop K) caps t = (Inr u, t') \<Longrightarrow>
   \<exists>n b. t' = t\<lparr>t_clock := n, t_bounding := b\<rparr> \<and>
     (\<forall>c. bit b c \<longrightarrow> bit (t_bounding t) c \<and> (c \<in> set caps \<longrightarrow> lk_last_cap K < c))"
proof (induction caps arbitrary: t)
  case Nil
  then have "t' = t\<lparr>t_clock := t_clock t, t_bounding := t_bounding t\<rparr>" by simp
  then show ?case by (metis empty_iff list.set(1))
next
  case (Cons cap caps)
  then obtain t1 where t1: "capbset_drop K cap t = (Inr (), t1)" "siter (capbset_drop K) caps t1 = (Inr u, t')"
    by (auto simp: sbind_Inr_iff)
  from capbset_drop_effect [OF t1(1)] obtain n b where nb: "t1 = t\<lparr>t_clock := n, t_bounding := b\<rparr>"
    "\<forall>c. bit b c \<longrightarrow> bit (t_bounding t) c \<and> (cap \<le> lk_last_cap K \<longrightarrow> c \<noteq> cap)" by blast
  from Cons.IH [OF t1(2)] obtain n' b' where "t' = t1\<lparr>t_clock := n', t_bounding := b'\<rparr>"
    "\<forall>c. bit b' c \<longrightarrow> bit (t_bounding t1) c \<and> (c \<in> set caps \<longrightarrow> lk_last_cap K < c)" by blast
  then show ?case using nb
    by (intro exI [of _ n'] exI [of _ b']) (auto simp: not_less [symmetric])
qed

text \<open>A task holds no capability its kernel does not know, and no ambient one where there are none.\<close>

definition task_caps_ok :: "launch_kernel \<Rightarrow> task \<Rightarrow> bool" where
  "task_caps_ok K t \<longleftrightarrow> t_bounding t AND NOT (mask (Suc (lk_last_cap K))) = 0 \<and> (lk_ambient K \<or> t_ambient t = 0)"

lemma task_caps_known:
  assumes "task_caps_ok K t" "bit (t_bounding t) c"
  shows "c \<le> lk_last_cap K"
proof (rule ccontr)
  assume "\<not> c \<le> lk_last_cap K"
  with assms(2) have "bit (t_bounding t AND NOT (mask (Suc (lk_last_cap K)))) c"
    by (auto simp: bit_simps dest: bit_imp_possible_bit)
  with assms(1) show False by (simp add: task_caps_ok_def)
qed

lemma drop_bounding_effect:
  assumes "drop_bounding_set K t = (Inr u, t')" "task_caps_ok K t"
  shows "\<exists>n. t' = t\<lparr>t_clock := n, t_bounding := 0\<rparr>"
proof -
  obtain n b where nb: "t' = t\<lparr>t_clock := n, t_bounding := b\<rparr>"
    "\<forall>c. bit b c \<longrightarrow> bit (t_bounding t) c \<and> (c \<in> set [0..<Suc CAP_PROBE_CEILING] \<longrightarrow> lk_last_cap K < c)"
    using capbset_drops_effect assms(1) unfolding drop_bounding_set_def by blast
  have "b = 0"
  proof (rule bit_eqI)
    fix c assume "possible_bit TYPE(64 word) c"
    then have "c \<in> set [0..<Suc CAP_PROBE_CEILING]" by (simp add: possible_bit_word CAP_PROBE_CEILING_def)
    with nb(2) task_caps_known [OF assms(2)] show "bit b c = bit 0 c" by (metis bit_0_eq bot_apply bot_bool_def not_le)
  qed
  with nb show ?thesis by blast
qed

text \<open>The rules Landlock ends up with: those of the plan with a right that the ruleset handles.\<close>

definition landlock_rules :: "u64 \<Rightarrow> LandlockRule list \<Rightarrow> (string \<times> u64) list" where
  "landlock_rules handled rules =
     map (\<lambda>r. (ll_path r, ll_access_mask r AND handled)) (filter (\<lambda>r. ll_access_mask r AND handled \<noteq> 0) rules)"

lemma landlock_rules_effect:
  "siter (landlock_rule K handled) rules t = (Inr u, t') \<Longrightarrow> t_ruleset t = Some (handled, acc) \<Longrightarrow>
   \<exists>n. t' = t\<lparr>t_clock := n, t_ruleset := Some (handled, acc @ landlock_rules handled rules)\<rparr>"
proof (induction rules arbitrary: t acc)
  case Nil
  then show ?case by (intro exI [of _ "t_clock t"]) (simp add: landlock_rules_def)
next
  case (Cons rule rules)
  then obtain t1 where t1: "landlock_rule K handled rule t = (Inr (), t1)" "siter (landlock_rule K handled) rules t1 = (Inr u, t')"
    by (auto simp: sbind_Inr_iff)
  show ?case
  proof (cases "ll_access_mask rule AND handled = 0")
    case True
    with t1 have "t1 = t" by (simp add: landlock_rule_def)
    with True Cons.IH [OF t1(2)] Cons.prems(2) show ?thesis by (simp add: landlock_rules_def)
  next
    case False
    with t1(1) Cons.prems(2) obtain n where
      n: "t1 = t\<lparr>t_clock := n, t_ruleset := Some (handled, acc @ [(ll_path rule, ll_access_mask rule AND handled)])\<rparr>"
      by (auto simp: landlock_rule_def sbind_Inr_iff syscall_Inr)
    with False Cons.IH [OF t1(2)] show ?thesis by (auto simp: landlock_rules_def)
  qed
qed

lemma apply_landlock_effect:
  assumes "apply_landlock K plan t = (Inr u, t')"
  shows "\<exists>n. t' = t\<lparr>t_clock := n,
      t_landlock := Some (known_at_abi (ll_abi plan), landlock_rules (known_at_abi (ll_abi plan)) (ll_rules plan)),
      t_ruleset := None\<rparr>"
proof -
  let ?h = "known_at_abi (ll_abi plan)"
  from assms obtain t1 where
    t1: "siter (landlock_rule K ?h) (ll_rules plan) (t\<lparr>t_clock := Suc (t_clock t), t_ruleset := Some (?h, [])\<rparr>) = (Inr (), t1)"
      "t' = t1\<lparr>t_clock := Suc (t_clock t1), t_landlock := t_ruleset t1, t_ruleset := None\<rparr>"
    by (auto simp: apply_landlock_def Let_def sbind_Inr_iff syscall_Inr)
  from landlock_rules_effect [OF t1(1)] t1(2) show ?thesis by auto
qed

text \<open>A program that answers every system call as its profile says.\<close>

definition decides :: "launch_kernel \<Rightarrow> string \<Rightarrow> sock_filter list \<Rightarrow> bool" where
  "decides K profile prog \<longleftrightarrow>
     (\<forall>nr arch ip args. bpf_run (seccomp_data nr arch ip args) 0 prog = Some (seccomp_decision (lk_native K) (lk_sys K) profile nr arch))"

lemma task_seccomp_effect:
  assumes "task_seccomp K profile t = (Inr u, t')"
  shows "\<exists>prog. t' = t\<lparr>t_clock := t_clock t + 2, t_nnp := True, t_seccomp := prog # t_seccomp t\<rparr> \<and> decides K profile prog"
  using assms
  by (auto simp: task_seccomp_def Let_def apply_seccomp_def apply_default_filter_def apply_strict_filter_def decides_def
      install_filter_whole filter_lengths run_default run_strict split: if_splits)

section \<open>A child that reports ready is confined\<close>

text \<open>Every restriction of \<^verbatim>\<open>child_setup\<close>, in terms of the final state of the task.\<close>

definition confined :: "launch_kernel \<Rightarrow> Rootfs \<Rightarrow> LaunchPolicy \<Rightarrow> task \<Rightarrow> bool" where
  "confined K rootfs policy t \<longleftrightarrow>
     t_uid t = Some SANDBOX_UID \<and> t_gid t = Some SANDBOX_GID \<and> t_nnp t \<and> t_private t \<and>
     t_root t = Some (merged rootfs) \<and> \<not> t_old_root t \<and> t_cwd t = ''/'' \<and>
     t_effective t = 0 \<and> t_permitted t = 0 \<and> t_inheritable t = 0 \<and> t_bounding t = 0 \<and> t_ambient t = 0 \<and>
     (let handled = known_at_abi (ll_abi (lp_landlock policy))
      in t_landlock t = Some (handled, landlock_rules handled (ll_rules (lp_landlock policy)))) \<and>
     (\<exists>prog ps. t_seccomp t = prog # ps \<and> decides K (lp_seccomp_profile policy) prog)"

lemma self_restrict_effect:
  assumes "self_restrict K policy t = (Inr u, t')" "task_caps_ok K t"
    "t_private t" "t_root t = Some (merged rootfs)" "\<not> t_old_root t" "t_cwd t = ''/''"
  shows "confined K rootfs policy t' \<and> t_mounts t' = t_mounts t \<and> t_exec t' = t_exec t \<and> tl (t_seccomp t') = t_seccomp t"
proof -
  from assms(1) obtain t1 t2 t3 t4 n5 where
    t1: "clear_ambient K t = (Inr (), t1)" and t2: "drop_bounding_set K t1 = (Inr (), t2)" and
    t3: "apply_landlock K (lp_landlock policy) (t2\<lparr>t_clock := Suc (Suc (t_clock t2)), t_inheritable := 0\<rparr>) = (Inr (), t3)" and
    t4: "task_seccomp K (lp_seccomp_profile policy) t3 = (Inr (), t4)" and
    t': "t' = t4\<lparr>t_gid := Some SANDBOX_GID, t_uid := Some SANDBOX_UID, t_clock := n5, t_effective := 0, t_permitted := 0,
          t_inheritable := 0\<rparr>"
    by (auto simp: self_restrict_def drop_bounding_set_and_ambient_def clear_inheritable_def drop_to_unprivileged_def
        finish_dropping_capabilities_def clear_all_sets_def sbind_Inr_iff syscall_Inr)
  obtain n1 where c1: "t1 = t\<lparr>t_clock := n1, t_ambient := 0\<rparr>"
  proof (cases "lk_ambient K")
    case True
    with t1 that show ?thesis by (auto simp: clear_ambient_def syscall_Inr)
  next
    case False
    with t1 assms(2) have "t1 = t\<lparr>t_clock := t_clock t, t_ambient := 0\<rparr>" by (simp add: clear_ambient_def task_caps_ok_def)
    with that show ?thesis .
  qed
  with assms(2) have ok1: "task_caps_ok K t1" by (simp add: task_caps_ok_def)
  from drop_bounding_effect [OF t2 ok1] obtain n2 where c2: "t2 = t1\<lparr>t_clock := n2, t_bounding := 0\<rparr>" by blast
  from apply_landlock_effect [OF t3] obtain n3 where c3: "t3 = t2\<lparr>t_inheritable := 0, t_clock := n3,
      t_landlock := Some (known_at_abi (ll_abi (lp_landlock policy)),
        landlock_rules (known_at_abi (ll_abi (lp_landlock policy))) (ll_rules (lp_landlock policy))), t_ruleset := None\<rparr>"
    by auto
  from task_seccomp_effect [OF t4] obtain prog where
    c4: "t4 = t3\<lparr>t_clock := t_clock t3 + 2, t_nnp := True, t_seccomp := prog # t_seccomp t3\<rparr>" "decides K (lp_seccomp_profile policy) prog"
    by blast
  show ?thesis
    using assms(3-6) c4(2) by (simp add: t' c4(1) c3 c2 c1 confined_def)
qed

text \<open>
  When \<^verbatim>\<open>child_setup\<close> gets as far as sending \<^verbatim>\<open>Ready\<close>, whatever system calls may have failed or been refused on
  the way, the task holds every restriction, has made exactly the mounts of a sandbox, has executed
  nothing, and reports the identities collected in its own mount namespace.
\<close>

lemma child_confined:
  assumes "child_prepare K H mountinfo rootfs policy t = (Inr ids, t')" "task_caps_ok K t"
  shows "confined K rootfs policy t' \<and> t_mounts t' = t_mounts t @ sandbox_mounts rootfs \<and> t_exec t' = t_exec t \<and>
    tl (t_seccomp t') = t_seccomp t \<and> collect_exec_identities H mountinfo (lp_exec_paths policy) (lp_exec_prefixes policy) = Inr ids"
proof -
  let ?t0 = "t\<lparr>t_gid := Some 0, t_uid := Some 0, t_nnp := True, t_clock := Suc (Suc (Suc (Suc (Suc (t_clock t))))), t_private := True\<rparr>"
  from assms(1) obtain t2 t3 t4 where
    t2: "mount_tree K rootfs ?t0 = (Inr (), t2)" and t3: "pivot_into K (merged rootfs) t2 = (Inr (), t3)" and
    t4: "self_restrict K policy t3 = (Inr (), t4)" and t': "t' = t4\<lparr>t_clock := Suc (t_clock t4)\<rparr>" and
    ids: "collect_exec_identities H mountinfo (lp_exec_paths policy) (lp_exec_prefixes policy) = Inr ids"
    by (auto simp: child_prepare_def become_namespace_root_def set_no_new_privs_def remount_root_private_def
        sbind_Inr_iff syscall_Inr)
  from mounted_tree [OF t2] obtain n where c2: "t2 = ?t0\<lparr>t_clock := n, t_mounts := t_mounts t @ sandbox_mounts rootfs\<rparr>"
    by (auto simp: mounted_def)
  from t3 have c3: "t3 = t2\<lparr>t_clock := t_clock t3, t_root := Some (merged rootfs), t_old_root := False, t_cwd := ''/''\<rparr>"
    by (auto simp: pivot_into_def sbind_Inr_iff syscall_Inr)
  have caps: "task_caps_ok K t3" using assms(2) by (subst c3, subst c2) (simp add: task_caps_ok_def)
  have "confined K rootfs policy t4 \<and> t_mounts t4 = t_mounts t3 \<and> t_exec t4 = t_exec t3 \<and> tl (t_seccomp t4) = t_seccomp t3"
    by (rule self_restrict_effect [OF t4 caps]) (subst c3, subst c2, simp)+
  moreover have "t_mounts t3 = t_mounts t @ sandbox_mounts rootfs" "t_exec t3 = t_exec t" "t_seccomp t3 = t_seccomp t"
    by (subst c3, subst c2, simp)+
  ultimately show ?thesis using ids by (simp add: t' confined_def)
qed

section \<open>Which profiles let a child get ready\<close>

text \<open>A step that succeeds from every state of a set and stays in it.\<close>

definition runs_in :: "(task \<Rightarrow> bool) \<Rightarrow> (task \<Rightarrow> (string + 'a) \<times> task) \<Rightarrow> bool" where
  "runs_in I m \<longleftrightarrow> (\<forall>t. I t \<longrightarrow> (\<exists>x t'. m t = (Inr x, t') \<and> I t'))"

lemma runs_inD: "runs_in I m \<Longrightarrow> I t \<Longrightarrow> \<exists>x t'. m t = (Inr x, t') \<and> I t'"
  by (simp add: runs_in_def)

named_theorems runs

lemma runs_sbind [runs]: "runs_in I m \<Longrightarrow> (\<And>x. runs_in I (f x)) \<Longrightarrow> runs_in I (sbind m f)"
  unfolding runs_in_def sbind_def by (metis (no_types, lifting) old.sum.simps(6) split_conv)

lemma runs_sreturn [runs]: "runs_in I (sreturn x)"
  by (simp add: runs_in_def)

lemma runs_siter [runs]: "(\<And>x. runs_in I (f x)) \<Longrightarrow> runs_in I (siter f xs)"
  by (induction xs) (simp_all add: runs)

text \<open>Before the filter is installed no call is refused; the calls after it are those of the second set.\<close>

definition unfiltered :: "task \<Rightarrow> bool" where "unfiltered t \<longleftrightarrow> t_seccomp t = []"

definition allows :: "launch_kernel \<Rightarrow> task \<Rightarrow> bool" where
  "allows K t \<longleftrightarrow> list_all (filters_allow K t) [''setresgid'', ''setresuid'', ''capset'', ''write'']"

lemma runs_syscall [runs]:
  "(\<And>n. \<not> lk_fails K n) \<Longrightarrow> (\<And>t. t_seccomp (eff t) = t_seccomp t) \<Longrightarrow> runs_in unfiltered (syscall K s msg eff)"
  by (auto simp: runs_in_def unfiltered_def syscall_def filters_allow_def Let_def)

lemma allows_cong: "t_seccomp t = t_seccomp t' \<Longrightarrow> allows K t = allows K t'"
  by (simp add: allows_def filters_allow_def)

lemma runs_syscall_after:
  assumes "\<And>n. \<not> lk_fails K n" "\<And>t. t_seccomp (eff t) = t_seccomp t" "s \<in> {''setresgid'', ''setresuid'', ''capset'', ''write''}"
  shows "runs_in (allows K) (syscall K s msg eff)"
proof -
  have "allows K t \<Longrightarrow> allows K (eff (t\<lparr>t_clock := Suc (t_clock t)\<rparr>))" for t
    using allows_cong [of "eff (t\<lparr>t_clock := Suc (t_clock t)\<rparr>)" t K] assms(2) by simp
  moreover have "allows K t \<Longrightarrow> filters_allow K t s" for t using assms(3) by (auto simp: allows_def)
  ultimately show ?thesis using assms(1) by (auto simp: runs_in_def syscall_def Let_def)
qed

lemma runs_mount_at [runs]:
  "(\<And>n. \<not> lk_fails K n) \<Longrightarrow> CHR 0x00 \<notin> set (mc_target m) \<Longrightarrow> runs_in unfiltered (mount_at K m msg)"
  unfolding mount_at_def path_cstring_def
  by (simp add: runs_sbind runs_syscall runs_in_def [of unfiltered "slift _"])

lemma runs_path [runs]: "CHR 0x00 \<notin> set p \<Longrightarrow> runs_in I (slift (path_cstring p))"
  by (simp add: runs_in_def path_cstring_def)

lemma runs_mkdir [runs]: "(\<And>n. \<not> lk_fails K n) \<Longrightarrow> runs_in unfiltered (mkdir_all K msg)"
  unfolding mkdir_all_def by (rule runs) simp_all

lemma runs_dev_node:
  assumes "\<And>n. \<not> lk_fails K n" "CHR 0x00 \<notin> set p" "CHR 0x00 \<notin> set name"
  shows "runs_in unfiltered (dev_node K p name)"
  unfolding dev_node_def bind_host_dev_def
  by (intro runs assms) (use assms in \<open>simp_all add: pjoin_def bind_call_def\<close>)

lemma runs_siter_list:
  "(\<And>x. x \<in> set xs \<Longrightarrow> runs_in I (f x)) \<Longrightarrow> runs_in I (siter f xs)"
  by (induction xs) (simp_all add: runs)

lemma runs_dev_nodes:
  assumes "\<And>n. \<not> lk_fails K n" "CHR 0x00 \<notin> set p"
  shows "runs_in unfiltered (siter (dev_node K p) dev_nodes)"
  by (rule runs_siter_list, rule runs_dev_node [OF assms]) (auto simp: dev_nodes_def)

definition rootfs_ok :: "Rootfs \<Rightarrow> bool" where
  "rootfs_ok r \<longleftrightarrow> list_all (\<lambda>p. CHR 0x00 \<notin> set p) [lower r, merged r, upper r, work r]"

lemma runs_mount_dev:
  assumes "\<And>n. \<not> lk_fails K n" "CHR 0x00 \<notin> set m"
  shows "runs_in unfiltered (mount_dev K m)"
  unfolding mount_dev_def Let_def
  by (intro runs_sbind runs_mkdir runs_mount_at runs_dev_nodes runs_syscall runs_path)
     (use assms in \<open>simp_all add: pjoin_def bind_call_def vfs_call_def\<close>)

lemma runs_mount_tree:
  assumes "\<And>n. \<not> lk_fails K n" "rootfs_ok r"
  shows "runs_in unfiltered (mount_tree K r)"
proof -
  have "CHR 0x00 \<notin> set (overlay_data r)" "CHR 0x00 \<notin> set (merged r)"
    using assms(2) by (auto simp: rootfs_ok_def overlay_data_def)
  with assms(1) show ?thesis
    unfolding mount_tree_def mount_overlay_def mount_proc_def mount_sys_def mount_tmp_def
    by (intro runs_sbind runs_mkdir runs_mount_at runs_mount_dev runs_path)
       (simp_all add: pjoin_def vfs_call_def overlay_call_def proc_call_def sys_call_def tmp_call_def)
qed

lemma runs_landlock_rule:
  "(\<And>n. \<not> lk_fails K n) \<Longrightarrow> runs_in unfiltered (landlock_rule K handled rule)"
  unfolding landlock_rule_def Let_def by (simp add: runs)

lemma runs_restrictions:
  assumes "\<And>n. \<not> lk_fails K n"
  shows "runs_in unfiltered (drop_bounding_set_and_ambient K)" "runs_in unfiltered (apply_landlock K plan)"
proof -
  have "runs_in unfiltered (capbset_drop K cap)" for cap
    unfolding capbset_drop_def using assms by (simp add: runs)
  moreover have "runs_in unfiltered (clear_ambient K)"
    unfolding clear_ambient_def using assms by (simp add: runs)
  ultimately show "runs_in unfiltered (drop_bounding_set_and_ambient K)"
    unfolding drop_bounding_set_and_ambient_def drop_bounding_set_def clear_inheritable_def
    by (intro runs assms) simp_all
  show "runs_in unfiltered (apply_landlock K plan)"
    unfolding apply_landlock_def Let_def by (intro runs runs_landlock_rule assms) simp_all
qed

text \<open>The default profile lets the four remaining calls through when their numbers are not those of a denied
  call; the strict one kills the first of them.\<close>

definition sys_table_ok :: "(string \<Rightarrow> int) \<Rightarrow> bool" where
  "sys_table_ok SYS \<longleftrightarrow> list_all (\<lambda>s. \<not> list_ex (\<lambda>d. (of_int (SYS (fst d)) :: u32) = of_int (SYS s)) denied \<and>
     (s = ''write'' \<or> \<not> list_ex (\<lambda>a. (of_int (SYS a) :: u32) = of_int (SYS s)) allow))
     [''setresgid'', ''setresuid'', ''capset'', ''write'']"

lemma default_allows:
  assumes "sys_table_ok (lk_sys K)" "decides K PROFILE_DEFAULT prog" "t_seccomp t = [prog]"
  shows "allows K t"
proof -
  have "filters_allow K t s" if "s \<in> {''setresgid'', ''setresuid'', ''capset'', ''write''}" for s
  proof -
    have "List.find (\<lambda>(d, _). of_int (lk_sys K d) = (of_int (lk_sys K s) :: u32)) denied = None"
      using that assms(1) by (auto simp: sys_table_ok_def find_None_iff list_ex_iff case_prod_beta)
    then show ?thesis using assms(2,3) by (simp add: filters_allow_def decides_def seccomp_decision_def)
  qed
  then show ?thesis by (simp add: allows_def)
qed

lemma strict_refuses:
  assumes "sys_table_ok (lk_sys K)" "decides K PROFILE_STRICT prog" "t_seccomp t = prog # ps"
  shows "\<not> filters_allow K t ''setresgid''"
  using assms
  by (auto simp: filters_allow_def decides_def seccomp_decision_def sys_table_ok_def PROFILE_STRICT_def PROFILE_DEFAULT_def
      SECCOMP_RET_ALLOW_def SECCOMP_RET_KILL_PROCESS_def)

lemma sbind_Inr: "m s = (Inr x, s') \<Longrightarrow> sbind m f s = f x s'"
  by (simp add: sbind_def)

lemma task_seccomp_default:
  assumes "\<And>n. \<not> lk_fails K n" "unfiltered t" "sys_table_ok (lk_sys K)"
  shows "\<exists>t'. task_seccomp K PROFILE_DEFAULT t = (Inr (), t') \<and> allows K t'"
proof -
  have "\<exists>t'. task_seccomp K PROFILE_DEFAULT t = (Inr (), t')"
    using assms(1,2) by (simp add: task_seccomp_def apply_seccomp_def apply_default_filter_def install_filter_whole
        filter_lengths unfiltered_def filters_allow_def)
  then obtain t' where t': "task_seccomp K PROFILE_DEFAULT t = (Inr (), t')" ..
  from task_seccomp_effect [OF this] assms(2) obtain prog where "t_seccomp t' = [prog]" "decides K PROFILE_DEFAULT prog"
    by (auto simp: unfiltered_def)
  with default_allows [OF assms(3)] t' show ?thesis by blast
qed

lemma self_restrict_default:
  assumes "\<And>n. \<not> lk_fails K n" "unfiltered t" "sys_table_ok (lk_sys K)" "lp_seccomp_profile policy = PROFILE_DEFAULT"
  shows "\<exists>t'. self_restrict K policy t = (Inr (), t') \<and> allows K t'"
proof -
  obtain t1 where t1: "drop_bounding_set_and_ambient K t = (Inr (), t1)" "unfiltered t1"
    using runs_inD [OF runs_restrictions(1) assms(2)] assms(1) by auto
  obtain t2 where t2: "apply_landlock K (lp_landlock policy) t1 = (Inr (), t2)" "unfiltered t2"
    using runs_inD [OF runs_restrictions(2) [of K "lp_landlock policy"] t1(2)] assms(1) by auto
  obtain t3 where t3: "task_seccomp K PROFILE_DEFAULT t2 = (Inr (), t3)" "allows K t3"
    using task_seccomp_default [OF assms(1) t2(2) assms(3)] by blast
  have "runs_in (allows K) (sbind (drop_to_unprivileged K SANDBOX_UID SANDBOX_GID) (\<lambda>_. finish_dropping_capabilities K))"
    unfolding drop_to_unprivileged_def finish_dropping_capabilities_def clear_all_sets_def
    by (intro runs_sbind runs_syscall_after assms) simp_all
  from runs_inD [OF this t3(2)] t1 t2 t3 show ?thesis
    by (simp add: self_restrict_def sbind_Inr assms(4))
qed

lemma self_restrict_refused:
  assumes "sys_table_ok (lk_sys K)" "self_restrict K policy t = (Inr u, t')"
  shows "lp_seccomp_profile policy = PROFILE_DEFAULT"
proof (rule ccontr)
  assume nd: "lp_seccomp_profile policy \<noteq> PROFILE_DEFAULT"
  from assms(2) obtain t1 t2 where sc: "task_seccomp K (lp_seccomp_profile policy) t1 = (Inr (), t2)"
    and ok: "filters_allow K t2 ''setresgid''"
    by (auto simp: self_restrict_def drop_to_unprivileged_def sbind_Inr_iff syscall_Inr)
  from sc nd have strict: "lp_seccomp_profile policy = PROFILE_STRICT"
    by (auto simp: task_seccomp_def split: if_splits)
  from task_seccomp_effect [OF sc] obtain prog where "t_seccomp t2 = prog # t_seccomp t1" "decides K PROFILE_STRICT prog"
    by (auto simp: strict)
  with strict_refuses [OF assms(1)] ok show False by blast
qed

lemma child_ready:
  assumes "\<And>n. \<not> lk_fails K n" "rootfs_ok rootfs" "sys_table_ok (lk_sys K)" "t_seccomp t = []"
    and ids: "collect_exec_identities H mountinfo (lp_exec_paths policy) (lp_exec_prefixes policy) = Inr ids"
    and default: "lp_seccomp_profile policy = PROFILE_DEFAULT"
  shows "\<exists>t'. child_prepare K H mountinfo rootfs policy t = (Inr ids, t')"
proof -
  let ?pre = "sbind (syscall K ''read'' ''sync read'' id) (\<lambda>_. sbind (become_namespace_root K) (\<lambda>_. sbind (set_no_new_privs K) (\<lambda>_.
      sbind (remount_root_private K) (\<lambda>_. sbind (mount_tree K rootfs) (\<lambda>_. pivot_into K (merged rootfs))))))"
  have "runs_in unfiltered ?pre"
    unfolding become_namespace_root_def set_no_new_privs_def remount_root_private_def pivot_into_def
    by (intro runs runs_mount_tree assms) simp_all
  then obtain t1 where t1: "?pre t = (Inr (), t1)" "unfiltered t1"
    using runs_inD [of unfiltered ?pre t] assms(4) by (auto simp: unfiltered_def)
  obtain t2 where t2: "self_restrict K policy t1 = (Inr (), t2)" "allows K t2"
    using self_restrict_default [OF assms(1) t1(2) assms(3) default] by blast
  have "runs_in (allows K) (syscall K ''write'' ''send ready'' id)" by (rule runs_syscall_after) (simp_all add: assms)
  from runs_inD [OF this t2(2)] obtain t3 where "syscall K ''write'' ''send ready'' id t2 = (Inr (), t3)" by auto
  with t1(1) t2(1) ids show ?thesis
    unfolding child_prepare_def sbind_Inr_iff by (simp add: sbind_Inr_iff) blast
qed


section \<open>A concrete launch\<close>

definition witness_kernel :: launch_kernel where
  "witness_kernel = \<lparr>lk_native = AUDIT_ARCH_X86_64,
     lk_sys = (\<lambda>s. if s = ''setresgid'' then 119 else if s = ''setresuid'' then 117 else if s = ''capset'' then 126
       else if s = ''write'' then 1 else if s = ''read'' then 0 else if s = ''execve'' then 59 else 321),
     lk_fails = (\<lambda>_. False), lk_last_cap = 40, lk_ambient = True\<rparr>"

definition witness_task :: task where
  "witness_task = \<lparr>t_clock = 0, t_uid = None, t_gid = None, t_nnp = False, t_private = False, t_mounts = [], t_root = None,
     t_old_root = False, t_cwd = ''/'', t_effective = 0x1ff, t_permitted = 0x1ff, t_inheritable = 1, t_bounding = 0x1ff,
     t_ambient = 1, t_ruleset = None, t_landlock = None, t_seccomp = [], t_exec = None\<rparr>"

definition witness_rootfs :: Rootfs where
  "witness_rootfs = \<lparr>lower = ''/l'', merged = ''/m'', upper = ''/u'', work = ''/w''\<rparr>"

definition witness_launch :: "string \<Rightarrow> LaunchPolicy" where
  "witness_launch profile = \<lparr>lp_landlock = \<lparr>ll_rules = [\<lparr>ll_path = ''/workspace'', ll_access_mask = 4\<rparr>], ll_abi = 1\<rparr>,
     lp_seccomp_profile = profile, lp_exec_paths = [], lp_exec_prefixes = []\<rparr>"

lemma witness_kernel_ok:
  "\<not> lk_fails witness_kernel n" "rootfs_ok witness_rootfs" "sys_table_ok (lk_sys witness_kernel)" "t_seccomp witness_task = []"
  "collect_exec_identities H mi (lp_exec_paths (witness_launch p)) (lp_exec_prefixes (witness_launch p)) = Inr []"
  "lp_seccomp_profile (witness_launch p) = p" "task_caps_ok witness_kernel witness_task"
  by (simp_all add: witness_kernel_def witness_rootfs_def witness_task_def witness_launch_def rootfs_ok_def
      collect_exec_identities_def sys_table_ok_def denied_def allow_def task_caps_ok_def mask_numeral)

definition witness_host :: host where
  "witness_host = \<lparr>read_dir = (\<lambda>_. None), stat = (\<lambda>_. None), read_file = (\<lambda>_. None), sha256 = id, dev_major = id, dev_minor = id\<rparr>"


lemma witness_ready:
  assumes "lp_seccomp_profile lp = PROFILE_DEFAULT" "collect_exec_identities H mi (lp_exec_paths lp) (lp_exec_prefixes lp) = Inr ids"
  obtains t' prog where "child_prepare witness_kernel H mi witness_rootfs lp witness_task = (Inr ids, t')"
    "t_seccomp t' = [prog]" "decides witness_kernel PROFILE_DEFAULT prog"
proof -
  obtain t' where t': "child_prepare witness_kernel H mi witness_rootfs lp witness_task = (Inr ids, t')"
    using child_ready [OF witness_kernel_ok(1-4) assms(2,1)] by blast
  with child_confined [OF t' witness_kernel_ok(7)] that assms(1) show ?thesis
    by (auto simp: confined_def witness_kernel_ok)
qed

end
