(* ===== verification/Launch.thy ===== *)
theory Launch
  imports Child_Setup
begin

text \<open>
  One launch (\<^verbatim>\<open>Launcher::spawn\<close>, \<^verbatim>\<open>launcher.rs\<close>): the parent in the daemon and the cloned child run
  concurrently and meet on a socket pair. The protocol is a step relation over both; the lemmas show that the
  command runs only when the child is confined and the policy installation for the identities it reported has
  succeeded, and that every launch settles. Also here: the user-id ranges launches reserve, the ownership
  of the writable layers, and the translation of exit states.
\<close>

section \<open>User-id ranges\<close>

definition UID_RANGE_SIZE :: u32 where "UID_RANGE_SIZE = 65536"

text \<open>\<^verbatim>\<open>next_uid_base\<close> starts at 100000; \<^verbatim>\<open>fetch_add\<close> on an \<^verbatim>\<open>AtomicU32\<close> returns the old value and wraps around.\<close>

definition new_uid_base :: u32 where "new_uid_base = 100000"

definition reserve_uid_base :: "u32 \<Rightarrow> u32 \<times> u32" where
  "reserve_uid_base next_uid_base = (next_uid_base, next_uid_base + UID_RANGE_SIZE)"

definition uid_map :: "u32 \<Rightarrow> string" where
  "uid_map uid_base = ''0 '' @ show_uint (unat uid_base) @ '' '' @ show_uint (unat UID_RANGE_SIZE) @ [CHR 0x0A]"

text \<open>The files under \<^verbatim>\<open>/proc\<close> written for the namespace, \<^verbatim>\<open>setgroups\<close> before the group map; \<^verbatim>\<open>ok\<close> says which
  writes the kernel accepts.\<close>

definition userns_file :: "nat \<Rightarrow> string \<Rightarrow> string" where
  "userns_file pid f = ''/proc/'' @ show_uint pid @ ''/'' @ f"

definition write_userns_maps ::
    "(string \<Rightarrow> bool) \<Rightarrow> nat \<Rightarrow> u32 \<Rightarrow> (string \<times> string) list \<Rightarrow> (error + unit) \<times> (string \<times> string) list" where
  "write_userns_maps ok pid uid_base =
     siter (\<lambda>(f, c) written. if ok (userns_file pid f) then (Inr (), written @ [(userns_file pid f, c)])
                             else (Inl (NamespaceSetup f), written))
       [(''setgroups'', ''deny''), (''uid_map'', uid_map uid_base), (''gid_map'', uid_map uid_base)]"

section \<open>Namespaces of the child\<close>

definition CLONE_NEWTIME :: u64 where "CLONE_NEWTIME = 0x00000080"
definition CLONE_NEWNS :: u64 where "CLONE_NEWNS = 0x00020000"
definition CLONE_NEWCGROUP :: u64 where "CLONE_NEWCGROUP = 0x02000000"
definition CLONE_NEWUTS :: u64 where "CLONE_NEWUTS = 0x04000000"
definition CLONE_NEWIPC :: u64 where "CLONE_NEWIPC = 0x08000000"
definition CLONE_NEWUSER :: u64 where "CLONE_NEWUSER = 0x10000000"
definition CLONE_NEWPID :: u64 where "CLONE_NEWPID = 0x20000000"
definition CLONE_NEWNET :: u64 where "CLONE_NEWNET = 0x40000000"
definition CLONE_PIDFD :: u64 where "CLONE_PIDFD = 0x00001000"
definition CLONE_INTO_CGROUP :: u64 where "CLONE_INTO_CGROUP = 0x200000000"

definition clone_flags :: "bool \<Rightarrow> u64" where
  "clone_flags use_clone_into_cgroup =
     (let flags = CLONE_NEWUSER OR CLONE_NEWPID OR CLONE_NEWNS OR CLONE_NEWNET OR CLONE_NEWIPC OR CLONE_NEWUTS OR
            CLONE_NEWCGROUP OR CLONE_NEWTIME OR CLONE_PIDFD
      in if use_clone_into_cgroup then flags OR CLONE_INTO_CGROUP else flags)"

section \<open>Ownership of the writable layers\<close>

text \<open>A directory entry as \<^verbatim>\<open>symlink_metadata\<close> sees it: a directory with its entries, or anything else.\<close>

datatype fs_node = DirNode string "fs_node list" | OtherNode string

primrec node_path :: "fs_node \<Rightarrow> string" where
  "node_path (DirNode p es) = p"
| "node_path (OtherNode p) = p"

text \<open>The state is the list of \<^verbatim>\<open>lchown\<close> calls made; \<^verbatim>\<open>refuse\<close> says which paths the kernel refuses.\<close>

primrec chown_recursive :: "(string \<Rightarrow> bool) \<Rightarrow> u32 \<Rightarrow> fs_node \<Rightarrow> (string \<times> u32) list \<Rightarrow> (error + unit) \<times> (string \<times> u32) list"
  and chown_entries :: "(string \<Rightarrow> bool) \<Rightarrow> u32 \<Rightarrow> fs_node list \<Rightarrow> (string \<times> u32) list \<Rightarrow> (error + unit) \<times> (string \<times> u32) list" where
  "chown_recursive refuse uid (OtherNode p) = (\<lambda>l. if refuse p then (Inl (MountSetup ''lchown''), l) else (Inr (), l @ [(p, uid)]))"
| "chown_recursive refuse uid (DirNode p es) =
     (\<lambda>l. if refuse p then (Inl (MountSetup ''lchown''), l) else chown_entries refuse uid es (l @ [(p, uid)]))"
| "chown_entries refuse uid [] = sreturn ()"
| "chown_entries refuse uid (e # es) = sbind (chown_recursive refuse uid e) (\<lambda>_. chown_entries refuse uid es)"

definition chown_upper_and_work ::
    "(string \<Rightarrow> bool) \<Rightarrow> u32 \<Rightarrow> fs_node \<Rightarrow> fs_node \<Rightarrow> (string \<times> u32) list \<Rightarrow> (error + unit) \<times> (string \<times> u32) list" where
  "chown_upper_and_work refuse uid up wk = sbind (chown_recursive refuse uid up) (\<lambda>_. chown_recursive refuse uid wk)"

text \<open>A successful walk has changed the owner of every entry of the tree, each before its own entries, and of
  nothing else; a symbolic link is an entry like any other and is not followed.\<close>

primrec node_paths :: "fs_node \<Rightarrow> string list"
  and entry_paths :: "fs_node list \<Rightarrow> string list" where
  "node_paths (OtherNode p) = [p]"
| "node_paths (DirNode p es) = p # entry_paths es"
| "entry_paths [] = []"
| "entry_paths (e # es) = node_paths e @ entry_paths es"

lemma chown_recursive_exact:
  "chown_recursive refuse uid n l = (Inr u, l') \<Longrightarrow> l' = l @ map (\<lambda>p. (p, uid)) (node_paths n)"
  "chown_entries refuse uid ns l = (Inr u, l') \<Longrightarrow> l' = l @ map (\<lambda>p. (p, uid)) (entry_paths ns)"
  by (induction n and ns arbitrary: l l' and l l' rule: chown_recursive.induct chown_entries.induct)
     (fastforce simp: sbind_Inr_iff split: if_splits)+

section \<open>The protocol\<close>

text \<open>
  Where the parent is: writing the user maps, joining the cgroup when the kernel could not clone into it,
  releasing the child's set-up, waiting for its report, installing the policy for the reported identities,
  releasing the command; or returned. Where the child is: blocked on the first byte, confined and blocked
  on the second, running the command, or gone.
\<close>

datatype parent_pc = PMaps | PJoin | PSync | PRecv | PInstall "ExecIdentity list" | PGo | POk | PErr error

datatype child_pc = CBlocked | CWaitGo | CExecd | CDead

text \<open>What a launch is about, and its state: the bytes the parent wrote and the child has not read, the messages
  the child sent and the parent has not read, whether the child was killed through its pidfd, whether the user
  maps are written and the child is in its cgroup, the child's task, and the state \<^verbatim>\<open>'b\<close> that
  \<^verbatim>\<open>install_policy\<close> works on.\<close>

record launch_args =
  la_kernel :: launch_kernel
  la_host :: host
  la_mountinfo :: "string option"
  la_rootfs :: Rootfs
  la_policy :: LaunchPolicy
  la_vars :: "(string \<times> string) list"
  la_cmd :: string
  la_argv :: "string list"
  la_into_cgroup :: bool

record 'b launch =
  l_parent :: parent_pc
  l_child :: child_pc
  l_go :: nat
  l_inbox :: "ChildMsg list"
  l_killed :: bool
  l_maps :: bool
  l_cgroup :: bool
  l_task :: task
  l_install :: 'b

definition prepare_of :: "launch_args \<Rightarrow> task \<Rightarrow> (string + ExecIdentity list) \<times> task" where
  "prepare_of A = child_prepare (la_kernel A) (la_host A) (la_mountinfo A) (la_rootfs A) (la_policy A)"

definition exec_of :: "launch_args \<Rightarrow> task \<Rightarrow> (string + unit) \<times> task" where
  "exec_of A = child_exec (la_kernel A) (la_vars A) (la_cmd A) (la_argv A)"

definition launch_init :: "launch_args \<Rightarrow> task \<Rightarrow> 'b \<Rightarrow> 'b launch" where
  "launch_init A t b = \<lparr>l_parent = PMaps, l_child = CBlocked, l_go = 0, l_inbox = [], l_killed = False, l_maps = False,
     l_cgroup = la_into_cgroup A, l_task = t, l_install = b\<rparr>"

text \<open>The parent, one rule per branch of \<^verbatim>\<open>spawn\<close> after \<^verbatim>\<open>clone3\<close>. A failed first write, a failed receive and an
  early exit return without killing the child.\<close>

inductive parent_step ::
    "launch_args \<Rightarrow> (ExecIdentity list \<Rightarrow> 'b \<Rightarrow> (error + unit) \<times> 'b) \<Rightarrow> 'b launch \<Rightarrow> 'b launch \<Rightarrow> bool"
  for A install where
  maps_ok: "l_parent s = PMaps \<Longrightarrow>
    parent_step A install s (s\<lparr>l_parent := if la_into_cgroup A then PSync else PJoin, l_maps := True\<rparr>)"
| maps_fail: "l_parent s = PMaps \<Longrightarrow> parent_step A install s (s\<lparr>l_parent := PErr (NamespaceSetup m), l_killed := True\<rparr>)"
| join_ok: "l_parent s = PJoin \<Longrightarrow> parent_step A install s (s\<lparr>l_parent := PSync, l_cgroup := True\<rparr>)"
| join_fail: "l_parent s = PJoin \<Longrightarrow> parent_step A install s (s\<lparr>l_parent := PErr (CgroupSetup m), l_killed := True\<rparr>)"
| sync_ok: "l_parent s = PSync \<Longrightarrow> parent_step A install s (s\<lparr>l_parent := PRecv, l_go := Suc (l_go s)\<rparr>)"
| sync_fail: "l_parent s = PSync \<Longrightarrow> parent_step A install s (s\<lparr>l_parent := PErr (LaunchFailed ''sync send'')\<rparr>)"
| recv_ready: "l_parent s = PRecv \<Longrightarrow> l_inbox s = ReadyMsg ids # ms \<Longrightarrow>
    parent_step A install s (s\<lparr>l_parent := PInstall ids, l_inbox := ms\<rparr>)"
| recv_error: "l_parent s = PRecv \<Longrightarrow> l_inbox s = ErrorMsg e # ms \<Longrightarrow>
    parent_step A install s (s\<lparr>l_parent := PErr (LaunchFailed (''child error: '' @ e)), l_inbox := ms, l_killed := True\<rparr>)"
| recv_exited: "l_parent s = PRecv \<Longrightarrow> l_inbox s = ExitedMsg c # ms \<Longrightarrow>
    parent_step A install s (s\<lparr>l_parent := PErr (LaunchFailed ''child exited early''), l_inbox := ms\<rparr>)"
| recv_eof: "l_parent s = PRecv \<Longrightarrow> l_inbox s = [] \<Longrightarrow> l_child s = CDead \<Longrightarrow>
    parent_step A install s (s\<lparr>l_parent := PErr (LaunchFailed ''child recv (len)'')\<rparr>)"
| recv_bad: "l_parent s = PRecv \<Longrightarrow> l_inbox s = m # ms \<Longrightarrow>
    parent_step A install s (s\<lparr>l_parent := PErr (LaunchFailed ''child message too large''), l_inbox := ms\<rparr>)"
| install_ok: "l_parent s = PInstall ids \<Longrightarrow> install ids (l_install s) = (Inr (), b) \<Longrightarrow>
    parent_step A install s (s\<lparr>l_parent := PGo, l_install := b\<rparr>)"
| install_fail: "l_parent s = PInstall ids \<Longrightarrow> install ids (l_install s) = (Inl e, b) \<Longrightarrow>
    parent_step A install s (s\<lparr>l_parent := PErr e, l_install := b, l_killed := True\<rparr>)"
| go_ok: "l_parent s = PGo \<Longrightarrow> parent_step A install s (s\<lparr>l_parent := POk, l_go := Suc (l_go s)\<rparr>)"
| go_fail: "l_parent s = PGo \<Longrightarrow> parent_step A install s (s\<lparr>l_parent := PErr (LaunchFailed ''release child''), l_killed := True\<rparr>)"

text \<open>The child. It is set up in one step: until it reports, the parent waits. A failing child reports the reason,
  unless seccomp or the parent killed it; an end of the socket that the parent has closed reads as end of
  file.\<close>

definition parent_gone :: "'b launch \<Rightarrow> bool" where
  "parent_gone s \<longleftrightarrow> (case l_parent s of PErr _ \<Rightarrow> True | _ \<Rightarrow> False)"

inductive child_step :: "launch_args \<Rightarrow> 'b launch \<Rightarrow> 'b launch \<Rightarrow> bool" for A where
  ready: "l_child s = CBlocked \<Longrightarrow> l_go s = Suc n \<Longrightarrow> prepare_of A (l_task s) = (Inr ids, t) \<Longrightarrow>
    child_step A s (s\<lparr>l_child := CWaitGo, l_go := n, l_inbox := l_inbox s @ [ReadyMsg ids], l_task := t\<rparr>)"
| not_ready: "l_child s = CBlocked \<Longrightarrow> l_go s = Suc n \<Longrightarrow> prepare_of A (l_task s) = (Inl e, t) \<Longrightarrow>
    ms = [ErrorMsg e] \<or> ms = [] \<Longrightarrow>
    child_step A s (s\<lparr>l_child := CDead, l_go := n, l_inbox := l_inbox s @ ms, l_task := t\<rparr>)"
| exec: "l_child s = CWaitGo \<Longrightarrow> l_go s = Suc n \<Longrightarrow> exec_of A (l_task s) = (Inr (), t) \<Longrightarrow>
    child_step A s (s\<lparr>l_child := CExecd, l_go := n, l_task := t\<rparr>)"
| exec_fail: "l_child s = CWaitGo \<Longrightarrow> l_go s = Suc n \<Longrightarrow> exec_of A (l_task s) = (Inl e, t) \<Longrightarrow>
    ms = [ErrorMsg e] \<or> ms = [] \<Longrightarrow>
    child_step A s (s\<lparr>l_child := CDead, l_go := n, l_inbox := l_inbox s @ ms, l_task := t\<rparr>)"
| eof: "l_child s = CBlocked \<or> l_child s = CWaitGo \<Longrightarrow> l_go s = 0 \<Longrightarrow> parent_gone s \<Longrightarrow>
    child_step A s (s\<lparr>l_child := CDead\<rparr>)"
| killed: "l_killed s \<Longrightarrow> l_child s \<noteq> CDead \<Longrightarrow> child_step A s (s\<lparr>l_child := CDead\<rparr>)"

definition launch_step ::
    "launch_args \<Rightarrow> (ExecIdentity list \<Rightarrow> 'b \<Rightarrow> (error + unit) \<times> 'b) \<Rightarrow> 'b launch \<Rightarrow> 'b launch \<Rightarrow> bool" where
  "launch_step A install s s' \<longleftrightarrow> parent_step A install s s' \<or> child_step A s s'"

inductive launches ::
    "launch_args \<Rightarrow> (ExecIdentity list \<Rightarrow> 'b \<Rightarrow> (error + unit) \<times> 'b) \<Rightarrow> task \<Rightarrow> 'b \<Rightarrow> 'b launch \<Rightarrow> bool"
  for A install t b where
  start: "launches A install t b (launch_init A t b)"
| step: "launches A install t b s \<Longrightarrow> launch_step A install s s' \<Longrightarrow> launches A install t b s'"

section \<open>Exit states\<close>

datatype si_code = CLD_EXITED | CLD_KILLED | CLD_DUMPED | CLD_OTHER

definition CHILD_SETUP_FAILED_EXIT :: int where "CHILD_SETUP_FAILED_EXIT = 127"

text \<open>\<^verbatim>\<open>wait\<close>: the answers of \<^verbatim>\<open>waitid\<close>, in order, with interrupted ones retried; then the exit code, and for
  127 the message the child may have left.\<close>

datatype waitid_answer = Interrupted | WaitFailed | Exited si_code int

fun waitid_loop :: "waitid_answer list \<Rightarrow> (error + si_code \<times> int) option" where
  "waitid_loop [] = None"
| "waitid_loop (Interrupted # as) = waitid_loop as"
| "waitid_loop (WaitFailed # as) = Some (Inl (LaunchFailed ''waitid''))"
| "waitid_loop (Exited c st # as) = Some (Inr (c, st))"

definition exit_status :: "si_code \<Rightarrow> int \<Rightarrow> int" where
  "exit_status si_code si_status = (case si_code of CLD_EXITED \<Rightarrow> si_status | CLD_KILLED \<Rightarrow> 128 + si_status
     | CLD_DUMPED \<Rightarrow> 128 + si_status | CLD_OTHER \<Rightarrow> si_status)"

definition late_child_error :: "ChildMsg list \<Rightarrow> string option" where
  "late_child_error inbox = (case inbox of ErrorMsg e # _ \<Rightarrow> Some e | _ \<Rightarrow> None)"

definition supervisor_wait :: "ChildMsg list \<Rightarrow> waitid_answer list \<Rightarrow> (error + int) option" where
  "supervisor_wait inbox as =
     (case waitid_loop as of
        None \<Rightarrow> None
      | Some (Inl e) \<Rightarrow> Some (Inl e)
      | Some (Inr (c, st)) \<Rightarrow>
          let code = exit_status c st
          in case (if code = CHILD_SETUP_FAILED_EXIT then late_child_error inbox else None) of
               Some reason \<Rightarrow> Some (Inl (LaunchFailed reason))
             | None \<Rightarrow> Some (Inr code))"

section \<open>The invariant of a launch\<close>

inductive_cases parent_stepE: "parent_step A install s s'"
inductive_cases child_stepE: "child_step A s s'"

definition waiting :: "launch_args \<Rightarrow> task \<Rightarrow> 'b \<Rightarrow> 'b launch \<Rightarrow> bool" where
  "waiting A t b s \<longleftrightarrow> l_child s = CBlocked \<and> l_go s = 0 \<and> l_inbox s = [] \<and> l_task s = t \<and> l_install s = b \<and> \<not> l_killed s"

definition set_up :: "'b launch \<Rightarrow> bool" where
  "set_up s \<longleftrightarrow> l_maps s \<and> l_cgroup s \<and> \<not> l_killed s"

definition confined_waiting :: "launch_args \<Rightarrow> task \<Rightarrow> ExecIdentity list \<Rightarrow> 'b launch \<Rightarrow> bool" where
  "confined_waiting A t ids s \<longleftrightarrow>
     set_up s \<and> l_child s = CWaitGo \<and> l_go s = 0 \<and> prepare_of A t = (Inr ids, l_task s)"

definition launch_inv ::
    "launch_args \<Rightarrow> (ExecIdentity list \<Rightarrow> 'b \<Rightarrow> (error + unit) \<times> 'b) \<Rightarrow> task \<Rightarrow> 'b \<Rightarrow> 'b launch \<Rightarrow> bool" where
  "launch_inv A install t b s \<longleftrightarrow>
     (case l_parent s of
        PMaps \<Rightarrow> waiting A t b s \<and> l_cgroup s = la_into_cgroup A
      | PJoin \<Rightarrow> waiting A t b s \<and> l_maps s
      | PSync \<Rightarrow> waiting A t b s \<and> set_up s
      | PRecv \<Rightarrow> set_up s \<and> l_install s = b \<and>
          (l_child s = CBlocked \<and> l_go s = 1 \<and> l_inbox s = [] \<and> l_task s = t \<or>
           (\<exists>ids. confined_waiting A t ids s \<and> l_inbox s = [ReadyMsg ids]) \<or>
           l_child s = CDead \<and> (l_inbox s = [] \<or> (\<exists>e. l_inbox s = [ErrorMsg e])))
      | PInstall ids \<Rightarrow> confined_waiting A t ids s \<and> l_install s = b \<and> l_inbox s = []
      | PGo \<Rightarrow> (\<exists>ids. confined_waiting A t ids s \<and> install ids b = (Inr (), l_install s)) \<and> l_inbox s = []
      | POk \<Rightarrow> set_up s \<and>
          (\<exists>ids t1. prepare_of A t = (Inr ids, t1) \<and> install ids b = (Inr (), l_install s) \<and>
             (l_child s = CWaitGo \<and> l_go s = 1 \<and> l_task s = t1 \<or>
              l_child s = CExecd \<and> exec_of A t1 = (Inr (), l_task s) \<or>
              l_child s = CDead))
      | PErr _ \<Rightarrow> l_child s \<noteq> CExecd \<and> (l_child s = CDead \<or> l_go s = 0))"

lemmas launch_inv_simps = launch_inv_def waiting_def set_up_def confined_waiting_def

lemma parent_step_inv: "parent_step A install s s' \<Longrightarrow> launch_inv A install t b s \<Longrightarrow> launch_inv A install t b s'"
  by (erule parent_stepE) (auto simp: launch_inv_simps)

lemma child_step_inv: "child_step A s s' \<Longrightarrow> launch_inv A install t b s \<Longrightarrow> launch_inv A install t b s'"
  by (erule child_stepE) (auto simp: launch_inv_simps parent_gone_def split: parent_pc.splits)

lemma launches_inv: "launches A install t b s \<Longrightarrow> launch_inv A install t b s"
proof (induction rule: launches.induct)
  case start
  show ?case by (simp add: launch_init_def launch_inv_simps)
next
  case (step s s')
  then show ?case by (auto simp: launch_step_def intro: parent_step_inv child_step_inv)
qed

section \<open>What a launch guarantees\<close>

lemma cstrings_Inr: "cstrings msg xs = Inr ys \<Longrightarrow> ys = xs"
  unfolding cstrings_def by (induction xs arbitrary: ys) (auto simp: rbind_Inr_iff split: if_splits)

lemma exec_of_effect:
  assumes "exec_of A t = (Inr u, t')"
  shows "\<exists>n. t' = t\<lparr>t_clock := n, t_exec := Some (la_cmd A, la_cmd A # la_argv A, map (\<lambda>(k, v). k @ ''='' @ v) (la_vars A))\<rparr>"
  using assms by (auto simp: exec_of_def child_exec_def sbind_Inr_iff syscall_Inr dest!: cstrings_Inr [OF sym])

lemma confined_exec: "confined K r p (t\<lparr>t_clock := n, t_exec := x\<rparr>) = confined K r p t"
  by (simp add: confined_def)

text \<open>
  C24. A command runs only in a confined child under an installed policy. In every state of every interleaving
  of parent and child, whichever calls failed: if the child executes the command, then the parent has
  returned successfully, the user maps are written and the child is in its cgroup; \<^verbatim>\<open>install_policy\<close> has
  succeeded for exactly the identities collected inside the sandbox; and the task is confined - the
  unprivileged user, no capability in any of its five sets, \<^verbatim>\<open>no_new_privs\<close>, the overlay as root with
  the old root detached, the Landlock rules of the plan, the seccomp program of the profile, exactly the
  mounts of a sandbox - and runs the given command, arguments and environment.
\<close>
theorem command_runs_only_confined:
  assumes "launches A install t b s" "l_child s = CExecd" "task_caps_ok (la_kernel A) t"
  shows "l_parent s = POk \<and> l_maps s \<and> l_cgroup s \<and>
    (\<exists>ids. collect_exec_identities (la_host A) (la_mountinfo A) (lp_exec_paths (la_policy A)) (lp_exec_prefixes (la_policy A)) = Inr ids \<and>
       install ids b = (Inr (), l_install s)) \<and>
    confined (la_kernel A) (la_rootfs A) (la_policy A) (l_task s) \<and>
    t_mounts (l_task s) = t_mounts t @ sandbox_mounts (la_rootfs A) \<and>
    t_exec (l_task s) = Some (la_cmd A, la_cmd A # la_argv A, map (\<lambda>(k, v). k @ ''='' @ v) (la_vars A))"
proof -
  have ok: "l_parent s = POk"
    using launches_inv [OF assms(1)] assms(2) by (auto simp: launch_inv_simps split: parent_pc.splits)
  with launches_inv [OF assms(1)] assms(2) obtain ids t1 where
    s: "set_up s" "prepare_of A t = (Inr ids, t1)" "install ids b = (Inr (), l_install s)" "exec_of A t1 = (Inr (), l_task s)"
    by (auto simp: launch_inv_def)
  from exec_of_effect [OF s(4)] obtain n where
    "l_task s = t1\<lparr>t_clock := n, t_exec := Some (la_cmd A, la_cmd A # la_argv A, map (\<lambda>(k, v). k @ ''='' @ v) (la_vars A))\<rparr>" ..
  with child_confined [OF s(2) [unfolded prepare_of_def] assms(3)] s(1,3) ok show ?thesis
    by (simp add: confined_exec set_up_def)
qed

definition witness_args :: launch_args where
  "witness_args = \<lparr>la_kernel = witness_kernel, la_host = witness_host, la_mountinfo = None, la_rootfs = witness_rootfs,
     la_policy = witness_launch PROFILE_DEFAULT, la_vars = [(''K'', ''v'')], la_cmd = ''/bin/ls'', la_argv = [''-l''], la_into_cgroup = True\<rparr>"

definition witness_install :: "ExecIdentity list \<Rightarrow> nat \<Rightarrow> (error + unit) \<times> nat" where
  "witness_install ids n = (Inr (), Suc n)"

lemma default_passes:
  assumes "decides K PROFILE_DEFAULT prog" "t_seccomp t = [prog]" "List.find (\<lambda>(d, _). of_int (lk_sys K d) = (of_int (lk_sys K s) :: u32)) denied = None"
  shows "filters_allow K t s"
  using assms by (simp add: filters_allow_def decides_def seccomp_decision_def)

abbreviation witness_args_for :: "host \<Rightarrow> string option \<Rightarrow> LaunchPolicy \<Rightarrow> launch_args" where
  "witness_args_for H mi lp \<equiv> witness_args\<lparr>la_host := H, la_mountinfo := mi, la_policy := lp\<rparr>"

lemma witness_exec:
  assumes "t_seccomp t = [prog]" "decides witness_kernel PROFILE_DEFAULT prog"
  shows "\<exists>t'. exec_of (witness_args_for H mi lp) t = (Inr (), t')"
proof -
  have "filters_allow witness_kernel t' ''read''" "filters_allow witness_kernel t' ''execve''" if "t_seccomp t' = [prog]" for t'
    by (rule default_passes [OF assms(2) that]; simp add: witness_kernel_def denied_def)+
  with assms(1) show ?thesis
    by (simp add: exec_of_def child_exec_def witness_args_def cstrings_def sbind_def syscall_def Let_def slift_def rbind_def witness_kernel_ok(1))
qed

lemma launches_parent: "launches A install t b s \<Longrightarrow> parent_step A install s s' \<Longrightarrow> launches A install t b s'"
  by (erule launches.step) (unfold launch_step_def, blast)

lemma launches_child: "launches A install t b s \<Longrightarrow> child_step A s s' \<Longrightarrow> launches A install t b s'"
  by (erule launches.step) (unfold launch_step_def, blast)

lemma witness_run:
  assumes lp: "lp_seccomp_profile lp = PROFILE_DEFAULT" "collect_exec_identities H mi (lp_exec_paths lp) (lp_exec_prefixes lp) = Inr ids"
    and "inst ids b = (Inr (), b')"
  shows "\<exists>s. launches (witness_args_for H mi lp) inst witness_task b s \<and> l_child s = CExecd"
proof -
  let ?A = "witness_args_for H mi lp"
  obtain t1 prog where t1: "prepare_of ?A witness_task = (Inr ids, t1)" "t_seccomp t1 = [prog]" "decides witness_kernel PROFILE_DEFAULT prog"
    by (rule witness_ready [OF lp]) (simp add: prepare_of_def witness_args_def)
  obtain t2 where t2: "exec_of ?A t1 = (Inr (), t2)" using witness_exec t1 by blast
  note L = launches_parent [where A = ?A and install = inst and t = witness_task and b = b]
    launches_child [where A = ?A and install = inst and t = witness_task and b = b]
  have "launches ?A inst witness_task b (launch_init ?A witness_task b)" by (rule launches.start)
  from L(1) [OF this maps_ok] have "launches ?A inst witness_task b
      ((launch_init ?A witness_task b)\<lparr>l_parent := PSync, l_maps := True\<rparr>)"
    by (simp add: launch_init_def witness_args_def)
  from L(1) [OF this sync_ok] have "launches ?A inst witness_task b
      ((launch_init ?A witness_task b)\<lparr>l_parent := PRecv, l_maps := True, l_go := 1\<rparr>)"
    by (simp add: launch_init_def)
  from L(2) [OF this ready [where n = 0 and t = t1 and ids = ids]] have "launches ?A inst witness_task b
      ((launch_init ?A witness_task b)\<lparr>l_parent := PRecv, l_maps := True, l_child := CWaitGo, l_inbox := [ReadyMsg ids], l_task := t1\<rparr>)"
    using t1(1) by (simp add: launch_init_def)
  from L(1) [OF this recv_ready [where ids = ids and ms = "[]"]] have "launches ?A inst witness_task b
      ((launch_init ?A witness_task b)\<lparr>l_parent := PInstall ids, l_maps := True, l_child := CWaitGo, l_task := t1\<rparr>)"
    by (simp add: launch_init_def)
  from L(1) [OF this install_ok [where ids = ids and b = b']] have "launches ?A inst witness_task b
      ((launch_init ?A witness_task b)\<lparr>l_parent := PGo, l_maps := True, l_child := CWaitGo, l_task := t1, l_install := b'\<rparr>)"
    using assms(3) by (simp add: launch_init_def)
  from L(1) [OF this go_ok] have "launches ?A inst witness_task b
      ((launch_init ?A witness_task b)\<lparr>l_parent := POk, l_maps := True, l_child := CWaitGo, l_task := t1, l_install := b', l_go := 1\<rparr>)"
    by (simp add: launch_init_def)
  from L(2) [OF this exec [where n = 0 and t = t2]] t2 show ?thesis by (force simp: launch_init_def)
qed

lemma witness_args_run:
  assumes "inst [] b = (Inr (), b')"
  shows "\<exists>s. launches witness_args inst witness_task b s \<and> l_child s = CExecd"
  using witness_run [where lp = "witness_launch PROFILE_DEFAULT" and H = witness_host and mi = None and inst = inst and ids = "[]" and b = b, OF _ _ assms]
  by (simp add: witness_kernel_ok(5,6) witness_args_def)

theorem command_runs_only_confined_witness:
  "\<exists>s. launches witness_args witness_install witness_task 7 s \<and> l_child s = CExecd \<and> l_install s = 8 \<and>
     confined witness_kernel witness_rootfs (witness_launch PROFILE_DEFAULT) (l_task s) \<and>
     t_exec (l_task s) = Some (''/bin/ls'', [''/bin/ls'', ''-l''], [''K=v''])"
proof -
  obtain s where s: "launches witness_args witness_install witness_task 7 s" "l_child s = CExecd"
    using witness_args_run [of witness_install 7 8] by (auto simp: witness_install_def)
  have "task_caps_ok (la_kernel witness_args) witness_task" by (simp add: witness_args_def witness_kernel_ok(7))
  from command_runs_only_confined [OF s this] s show ?thesis
    by (intro exI [of _ s]) (auto simp: witness_args_def witness_install_def)
qed

section \<open>Every launch settles\<close>

fun parent_rank :: "parent_pc \<Rightarrow> nat" where
  "parent_rank PMaps = 6" | "parent_rank PJoin = 5" | "parent_rank PSync = 4" | "parent_rank PRecv = 3"
| "parent_rank (PInstall _) = 2" | "parent_rank PGo = 1" | "parent_rank _ = 0"

fun child_rank :: "child_pc \<Rightarrow> nat" where
  "child_rank CBlocked = 3" | "child_rank CWaitGo = 2" | "child_rank CExecd = 1" | "child_rank CDead = 0"

lemma launch_step_decreases:
  "launch_step A install s s' \<Longrightarrow>
   parent_rank (l_parent s') + child_rank (l_child s') < parent_rank (l_parent s) + child_rank (l_child s)"
  unfolding launch_step_def
proof (elim disjE)
  assume "child_step A s s'"
  then show ?thesis by (cases rule: child_step.cases) (auto, cases "l_child s", auto)
qed (erule parent_stepE; simp)

definition settled :: "'b launch \<Rightarrow> bool" where
  "settled s \<longleftrightarrow>
     (case l_parent s of POk \<Rightarrow> l_child s \<in> {CExecd, CDead} | PErr _ \<Rightarrow> l_child s = CDead | _ \<Rightarrow> False)"

text \<open>Where a launch can still move.\<close>

lemma moves_parent:
  "launch_inv A install t b s \<Longrightarrow> l_parent s \<noteq> PRecv \<Longrightarrow> l_parent s \<noteq> POk \<Longrightarrow> \<not> parent_gone s \<Longrightarrow> \<exists>s'. parent_step A install s s'"
proof (cases "l_parent s")
  case (PInstall ids)
  obtain r b' where "install ids (l_install s) = (r, b')" by force
  then show ?thesis using PInstall by (cases r) (auto intro: install_ok install_fail)
qed (auto simp: parent_gone_def intro: maps_ok join_ok sync_ok go_ok)

lemma moves_recv:
  assumes "launch_inv A install t b s" "l_parent s = PRecv"
  shows "\<exists>s'. launch_step A install s s'"
proof (cases "l_inbox s")
  case Nil
  show ?thesis
  proof (cases "l_child s = CDead")
    case True
    with Nil assms(2) show ?thesis unfolding launch_step_def by (blast intro: recv_eof)
  next
    case False
    with Nil assms have c: "l_child s = CBlocked" "l_go s = Suc 0" by (auto simp: launch_inv_simps)
    obtain r t' where "prepare_of A (l_task s) = (r, t')" by force
    with c show ?thesis unfolding launch_step_def by (cases r) (blast intro: ready not_ready)+
  qed
next
  case (Cons m ms)
  with assms(2) show ?thesis unfolding launch_step_def by (blast intro: recv_bad)
qed

lemma moves_released:
  assumes "launch_inv A install t b s" "l_parent s = POk" "l_child s \<notin> {CExecd, CDead}"
  shows "\<exists>s'. launch_step A install s s'"
proof -
  from assms have c: "l_child s = CWaitGo" "l_go s = Suc 0" by (auto simp: launch_inv_def)
  obtain r t' where "exec_of A (l_task s) = (r, t')" by force
  with c show ?thesis unfolding launch_step_def by (cases r) (auto intro: exec exec_fail)
qed

lemma moves_gone:
  assumes "launch_inv A install t b s" "parent_gone s" "l_child s \<noteq> CDead"
  shows "\<exists>s'. launch_step A install s s'"
proof -
  from assms have "l_go s = 0" "l_child s = CBlocked \<or> l_child s = CWaitGo"
    by (cases "l_child s"; auto simp: launch_inv_def parent_gone_def split: parent_pc.splits)+
  with assms(2) show ?thesis unfolding launch_step_def by (blast intro: eof)
qed

text \<open>
  C35. Every launch settles, and a failed one leaves nothing behind. No launch goes on forever, whatever the
  interleaving; and one that can move no further has returned: either successfully, with the child running
  the command or dead after a failed \<^verbatim>\<open>execve\<close>, or with an error, and then the child is dead - also on the
  paths that do not kill it, where it finds the socket closed.
\<close>
theorem launch_settles:
  assumes "launches A install t b s" "\<nexists>s'. launch_step A install s s'"
  shows "settled s \<and> wfP (\<lambda>s' s. launch_step A install s s')"
proof
  note inv = launches_inv [OF assms(1)]
  have stuck: "\<nexists>s'. parent_step A install s s'" "\<nexists>s'. launch_step A install s s'" using assms(2) by (auto simp: launch_step_def)
  show "settled s"
  proof (cases "parent_gone s")
    case True
    with moves_gone [OF inv] stuck(2) show ?thesis by (auto simp: settled_def parent_gone_def split: parent_pc.splits)
  next
    case False
    with moves_parent [OF inv] moves_recv [OF inv] stuck have "l_parent s = POk" by blast
    with moves_released [OF inv] stuck(2) show ?thesis by (auto simp: settled_def)
  qed
  show "wfP (\<lambda>s' s. launch_step A install s s')"
    by (rule wfp_if_convertible_to_nat [of _ "\<lambda>s. parent_rank (l_parent s) + child_rank (l_child s)"])
       (rule launch_step_decreases)
qed

theorem launch_settles_witness:
  "\<exists>s. launches witness_args witness_install witness_task 7 s \<and> l_parent s = PErr (NamespaceSetup ''uid_map'') \<and> settled s"
proof -
  let ?s0 = "launch_init witness_args witness_task (7 :: nat)"
  let ?s1 = "?s0\<lparr>l_parent := PErr (NamespaceSetup ''uid_map''), l_killed := True\<rparr>"
  let ?s2 = "?s1\<lparr>l_child := CDead\<rparr>"
  have "launches witness_args witness_install witness_task 7 ?s1"
    by (rule launches_parent [OF launches.start maps_fail]) (simp add: launch_init_def)
  then have run: "launches witness_args witness_install witness_task 7 ?s2"
    by (rule launches_child [OF _ killed]) (simp_all add: launch_init_def)
  have "\<not> launch_step witness_args witness_install ?s2 s'" for s'
    by (auto simp: launch_step_def launch_init_def elim!: parent_stepE child_stepE)
  then have "settled ?s2" using launch_settles [OF run] by blast
  with run show ?thesis by (intro exI [of _ ?s2]) simp
qed

section \<open>User-id ranges do not overlap\<close>

text \<open>The base the launcher's \<^verbatim>\<open>k\<close>-th launch reserves, and the host ids its map names.\<close>

definition launch_uid_base :: "nat \<Rightarrow> u32" where
  "launch_uid_base k = fst (((\<lambda>(_, n). reserve_uid_base n) ^^ k) (reserve_uid_base new_uid_base))"

definition uid_range :: "nat \<Rightarrow> nat set" where
  "uid_range k = {unat (launch_uid_base k) ..< unat (launch_uid_base k) + unat UID_RANGE_SIZE}"

lemma launch_uid_base_eq: "launch_uid_base k = 100000 + of_nat k * 65536"
proof -
  have "((\<lambda>(_, n). reserve_uid_base n) ^^ k) (reserve_uid_base new_uid_base) =
      (100000 + of_nat k * 65536, 100000 + of_nat (Suc k) * 65536)"
    by (induction k) (simp_all add: reserve_uid_base_def new_uid_base_def UID_RANGE_SIZE_def algebra_simps)
  then show ?thesis by (simp add: launch_uid_base_def)
qed

lemma unat_launch_uid_base: "unat (launch_uid_base k) = (100000 + k * 65536) mod 2 ^ 32"
proof -
  have "launch_uid_base k = of_nat (100000 + k * 65536)" by (simp add: launch_uid_base_eq)
  then show ?thesis by (simp only: unsigned_of_nat take_bit_eq_mod) simp
qed

lemma uid_base_cases:
  "unat (launch_uid_base k) = (if k mod 65536 = 65535 then 34464 else 100000 + (k mod 65536) * 65536)"
proof -
  define q m where "q = k div 65536" and "m = k mod 65536"
  have k: "k = q * 65536 + m" and m: "m < 65536" by (simp_all add: q_def m_def)
  have "100000 + k * 65536 = (100000 + m * 65536) + q * 2 ^ 32" by (simp add: k)
  then have u: "unat (launch_uid_base k) = (100000 + m * 65536) mod 2 ^ 32"
    unfolding unat_launch_uid_base by (simp only: mod_mult_self1)
  show ?thesis
  proof (cases "m = 65535")
    case False
    with m have "100000 + m * 65536 < 2 ^ 32" by simp
    with u False show ?thesis by (simp add: m_def)
  qed (simp add: u m_def [symmetric])
qed

text \<open>
  C37. User-id ranges overlap only after 65536 launches. The ids mapped into the namespaces of two launches of one
  daemon are disjoint exactly when the launches' numbers differ modulo 65536: the 32-bit counter wraps
  around, and launch 65536 maps the same host ids as the first.
\<close>
theorem uid_ranges_disjoint: "uid_range i \<inter> uid_range j = {} \<longleftrightarrow> i mod 65536 \<noteq> j mod 65536"
proof
  assume dis: "uid_range i \<inter> uid_range j = {}"
  show "i mod 65536 \<noteq> j mod 65536"
  proof
    assume "i mod 65536 = j mod 65536"
    then have "launch_uid_base i = launch_uid_base j" by (metis uid_base_cases unsigned_word_eqI)
    then have "unat (launch_uid_base i) \<in> uid_range i \<inter> uid_range j" by (simp add: uid_range_def UID_RANGE_SIZE_def)
    with dis show False by simp
  qed
next
  assume ne: "i mod 65536 \<noteq> j mod 65536"
  have "x \<notin> uid_range j" if "x \<in> uid_range i" for x
  proof -
    define a b where "a = i mod 65536" and "b = j mod 65536"
    have "a < 65536" "b < 65536" "a \<noteq> b" using ne by (simp_all add: a_def b_def)
    with that show ?thesis
      unfolding uid_range_def uid_base_cases UID_RANGE_SIZE_def a_def [symmetric] b_def [symmetric]
      by (auto split: if_splits)
  qed
  then show "uid_range i \<inter> uid_range j = {}" by blast
qed

end
