(* ===== verification/Cgroup.thy ===== *)
theory Cgroup
  imports Launch
begin

text \<open>
  The cgroup of a sandbox (\<^verbatim>\<open>aivisor-runtime/src/cgroup.rs\<close>): creation and delegation, resource limits, freezing,
  killing, the wait for the last task and removal. The cgroup file system answers each access through the
  kernel argument, indexed by the number of accesses so far; the state is that number, the time in
  milliseconds and the accesses that took effect. A sleep takes at least as long as asked for.
\<close>

section \<open>The cgroup file system\<close>

record cgroup_kernel =
  ck_write :: "nat \<Rightarrow> string \<Rightarrow> string \<Rightarrow> bool"
  ck_read :: "nat \<Rightarrow> string \<Rightarrow> string option"
  ck_exists :: "nat \<Rightarrow> string \<Rightarrow> bool"
  ck_mkdir :: "nat \<Rightarrow> string \<Rightarrow> bool"
  ck_opendir :: "nat \<Rightarrow> string \<Rightarrow> bool"
  ck_ino :: "nat \<Rightarrow> string \<Rightarrow> u64 option"
  ck_rmdir :: "nat \<Rightarrow> string \<Rightarrow> bool"
  ck_delay :: "nat \<Rightarrow> nat"

datatype cgroup_op = CgWrite string string | CgRead string "string option" | CgMkdir string | CgRmdir string | CgSigkill int

record cgroup_fs =
  c_clock :: nat
  c_millis :: nat
  c_ops :: "cgroup_op list"

definition c_tick :: "cgroup_op list \<Rightarrow> cgroup_fs \<Rightarrow> cgroup_fs" where
  "c_tick ops s = s\<lparr>c_clock := Suc (c_clock s), c_ops := c_ops s @ ops\<rparr>"

text \<open>\<^verbatim>\<open>fs::write\<close> and \<^verbatim>\<open>fs::read_to_string\<close>, with the error the caller maps a failure to.\<close>

definition write_file :: "cgroup_kernel \<Rightarrow> error \<Rightarrow> string \<Rightarrow> string \<Rightarrow> cgroup_fs \<Rightarrow> (error + unit) \<times> cgroup_fs" where
  "write_file C err f v s =
     (if ck_write C (c_clock s) f v then (Inr (), c_tick [CgWrite f v] s) else (Inl err, c_tick [] s))"

definition read_to_string :: "cgroup_kernel \<Rightarrow> error \<Rightarrow> string \<Rightarrow> cgroup_fs \<Rightarrow> (error + string) \<times> cgroup_fs" where
  "read_to_string C err f s =
     (let c = ck_read C (c_clock s) f in (ok_or err c, c_tick [CgRead f c] s))"

definition c_access :: "(nat \<Rightarrow> bool) \<Rightarrow> error \<Rightarrow> cgroup_op list \<Rightarrow> cgroup_fs \<Rightarrow> (error + unit) \<times> cgroup_fs" where
  "c_access ok err ops s = (if ok (c_clock s) then (Inr (), c_tick ops s) else (Inl err, c_tick [] s))"

definition c_query :: "(nat \<Rightarrow> 'a) \<Rightarrow> cgroup_fs \<Rightarrow> (error + 'a) \<times> cgroup_fs" where
  "c_query q s = (Inr (q (c_clock s)), c_tick [] s)"

text \<open>A result that is discarded (\<^verbatim>\<open>let _ =\<close>, \<^verbatim>\<open>.ok()\<close>).\<close>

definition c_try :: "(cgroup_fs \<Rightarrow> (error + 'a) \<times> cgroup_fs) \<Rightarrow> cgroup_fs \<Rightarrow> (error + 'a option) \<times> cgroup_fs" where
  "c_try m s = (case m s of (Inl _, s') \<Rightarrow> (Inr None, s') | (Inr x, s') \<Rightarrow> (Inr (Some x), s'))"

section \<open>Creation and limits\<close>

record Cgroup =
  cg_path :: string
  cg_id :: u64

definition delegate_controllers :: "cgroup_kernel \<Rightarrow> string \<Rightarrow> cgroup_fs \<Rightarrow> (error + unit) \<times> cgroup_fs" where
  "delegate_controllers C cgroup_root =
     (let subtree_path = pjoin cgroup_root ''cgroup.subtree_control''
      in sbind (c_query (\<lambda>n. ck_exists C n subtree_path)) (\<lambda>present.
         if \<not> present then sfail (CgroupSetup ''cgroup.subtree_control missing under aivisor cgroup root'')
         else sbind (siter (\<lambda>ctrl. write_file C (CgroupSetup ''delegate controller'') subtree_path ctrl) [''+cpu'', ''+memory'', ''+pids'']) (\<lambda>_.
              sbind (c_try (write_file C (CgroupSetup ''delegate controller'') subtree_path ''+io'')) (\<lambda>_. sreturn ()))))"

definition read_cgroup_id :: "cgroup_kernel \<Rightarrow> string \<Rightarrow> cgroup_fs \<Rightarrow> (error + u64) \<times> cgroup_fs" where
  "read_cgroup_id C p = sbind (c_query (\<lambda>n. ck_ino C n p)) (\<lambda>i. slift (ok_or (CgroupSetup ''stat cgroup dir'') i))"

text \<open>The sandbox id is used through its text.\<close>

definition cgroup_create :: "cgroup_kernel \<Rightarrow> string \<Rightarrow> string \<Rightarrow> cgroup_fs \<Rightarrow> (error + Cgroup) \<times> cgroup_fs" where
  "cgroup_create C root id_text =
     (let cgroup_root = pjoin root ''aivisor''; cgroup_path = pjoin cgroup_root id_text
      in sbind (c_access (\<lambda>n. ck_mkdir C n cgroup_root) (CgroupSetup ''failed to create aivisor cgroup root'') []) (\<lambda>_.
         sbind (delegate_controllers C cgroup_root) (\<lambda>_.
         sbind (c_access (\<lambda>n. ck_mkdir C n cgroup_path) (CgroupSetup ''failed to create sandbox cgroup'') [CgMkdir cgroup_path]) (\<lambda>_.
         sbind (c_access (\<lambda>n. ck_opendir C n cgroup_path) (CgroupSetup ''failed to open cgroup dir fd'') []) (\<lambda>_.
         sbind (read_cgroup_id C cgroup_path) (\<lambda>cgid.
           sreturn \<lparr>cg_path = cgroup_path, cg_id = cgid\<rparr>))))))"

definition show_word :: "'a::len word \<Rightarrow> string" where
  "show_word w = show_uint (unat w)"

text \<open>The writes of \<^verbatim>\<open>apply\<close>, in order. Without an explicit soft limit, \<^verbatim>\<open>memory.high\<close> is nine tenths of the hard one.\<close>

definition memory_high_of :: "ResourceLimits \<Rightarrow> u64 option" where
  "memory_high_of l = (case memory_high l of Some high \<Rightarrow> Some high | None \<Rightarrow> map_option (\<lambda>mx. saturating_mul mx 9 div 10) (memory_max l))"

definition limit_writes :: "ResourceLimits \<Rightarrow> (string \<times> string) list" where
  "limit_writes l =
     (case cpu_max l of None \<Rightarrow> [] | Some cpu \<Rightarrow> [(''cpu.max'', show_word (quota_us cpu) @ '' '' @ show_word (period_us cpu))]) @
     (case memory_high_of l of None \<Rightarrow> [] | Some high \<Rightarrow> [(''memory.high'', show_word high)]) @
     (case memory_max l of None \<Rightarrow> [] | Some mx \<Rightarrow> [(''memory.max'', show_word mx)]) @
     (case pids_max l of None \<Rightarrow> [] | Some pids \<Rightarrow> [(''pids.max'', show_word pids)]) @
     (case swap_max l of None \<Rightarrow> [] | Some swap \<Rightarrow> [(''memory.swap.max'', show_word swap)]) @
     map (\<lambda>io. (''io.max'', show_word (io_major io) @ '':'' @ show_word (io_minor io) @ '' rbps='' @ show_word (rbps io) @
       '' wbps='' @ show_word (wbps io))) (io_max l)"

definition apply_limits :: "cgroup_kernel \<Rightarrow> Cgroup \<Rightarrow> ResourceLimits \<Rightarrow> cgroup_fs \<Rightarrow> (error + unit) \<times> cgroup_fs" where
  "apply_limits C cg l = siter (\<lambda>(f, v). write_file C (Io f) (pjoin (cg_path cg) f) v) (limit_writes l)"

section \<open>Freezing, killing, observing\<close>

definition freeze :: "cgroup_kernel \<Rightarrow> Cgroup \<Rightarrow> cgroup_fs \<Rightarrow> (error + unit) \<times> cgroup_fs" where
  "freeze C cg = write_file C (CgroupSetup ''freeze failed'') (pjoin (cg_path cg) ''cgroup.freeze'') ''1''"

definition thaw :: "cgroup_kernel \<Rightarrow> Cgroup \<Rightarrow> cgroup_fs \<Rightarrow> (error + unit) \<times> cgroup_fs" where
  "thaw C cg = write_file C (CgroupSetup ''thaw failed'') (pjoin (cg_path cg) ''cgroup.freeze'') ''0''"

definition parse_i32 :: "string \<Rightarrow> int option" where
  "parse_i32 s =
     (case s of
        [] \<Rightarrow> None
      | c # ds \<Rightarrow>
          if c = CHR ''-'' then
            (if starts_with ds ''+'' then None
             else case parse_uint 32 ds of Some n \<Rightarrow> if n \<le> 2 ^ 31 then Some (- int n) else None | None \<Rightarrow> None)
          else map_option int (parse_uint 31 s))"

text \<open>The fallback signals each listed task in turn; the result of \<^verbatim>\<open>kill\<close> is ignored.\<close>

fun kill_lines :: "string list \<Rightarrow> cgroup_fs \<Rightarrow> (error + unit) \<times> cgroup_fs" where
  "kill_lines [] s = (Inr (), s)"
| "kill_lines (line # ls) s =
     (case parse_i32 (trim line) of
        None \<Rightarrow> (Inl (CgroupSetup ''invalid pid in cgroup.procs''), s)
      | Some pid \<Rightarrow> kill_lines ls (if pid > 0 then c_tick [CgSigkill pid] s else s))"

definition kill_all :: "cgroup_kernel \<Rightarrow> Cgroup \<Rightarrow> cgroup_fs \<Rightarrow> (error + unit) \<times> cgroup_fs" where
  "kill_all C cg =
     (let kill_path = pjoin (cg_path cg) ''cgroup.kill''
      in sbind (c_query (\<lambda>n. ck_exists C n kill_path)) (\<lambda>present.
         if present then write_file C (CgroupSetup ''cgroup.kill failed'') kill_path ''1''
         else sbind (read_to_string C (CgroupSetup ''read cgroup.procs failed'') (pjoin (cg_path cg) ''cgroup.procs'')) (\<lambda>procs.
                kill_lines (str_lines procs))))"

record CgroupStats =
  memory_current :: "u64 option"
  pids_current :: "u64 option"
  cpu_stat :: "string option"

definition read_u64 :: "cgroup_kernel \<Rightarrow> string \<Rightarrow> cgroup_fs \<Rightarrow> (error + u64) \<times> cgroup_fs" where
  "read_u64 C f =
     sbind (read_to_string C (Io f) f) (\<lambda>c. slift (ok_or (Io ''InvalidData'') (map_option of_nat (parse_uint 64 (trim c)))))"

definition cgroup_stats :: "cgroup_kernel \<Rightarrow> Cgroup \<Rightarrow> cgroup_fs \<Rightarrow> (error + CgroupStats) \<times> cgroup_fs" where
  "cgroup_stats C cg =
     sbind (c_try (read_u64 C (pjoin (cg_path cg) ''memory.current''))) (\<lambda>m.
     sbind (c_try (read_u64 C (pjoin (cg_path cg) ''pids.current''))) (\<lambda>p.
     sbind (c_try (read_to_string C (Io ''cpu.stat'') (pjoin (cg_path cg) ''cpu.stat''))) (\<lambda>c.
       sreturn \<lparr>memory_current = m, pids_current = p, cpu_stat = c\<rparr>)))"

record Psi =
  cpu_pressure :: "string option"
  memory_pressure :: "string option"

definition read_pressure :: "cgroup_kernel \<Rightarrow> string \<Rightarrow> cgroup_fs \<Rightarrow> (error + string) \<times> cgroup_fs" where
  "read_pressure C f = read_to_string C (Io f) f"

definition cgroup_pressure :: "cgroup_kernel \<Rightarrow> Cgroup \<Rightarrow> cgroup_fs \<Rightarrow> (error + Psi) \<times> cgroup_fs" where
  "cgroup_pressure C cg =
     sbind (c_try (read_pressure C (pjoin (cg_path cg) ''cpu.pressure''))) (\<lambda>c.
     sbind (c_try (read_pressure C (pjoin (cg_path cg) ''memory.pressure''))) (\<lambda>m.
       sreturn \<lparr>cpu_pressure = c, memory_pressure = m\<rparr>))"

text \<open>The last \<^verbatim>\<open>oom_kill\<close> line decides.\<close>

definition oom_kill_of :: "string \<Rightarrow> bool" where
  "oom_kill_of content =
     foldl (\<lambda>oom line. if starts_with line ''oom_kill'' then
         (case split_whitespace line of _ # v # _ \<Rightarrow> (case parse_uint 64 v of Some n \<Rightarrow> 0 < n | None \<Rightarrow> False) | _ \<Rightarrow> False)
       else oom) False (str_lines content)"

definition cgroup_events :: "cgroup_kernel \<Rightarrow> Cgroup \<Rightarrow> cgroup_fs \<Rightarrow> (error + bool) \<times> cgroup_fs" where
  "cgroup_events C cg =
     sbind (read_to_string C (CgroupSetup ''read memory.events'') (pjoin (cg_path cg) ''memory.events'')) (\<lambda>content.
       sreturn (oom_kill_of content))"

section \<open>Removal\<close>

definition populated :: "string \<Rightarrow> bool" where
  "populated content \<longleftrightarrow> list_ex (\<lambda>l. starts_with l ''populated '' \<and> ends_with l ''1'') (str_lines content)"

text \<open>The loop tests the time, reads the file, and sleeps ten milliseconds.\<close>

definition c_sleep :: "cgroup_kernel \<Rightarrow> nat \<Rightarrow> cgroup_fs \<Rightarrow> cgroup_fs" where
  "c_sleep C ms s = s\<lparr>c_millis := c_millis s + ms + ck_delay C (c_clock s)\<rparr>"

lemma read_to_string_millis: "read_to_string C err f s = (r, s') \<Longrightarrow> c_millis s' = c_millis s"
  by (auto simp: read_to_string_def c_tick_def Let_def)

function wait_for_empty :: "cgroup_kernel \<Rightarrow> string \<Rightarrow> nat \<Rightarrow> nat \<Rightarrow> cgroup_fs \<Rightarrow> (error + unit) \<times> cgroup_fs" where
  "wait_for_empty C path start limit s =
     (if c_millis s - start > limit then (Inl (CgroupSetup ''timeout waiting for cgroup to become empty''), s)
      else case read_to_string C (CgroupSetup ''read cgroup.events'') path s of
             (Inl e, s') \<Rightarrow> (Inl e, s')
           | (Inr content, s') \<Rightarrow>
               if \<not> populated content then (Inr (), s') else wait_for_empty C path start limit (c_sleep C 10 s'))"
  by pat_completeness auto
termination
  by (relation "measure (\<lambda>(C, path, start, limit, s). Suc (start + limit) - c_millis s)")
     (auto simp: c_sleep_def dest!: read_to_string_millis [OF sym])

declare wait_for_empty.simps [simp del]

definition cgroup_destroy :: "cgroup_kernel \<Rightarrow> Cgroup \<Rightarrow> cgroup_fs \<Rightarrow> (error + unit) \<times> cgroup_fs" where
  "cgroup_destroy C cg =
     sbind (kill_all C cg) (\<lambda>_.
     sbind (\<lambda>s. wait_for_empty C (pjoin (cg_path cg) ''cgroup.events'') (c_millis s) 2000 s) (\<lambda>_.
       c_access (\<lambda>n. ck_rmdir C n (cg_path cg)) (CgroupSetup ''rmdir cgroup'') [CgRmdir (cg_path cg)]))"

section \<open>What the operations guarantee\<close>

text \<open>Polls of a file are reads of it; \<open>emptied\<close> is a run of polls whose last found no task.\<close>

definition polls :: "string \<Rightarrow> cgroup_op list \<Rightarrow> bool" where
  "polls path = list_all (\<lambda>op. case op of CgRead f _ \<Rightarrow> f = path | _ \<Rightarrow> False)"

lemma wait_for_empty_polls:
  "wait_for_empty C path start limit s = (r, s') \<Longrightarrow> start \<le> c_millis s \<Longrightarrow>
   \<exists>ops. c_ops s' = c_ops s @ ops \<and> polls path ops \<and> 10 * length ops \<le> start + limit + 10 - c_millis s \<and>
     (r = Inr () \<longrightarrow> (\<exists>pre c. ops = pre @ [CgRead path (Some c)] \<and> \<not> populated c))"
proof (induction C path start limit s arbitrary: r s' rule: wait_for_empty.induct)
  case (1 C path start limit s)
  show ?case
  proof (cases "c_millis s - start > limit")
    case True
    with "1.prems" show ?thesis by (intro exI [of _ "[]"]) (auto simp: wait_for_empty.simps polls_def)
  next
    case False
    obtain r1 s1 where rd: "read_to_string C (CgroupSetup ''read cgroup.events'') path s = (r1, s1)" by force
    then have s1: "c_ops s1 = c_ops s @ [CgRead path (ck_read C (c_clock s) path)]" "c_millis s1 = c_millis s"
      "r1 = ok_or (CgroupSetup ''read cgroup.events'') (ck_read C (c_clock s) path)"
      by (auto simp: read_to_string_def c_tick_def Let_def)
    show ?thesis
    proof (cases "\<exists>c. ck_read C (c_clock s) path = Some c \<and> populated c")
      case True
      then obtain c where c: "ck_read C (c_clock s) path = Some c" "populated c" by blast
      with False rd s1 "1.prems" have w: "wait_for_empty C path start limit (c_sleep C 10 s1) = (r, s')"
        by (simp add: wait_for_empty.simps [of C path start limit s] ok_or_def)
      have ih: "\<exists>ops. c_ops s' = c_ops (c_sleep C 10 s1) @ ops \<and> polls path ops \<and>
          10 * length ops \<le> start + limit + 10 - c_millis (c_sleep C 10 s1) \<and>
          (r = Inr () \<longrightarrow> (\<exists>pre c. ops = pre @ [CgRead path (Some c)] \<and> \<not> populated c))"
        by (rule "1.IH" [OF False rd [symmetric] _ _ w]) (use c s1 "1.prems"(2) in \<open>auto simp: ok_or_def c_sleep_def\<close>)
      then obtain ops where ops: "c_ops s' = c_ops s @ CgRead path (Some c) # ops" "polls path ops"
        "10 * length ops \<le> start + limit + 10 - (c_millis s + 10 + ck_delay C (c_clock s1))"
        "r = Inr () \<longrightarrow> (\<exists>pre c. ops = pre @ [CgRead path (Some c)] \<and> \<not> populated c)"
        using s1 c by (auto simp: c_sleep_def)
      moreover have "10 * length (CgRead path (Some c) # ops) \<le> start + limit + 10 - c_millis s"
        using ops(3) False "1.prems"(2) by (cases ops) auto
      ultimately show ?thesis
        by (intro exI [of _ "CgRead path (Some c) # ops"]) (auto simp: polls_def)
    next
      case noc: False
      then have "c_ops s' = c_ops s @ [CgRead path (ck_read C (c_clock s) path)] \<and>
          (r = Inr () \<longrightarrow> (\<exists>c. ck_read C (c_clock s) path = Some c \<and> \<not> populated c))"
        using False rd s1 "1.prems"(1)
        by (cases "ck_read C (c_clock s) path") (auto simp: wait_for_empty.simps [of C path start limit s] ok_or_def)
      then show ?thesis using False "1.prems"(2)
        by (intro exI [of _ "[CgRead path (ck_read C (c_clock s) path)]"]) (auto simp: polls_def)
    qed
  qed
qed

definition positive_pids :: "string \<Rightarrow> int list" where
  "positive_pids procs = filter (\<lambda>p. 0 < p) (List.map_filter (\<lambda>l. parse_i32 (trim l)) (str_lines procs))"

lemma kill_lines_ops:
  "kill_lines ls s = (r, s') \<Longrightarrow>
   \<exists>pids. c_ops s' = c_ops s @ map CgSigkill pids \<and> c_millis s' = c_millis s \<and>
     (r = Inr () \<longrightarrow> pids = filter (\<lambda>p. 0 < p) (List.map_filter (\<lambda>l. parse_i32 (trim l)) ls))"
proof (induction ls arbitrary: s)
  case (Cons l ls)
  then show ?case
  proof (cases "parse_i32 (trim l)")
    case (Some pid)
    from Cons.IH [of "if pid > 0 then c_tick [CgSigkill pid] s else s"] Cons.prems Some obtain pids where
      p: "c_ops s' = c_ops (if pid > 0 then c_tick [CgSigkill pid] s else s) @ map CgSigkill pids" "c_millis s' = c_millis s"
        "r = Inr () \<longrightarrow> pids = filter (\<lambda>p. 0 < p) (List.map_filter (\<lambda>l. parse_i32 (trim l)) ls)"
      by (auto simp: c_tick_def split: if_splits)
    show ?thesis
      by (rule exI [of _ "if pid > 0 then pid # pids else pids"]) (use p Some in \<open>auto simp: c_tick_def map_filter_simps\<close>)
  qed (use Cons.prems in auto)
qed (auto simp: map_filter_simps)

text \<open>How the tasks of a cgroup were told to end: through \<^verbatim>\<open>cgroup.kill\<close>, or one by one.\<close>

definition killed_all :: "Cgroup \<Rightarrow> cgroup_op list \<Rightarrow> bool" where
  "killed_all cg ops \<longleftrightarrow>
     ops = [CgWrite (pjoin (cg_path cg) ''cgroup.kill'') ''1''] \<or>
     (\<exists>procs. ops = CgRead (pjoin (cg_path cg) ''cgroup.procs'') (Some procs) # map CgSigkill (positive_pids procs))"

lemma kill_all_ops:
  assumes "kill_all C cg s = (r, s')"
  shows "\<exists>ops. c_ops s' = c_ops s @ ops \<and> CgRmdir p \<notin> set ops \<and> c_millis s' = c_millis s \<and> (r = Inr () \<longrightarrow> killed_all cg ops)"
proof (cases "ck_exists C (c_clock s) (pjoin (cg_path cg) ''cgroup.kill'')")
  case True
  with assms show ?thesis
    by (auto simp: kill_all_def Let_def sbind_def c_query_def write_file_def c_tick_def killed_all_def split: if_splits)
next
  case False
  let ?f = "pjoin (cg_path cg) ''cgroup.procs''"
  show ?thesis
  proof (cases "ck_read C (Suc (c_clock s)) ?f")
    case None
    with False assms show ?thesis
      by (auto simp: kill_all_def Let_def sbind_def c_query_def read_to_string_def c_tick_def ok_or_def)
  next
    case (Some procs)
    let ?s1 = "c_tick [CgRead ?f (Some procs)] (c_tick [] s)"
    from False Some assms have "kill_lines (str_lines procs) ?s1 = (r, s')"
      by (auto simp: kill_all_def Let_def sbind_def c_query_def read_to_string_def c_tick_def ok_or_def)
    from kill_lines_ops [OF this] obtain pids where "c_ops s' = c_ops s @ CgRead ?f (Some procs) # map CgSigkill pids"
      "c_millis s' = c_millis s" "r = Inr () \<longrightarrow> pids = positive_pids procs"
      by (auto simp: c_tick_def positive_pids_def)
    then show ?thesis by (intro exI [of _ "CgRead ?f (Some procs) # map CgSigkill pids"]) (auto simp: killed_all_def)
  qed
qed

lemma polls_no_rmdir: "polls path ops \<Longrightarrow> CgRmdir p \<notin> set ops"
  by (induction ops) (auto simp: polls_def split: cgroup_op.splits)

text \<open>
  Destroying a cgroup always returns, after at most 201 looks at \<^verbatim>\<open>cgroup.events\<close>. It first tells every task to end
  and then polls; the directory is removed exactly when the result is success, and then the last poll
  before the removal found no task.
\<close>

lemma removed_only_when_empty:
  assumes "cgroup_destroy C cg s = (r, s')"
  shows "\<exists>kills ps.
    c_ops s' = c_ops s @ kills @ ps @ (if r = Inr () then [CgRmdir (cg_path cg)] else []) \<and>
    polls (pjoin (cg_path cg) ''cgroup.events'') ps \<and> length ps \<le> 201 \<and> CgRmdir (cg_path cg) \<notin> set (kills @ ps) \<and>
    (r = Inr () \<longrightarrow> killed_all cg kills \<and>
       (\<exists>pre c. ps = pre @ [CgRead (pjoin (cg_path cg) ''cgroup.events'') (Some c)] \<and> \<not> populated c))"
proof -
  let ?ev = "pjoin (cg_path cg) ''cgroup.events''"
  obtain r1 s1 where k: "kill_all C cg s = (r1, s1)" by force
  from kill_all_ops [OF k, of "cg_path cg"] obtain kills where kills: "c_ops s1 = c_ops s @ kills"
    "CgRmdir (cg_path cg) \<notin> set kills" "r1 = Inr () \<longrightarrow> killed_all cg kills" by blast
  show ?thesis
  proof (cases r1)
    case (Inl e)
    with assms k kills show ?thesis
      by (intro exI [of _ kills] exI [of _ "[]"]) (auto simp: cgroup_destroy_def sbind_def polls_def)
  next
    case (Inr u)
    obtain r2 s2 where w: "wait_for_empty C ?ev (c_millis s1) 2000 s1 = (r2, s2)" by force
    from wait_for_empty_polls [OF w] obtain ps where ps: "c_ops s2 = c_ops s1 @ ps" "polls ?ev ps" "length ps \<le> 201"
      "r2 = Inr () \<longrightarrow> (\<exists>pre c. ps = pre @ [CgRead ?ev (Some c)] \<and> \<not> populated c)" by auto
    show ?thesis
      by (rule exI [of _ kills], rule exI [of _ ps])
         (use assms k w Inr kills ps polls_no_rmdir [OF ps(2)] in
           \<open>cases r2; auto simp: cgroup_destroy_def sbind_def c_access_def c_tick_def split: if_splits\<close>)
  qed
qed

lemma siter_writes:
  "siter (\<lambda>(f, v). write_file C (Io f) (pjoin p f) v) ws s = (r, s') \<Longrightarrow>
   \<exists>n\<le>length ws. c_ops s' = c_ops s @ map (\<lambda>(f, v). CgWrite (pjoin p f) v) (take n ws) \<and> (r = Inr () \<longleftrightarrow> n = length ws)"
proof (induction ws arbitrary: s)
  case (Cons w ws)
  obtain f v where w: "w = (f, v)" by force
  show ?case
  proof (cases "ck_write C (c_clock s) (pjoin p f) v")
    case True
    with Cons.prems w have "siter (\<lambda>(f, v). write_file C (Io f) (pjoin p f) v) ws (c_tick [CgWrite (pjoin p f) v] s) = (r, s')"
      by (simp add: sbind_def write_file_def [of C "Io f" "pjoin p f" v s])
    from Cons.IH [OF this] obtain n where "n \<le> length ws" "r = Inr () \<longleftrightarrow> n = length ws"
      "c_ops s' = c_ops s @ CgWrite (pjoin p f) v # map (\<lambda>(f, v). CgWrite (pjoin p f) v) (take n ws)" by (auto simp: c_tick_def)
    then show ?thesis by (intro exI [of _ "Suc n"]) (simp add: w)
  next
    case False
    with Cons.prems w show ?thesis by (intro exI [of _ 0]) (auto simp: sbind_def write_file_def c_tick_def)
  qed
qed simp

lemma memory_high_below_max:
  assumes "0 < (mx :: u64)"
  shows "unat (saturating_mul mx 9 div 10) = min (9 * unat mx) (2 ^ 64 - 1) div 10 \<and> saturating_mul mx 9 div 10 < mx"
proof -
  have "unat (saturating_mul mx 9) = min (9 * unat mx) (2 ^ 64 - 1)"
    by (simp add: unat_saturating_mul mult.commute)
  then have u: "unat (saturating_mul mx 9 div 10) = min (9 * unat mx) (2 ^ 64 - 1) div 10" by (simp add: unat_div)
  also have "\<dots> < unat mx" using assms by (simp add: word_less_nat_alt min_def) linarith
  finally show ?thesis using u by (simp add: word_less_nat_alt)
qed


definition witness_cgroup_kernel :: cgroup_kernel where
  "witness_cgroup_kernel = \<lparr>ck_write = (\<lambda>_ _ _. True), ck_read = (\<lambda>n _. Some (if n < 2 then ''populated 1'' else ''populated 0'')),
     ck_exists = (\<lambda>_ _. True), ck_mkdir = (\<lambda>_ _. True), ck_opendir = (\<lambda>_ _. True), ck_ino = (\<lambda>_ _. Some 2),
     ck_rmdir = (\<lambda>_ _. True), ck_delay = (\<lambda>_. 1)\<rparr>"

definition witness_limits :: ResourceLimits where
  "witness_limits = ResourceLimits_default\<lparr>memory_max := Some 1000\<rparr>"


end
