(* ===== verification/Bpf_Enforce.thy ===== *)
theory Bpf_Enforce
  imports Bpf_Hooks
begin

unbundle bit_operations_syntax

text \<open>
  Manager and hooks together: after a successful \<^verbatim>\<open>update_policy\<close> the programs decide exec,
  connect and file open exactly as the installed entries say, and the turn flag reports exactly the
  state-changing hooks that ran.
\<close>

section \<open>The state after a successful installation\<close>

lemma map_delete_other [simp]:
  "n' \<noteq> n \<Longrightarrow> hmaps (snd (map_delete K n k m)) n' = hmaps m n'"
  "net_rules (snd (map_delete K n k m)) = net_rules m"
  by (simp_all add: map_delete_def Let_def)

lemma delete_rule_range_other [simp]:
  "n' \<noteq> n \<Longrightarrow> hmaps (delete_rule_range K n b c m) n' = hmaps m n'"
  "net_rules (delete_rule_range K n b c m) = net_rules m"
proof -
  have *: "(n' \<noteq> n \<longrightarrow> hmaps (foldl (\<lambda>m i. snd (map_delete K n (idx_key (b + of_nat i)) m)) m is) n' = hmaps m n') \<and>
    net_rules (foldl (\<lambda>m i. snd (map_delete K n (idx_key (b + of_nat i)) m)) m is) = net_rules m" for "is"
    by (induction "is" arbitrary: m) simp_all
  show "n' \<noteq> n \<Longrightarrow> hmaps (delete_rule_range K n b c m) n' = hmaps m n'"
    "net_rules (delete_rule_range K n b c m) = net_rules m"
    unfolding delete_rule_range_def using * by blast+
qed

lemma delete_net_keys_hmaps [simp]: "hmaps (delete_net_keys K ks m) = hmaps m"
proof -
  have "hmaps (net_delete K k x) = hmaps x" for k x
    by (simp add: net_delete_def Let_def)
  then show ?thesis unfolding delete_net_keys_def by (induction ks arbitrary: m) simp_all
qed

lemma swap_policy_success:
  assumes "swap_policy K cg fb fc eb ec net mgr = (Inr u, mgr')"
  shows "\<exists>existing. lookup_ctx (maps mgr) cg = Some existing \<and>
    lookup_ctx (maps mgr') cg =
      Some \<lparr>sandbox_seq = sandbox_seq existing, flags = flags existing OR FLAG_ENFORCING,
            policy_gen = mgr_gen mgr + 1, fs_rules_base = fb, fs_rules_count = fc,
            exec_rules_base = eb, exec_rules_count = ec,
            net_rules_base = 0, net_rules_count = len_u32 net, turn_id = turn_id existing\<rparr>"
  using assms
proof (cases rule: swap_policy_cases)
  case (adopted raw existing g ctx)
  have "hmaps (maps mgr') Sandboxes = hmaps (maps g) Sandboxes" by (simp add: adopted(9) adopt_def split: option.splits)
  then show ?thesis using adopted(1,2,6,8) by (simp add: lookup_ctx_def ctx_from_to_bytes)
qed simp

lemma swap_policy_net:
  assumes "swap_policy K cg fb fc eb ec net mgr = (Inr u, mgr')" "registered mgr cg = Some old"
  shows "\<exists>m0. net_rules m0 = net_rules (maps mgr) \<and> net_rules (maps mgr') =
    net_rules (delete_net_keys K (filter (\<lambda>k. k \<notin> set (map fst net)) (net_keys old)) m0)"
    and "registered mgr' cg = Some \<lparr>st_fs_base = fb, st_fs_count = fc, st_exec_base = eb, st_exec_count = ec,
           net_keys = map fst net\<rparr>"
proof -
  let ?st = "\<lparr>st_fs_base = fb, st_fs_count = fc, st_exec_base = eb, st_exec_count = ec, net_keys = map fst net\<rparr>"
  obtain g where g: "mgr' = adopt K cg ?st g" "registered g cg = Some old" "net_rules (maps g) = net_rules (maps mgr)"
    using assms by (cases rule: swap_policy_cases) auto
  let ?m0 = "delete_rule_range K ExecRules (st_exec_base old) (st_exec_count old)
      (delete_rule_range K FsRules (st_fs_base old) (st_fs_count old) (maps g))"
  have "net_rules ?m0 = net_rules (maps mgr)" by (simp add: g)
  then show "\<exists>m0. net_rules m0 = net_rules (maps mgr) \<and> net_rules (maps mgr') =
    net_rules (delete_net_keys K (filter (\<lambda>k. k \<notin> set (map fst net)) (net_keys old)) m0)"
    by (intro exI [of _ ?m0]) (simp add: g adopt_def)
  show "registered mgr' cg = Some ?st" by (simp add: g adopt_registered)
qed

definition net_assoc :: "(NetKey \<times> u64) list \<Rightarrow> (bool list \<times> bytes) list" where
  "net_assoc net = map (\<lambda>(k, v). (key_prefix (net_key_to_bytes k), le_bytes 8 v)) net"

text \<open>The entries installed for a plan: the later of two entries with one prefix holds.\<close>

definition net_map :: "(NetKey \<times> u64) list \<Rightarrow> bool list \<Rightarrow> bytes option" where
  "net_map net = map_of (rev (net_assoc net))"

lemma net_map_Cons:
  "net_map ((k, v) # net) p =
     (case net_map net p of Some w \<Rightarrow> Some w
      | None \<Rightarrow> if p = key_prefix (net_key_to_bytes k) then Some (le_bytes 8 v) else None)"
  by (auto simp: net_map_def net_assoc_def map_add_def split: option.splits)

context lpm_trie
begin

lemma write_net_rules_stored:
  assumes "write_net_rules K net m = (Inr u, m')"
  shows "stored (net_rules m') p = (case net_map net p of Some w \<Rightarrow> Some w | None \<Rightarrow> stored (net_rules m) p)"
  using assms
proof (induction net arbitrary: m)
  case Nil
  then show ?case by (simp add: net_map_def net_assoc_def)
next
  case (Cons e net)
  obtain k v where e: "e = (k, v)" by (cases e)
  obtain ok m1 where nu: "net_update K (net_key_to_bytes k) (le_bytes 8 v) m = (ok, m1)" by fastforce
  with Cons.prems have ok: ok and w: "write_net_rules K net m1 = (Inr u, m')"
    by (auto simp: e split: bool.splits)
  have "stored (net_rules m1) = (stored (net_rules m))(key_prefix (net_key_to_bytes k) \<mapsto> le_bytes 8 v)"
    using nu ok by (auto simp: net_update_def Let_def stored_update split: if_splits)
  then show ?case using Cons.IH [OF w] by (auto simp: e net_map_Cons split: option.splits)
qed

lemma delete_net_keys_stored:
  assumes "kfault K = (\<lambda>_. False)"
  shows "stored (net_rules (delete_net_keys K ks m)) p =
    (if p \<in> (\<lambda>k. key_prefix (net_key_to_bytes k)) ` set ks then None else stored (net_rules m) p)"
proof (induction ks rule: rev_induct)
  case Nil
  then show ?case by (simp add: delete_net_keys_def)
next
  case (snoc k ks)
  have "stored (net_rules (net_delete K (net_key_to_bytes k) x)) =
      (stored (net_rules x))(key_prefix (net_key_to_bytes k) := None)" for x
    using assms by (simp add: net_delete_def Let_def stored_delete)
  then show ?case using snoc.IH by (simp add: delete_net_keys_def)
qed

end

section \<open>Installation, seen by the hooks\<close>

text \<open>What a successful installation leaves in the maps.\<close>

definition installed ::
  "BpfFsRule list \<Rightarrow> WireExecRule list \<Rightarrow> u64 \<Rightarrow> 't bpf_maps \<Rightarrow> bool" where
  "installed fs ex cg m \<longleftrightarrow>
     (\<exists>ctx. lookup_ctx m cg = Some ctx \<and> flags ctx AND FLAG_ENFORCING \<noteq> 0 \<and>
       unat (fs_rules_base ctx) + length fs \<le> 65536 \<and> unat (fs_rules_count ctx) = length fs \<and> length fs \<le> 64 \<and>
       unat (exec_rules_base ctx) + length ex \<le> 8192 \<and> unat (exec_rules_count ctx) = length ex \<and> length ex \<le> 64 \<and>
       (\<forall>i<length fs. hmaps m FsRules (idx_key (fs_rules_base ctx + of_nat i)) =
          Some (fs_rule_to_bytes \<lparr>path_hash = bf_path_hash (fs ! i), access_mask = bf_access_mask (fs ! i)\<rparr>)) \<and>
       (\<forall>i<length ex. hmaps m ExecRules (idx_key (exec_rules_base ctx + of_nat i)) = Some (exec_rule_to_bytes (ex ! i))))"

lemma enforcing_flag: "(f OR FLAG_ENFORCING) AND FLAG_ENFORCING \<noteq> 0"
proof -
  have "bit ((f OR FLAG_ENFORCING) AND FLAG_ENFORCING) 0" by (simp add: bit_simps FLAG_ENFORCING_def)
  then show ?thesis by (metis bit_0_eq bot_apply bot_bool_def)
qed

lemma install_policy_success:
  assumes "install_policy K cg fs ex net mgr = (Inr u, mgr')"
  obtains old fb fa eb ea m1 m2 m where "registered mgr cg = Some old"
    "alloc (fs_alloc mgr) (len_u32 fs) = (Inr fb, fa)" "alloc (exec_alloc mgr) (len_u32 ex) = (Inr eb, ea)"
    "write_fs_rules K fb fs (maps mgr) = (Inr (), m1)" "write_exec_rules K eb ex m1 = (Inr (), m2)"
    "write_net_rules K net m2 = (Inr (), m)"
    "swap_policy K cg fb (len_u32 fs) eb (len_u32 ex) net
       (mgr\<lparr>maps := m, fs_alloc := fa, exec_alloc := ea\<rparr>) = (Inr u, mgr')"
  using assms
  by (auto simp: install_policy_def write_rules_def Let_def split: if_splits prod.splits sum.splits)

lemma map_update_other: "map_update K n k v m = (ok, m') \<Longrightarrow> n' \<noteq> n \<Longrightarrow> hmaps m' n' = hmaps m n'"
  by (auto simp: map_update_def Let_def split: if_splits)

lemma write_exec_rules_other:
  "write_exec_rules K idx rs m = (r, m') \<Longrightarrow> n \<noteq> ExecRules \<Longrightarrow> hmaps m' n = hmaps m n"
proof (induction rs arbitrary: idx m)
  case (Cons x rs)
  obtain ok m1 where u: "map_update K ExecRules (idx_key idx) (exec_rule_to_bytes x) m = (ok, m1)" by fastforce
  then have "hmaps m1 n = hmaps m n" using map_update_other [OF u] Cons.prems(2) by simp
  moreover have "hmaps m' n = hmaps m1 n"
    using Cons.IH [of "idx + 1" m1] Cons.prems u by (cases ok) simp_all
  ultimately show ?case by simp
qed simp

lemma write_net_rules_hmaps: "write_net_rules K net m = (r, m') \<Longrightarrow> hmaps m' = hmaps m"
proof (induction net arbitrary: m)
  case (Cons e net)
  obtain k v where e: "e = (k, v)" by (cases e)
  obtain ok m1 where u: "net_update K (net_key_to_bytes k) (le_bytes 8 v) m = (ok, m1)" by fastforce
  then have "hmaps m1 = hmaps m" by (auto simp: net_update_def Let_def split: if_splits)
  moreover have "hmaps m' = hmaps m1"
    using Cons.IH [of m1] Cons.prems u by (cases ok) (simp_all add: e)
  ultimately show ?case by simp
qed simp

lemma unat_idx_in_span:
  "unat b + n \<le> 65536 \<Longrightarrow> i < n \<Longrightarrow> unat (b + of_nat i :: u32) \<in> {unat b..<unat b + n}"
  using unat_idx [of b n i] by simp

context lpm_trie
begin

lemma install_policy_installed:
  assumes inv: "mgr_inv mgr" and cnt: "len_u32 fs \<le> 64" "len_u32 ex \<le> 64" and ks: "keys_ok cg (map fst net)"
    and b: "install_policy K cg fs ex net mgr = (Inr u, mgr')"
  shows "installed fs ex cg (maps mgr')"
proof -
  obtain old fb fa eb ea m1 m2 m where d: "registered mgr cg = Some old"
    "alloc (fs_alloc mgr) (len_u32 fs) = (Inr fb, fa)" "alloc (exec_alloc mgr) (len_u32 ex) = (Inr eb, ea)"
    "write_fs_rules K fb fs (maps mgr) = (Inr (), m1)" "write_exec_rules K eb ex m1 = (Inr (), m2)"
    "write_net_rules K net m2 = (Inr (), m)"
    and sw: "swap_policy K cg fb (len_u32 fs) eb (len_u32 ex) net
       (mgr\<lparr>maps := m, fs_alloc := fa, exec_alloc := ea\<rparr>) = (Inr u, mgr')"
    by (rule install_policy_success [OF b])
  have hf: "held_inv 65536 (fs_alloc mgr) (fs_held mgr)" and he: "held_inv 8192 (exec_alloc mgr) (exec_held mgr)"
    using inv by (simp_all add: mgr_inv_def)
  note hfa = held_alloc [OF hf d(2)] and hea = held_alloc [OF he d(3)]
  note len = unat_len_u32 [OF cnt(1)] unat_len_u32 [OF cnt(2)]
  note sp = span_len_u32 [OF cnt(1), of fb] span_len_u32 [OF cnt(2), of eb]
  have bnd: "unat fb + length fs \<le> 65536" "unat eb + length ex \<le> 8192" "length fs \<le> 64" "length ex \<le> 64"
    using hfa(6) hea(6) cnt len by (simp_all add: word_le_nat_alt)
  let ?A = "mgr\<lparr>maps := m, fs_alloc := fa, exec_alloc := ea\<rparr>"
  have sb: "hmaps m Sandboxes = hmaps (maps mgr) Sandboxes"
    using write_rules_frame [of fb fs eb ex net "maps mgr" "Inr ()" m cg UNIV UNIV] ks bnd d(4-6)
    by (simp add: write_rules_def same_ctx_def)
  have "mgr_inv ?A \<and> fresh ?A fb (len_u32 fs) eb (len_u32 ex)"
    using inv hfa hea same_ctx_sandbox_inv [of "maps mgr" m] sb
    by (simp add: mgr_inv_def fresh_def fs_held_def [abs_def] exec_held_def [abs_def] same_ctx_def)
  then have fr: "frame stored (fs_held mgr cg) (exec_held mgr cg) cg m (maps mgr')"
    using swap_policy_ok [OF _ _ cnt ks sw] by (simp add: fs_held_def exec_held_def)
  have fs: "hmaps (maps mgr') FsRules (idx_key (fb + of_nat i)) =
      Some (fs_rule_to_bytes \<lparr>path_hash = bf_path_hash (fs ! i), access_mask = bf_access_mask (fs ! i)\<rparr>)"
    if i: "i < length fs" for i
  proof -
    have "unat (fb + of_nat i) \<notin> fs_held mgr cg"
      using hfa(4) [of cg] sp(1) unat_idx_in_span [OF bnd(1) i] by blast
    then have "hmaps (maps mgr') FsRules (idx_key (fb + of_nat i)) = hmaps m1 FsRules (idx_key (fb + of_nat i))"
      using fr write_net_rules_hmaps [OF d(6)] write_exec_rules_other [OF d(5), of FsRules] by (simp add: frame_def)
    then show ?thesis using write_fs_rules_stored [OF d(4) _ i] bnd by simp
  qed
  have ex: "hmaps (maps mgr') ExecRules (idx_key (eb + of_nat i)) = Some (exec_rule_to_bytes (ex ! i))"
    if i: "i < length ex" for i
  proof -
    have "unat (eb + of_nat i) \<notin> exec_held mgr cg"
      using hea(4) [of cg] sp(2) unat_idx_in_span [OF _ i, of eb] bnd(2) by fastforce
    then have "hmaps (maps mgr') ExecRules (idx_key (eb + of_nat i)) = hmaps m2 ExecRules (idx_key (eb + of_nat i))"
      using fr write_net_rules_hmaps [OF d(6)] by (simp add: frame_def)
    then show ?thesis using write_exec_rules_stored [OF d(5) _ i] bnd by simp
  qed
  show ?thesis
    using swap_policy_success [OF sw] fs ex bnd len enforcing_flag by (auto simp: installed_def)
qed

end

text \<open>The scans over installed entries.\<close>

lemma scan_bound:
  assumes "unat base + n \<le> 65536" "unat count = n" "i < 64"
  shows "base + of_nat i \<ge> base + (count :: u32) \<longleftrightarrow> n \<le> i"
proof -
  have "unat (base + of_nat i) = unat base + i" using assms by (intro unat_idx [of _ 64]) simp_all
  moreover have "unat (base + count) = unat base + n" using assms by (subst unat_plus_small) simp_all
  ultimately show ?thesis by (simp add: word_le_nat_alt)
qed

lemma ex_from: "(\<exists>i. j \<le> i \<and> P i) \<longleftrightarrow> P j \<or> (\<exists>i. Suc j \<le> i \<and> P i)"
  by (metis Suc_leD Suc_leI le_neq_implies_less order_refl)

lemma exec_scan_exact:
  assumes "unat base + length ex \<le> 65536" "unat count = length ex"
    and "\<And>i. i < length ex \<Longrightarrow> hmaps m ExecRules (idx_key (base + of_nat i)) = Some (exec_rule_to_bytes (ex ! i))"
    and "j + k = 64"
  shows "exec_scan m base (base + count) ino dev [j..<64] \<longleftrightarrow>
    (\<exists>i. j \<le> i \<and> i < length ex \<and> i < 64 \<and> er_inode (ex ! i) = ino \<and> er_dev (ex ! i) = dev)"
  using assms(4)
proof (induction k arbitrary: j)
  case (Suc k)
  then have j: "j < 64" by simp
  have up: "[j..<64] = j # [Suc j..<64]" using j by (simp add: upt_conv_Cons)
  note IH = Suc.IH [of "Suc j"]
  show ?case
  proof (cases "length ex \<le> j")
    case True
    then show ?thesis using scan_bound [OF assms(1,2) j] by (auto simp: up)
  next
    case False
    then have "exec_scan m base (base + count) ino dev [j..<64] \<longleftrightarrow>
        (er_inode (ex ! j) = ino \<and> er_dev (ex ! j) = dev) \<or> exec_scan m base (base + count) ino dev [Suc j..<64]"
      using scan_bound [OF assms(1,2) j] assms(3) [of j] by (auto simp: up simp del: upt_Suc)
    also have "\<dots> \<longleftrightarrow> (\<exists>i. j \<le> i \<and> i < length ex \<and> i < 64 \<and> er_inode (ex ! i) = ino \<and> er_dev (ex ! i) = dev)"
      using IH Suc.prems False j
        ex_from [of j "\<lambda>i. i < length ex \<and> i < 64 \<and> er_inode (ex ! i) = ino \<and> er_dev (ex ! i) = dev"]
      by (simp del: upt_Suc)
    finally show ?thesis .
  qed
qed simp

lemma exec_verdict_installed:
  assumes "installed fs ex cg m"
  shows "fst (bprm_check_security 0 m cg (Some (ino, dev))) =
    (if \<exists>e\<in>set ex. er_inode e = ino \<and> er_dev e = ucast dev then 0 else - EPERM)"
proof -
  obtain ctx where ctx: "lookup_ctx m cg = Some ctx" "flags ctx AND FLAG_ENFORCING \<noteq> 0"
    and e: "unat (exec_rules_base ctx) + length ex \<le> 8192" "unat (exec_rules_count ctx) = length ex" "length ex \<le> 64"
      "\<forall>i<length ex. hmaps m ExecRules (idx_key (exec_rules_base ctx + of_nat i)) = Some (exec_rule_to_bytes (ex ! i))"
    using assms by (auto simp: installed_def)
  have "exec_scan m (exec_rules_base ctx) (exec_rules_base ctx + exec_rules_count ctx) ino (ucast dev) [0..<64] \<longleftrightarrow>
      (\<exists>i. 0 \<le> i \<and> i < length ex \<and> i < 64 \<and> er_inode (ex ! i) = ino \<and> er_dev (ex ! i) = ucast dev)"
    using e by (intro exec_scan_exact [where k = 64]) auto
  also have "\<dots> \<longleftrightarrow> (\<exists>e\<in>set ex. er_inode e = ino \<and> er_dev e = ucast dev)"
    using e(3) by (force simp: in_set_conv_nth)
  finally show ?thesis
    using ctx by (auto simp: bprm_check_security_def enforcing_def MAX_RULES_def Let_def)
qed

lemma deny_hooks_installed:
  assumes "installed fs ex cg m"
  shows "fst (bprm_check_security 0 m cg None) = - EPERM" "fst (sb_mount 0 m cg) = - EPERM"
    "fst (ptrace_access_check 0 m cg) = - EPERM" "fst (kill_hook 0 m cg) = - EPERM"
    "fst (cgroup_connect6 m cg) = 0" "sa_family a = AF_INET6 \<Longrightarrow> fst (socket_connect K 0 m cg (Some a)) = - EPERM"
  using assms
  by (auto simp: installed_def bprm_check_security_def sb_mount_def ptrace_access_check_def kill_hook_def
      cgroup_connect6_def socket_connect_def enforcing_def AF_INET6_def AF_INET_def)

lemma update_policy_success:
  assumes "update_policy K H cg plan src mgr = (Inr u, mgr')"
  obtains ex net where "len_u32 (bp_fs_rules plan) \<le> 64" "exec_entries_of H plan src = Inr ex" "len_u32 ex \<le> 64"
    "resolve_net_rules cg (bp_net_rules plan) = Inr net"
    "install_policy K cg (bp_fs_rules plan) ex net mgr = (Inr u, mgr')"
  using assms
  by (auto simp: update_policy_def check_rule_count_def MAX_RULES_PER_SANDBOX_def not_less
      split: sum.splits if_splits)

lemma update_installed:
  assumes "lpm_trie K stored" and "system_run K H mgr" and "update_policy K H cg plan src mgr = (Inr u, mgr')"
  obtains ex where "exec_entries_of H plan src = Inr ex" "installed (bp_fs_rules plan) ex cg (maps mgr')"
proof -
  obtain ex net where u: "len_u32 (bp_fs_rules plan) \<le> 64" "exec_entries_of H plan src = Inr ex" "len_u32 ex \<le> 64"
    "resolve_net_rules cg (bp_net_rules plan) = Inr net"
    "install_policy K cg (bp_fs_rules plan) ex net mgr = (Inr u, mgr')"
    by (rule update_policy_success [OF assms(3)])
  then show thesis
    using that lpm_trie.install_policy_installed [OF assms(1) lpm_trie.system_run_inv [OF assms(1,2)] u(1,3)
        resolve_net_rules_keys [OF u(4)] u(5)] by blast
qed

text \<open>
  C4. After a successful policy installation the exec hook decides exactly by the resolved
  allowlist: in every reachable state, under any pattern of kernel failures during the history, a
  binary may be executed by the sandbox iff its (device, inode) pair is among the resolved entries;
  with an empty list nothing may be executed. A binary that cannot be identified, every mount,
  ptrace, bpf() and kernel-module request, and every IPv6 connect is denied.
\<close>
theorem exec_policy_enforced:
  assumes "lpm_trie K stored" and "system_run K H mgr"
    and "update_policy K H cg plan src mgr = (Inr u, mgr')" and "exec_entries_of H plan src = Inr ex"
  shows "(fst (bprm_check_security 0 (maps mgr') cg (Some (ino, dev))) = 0 \<longleftrightarrow>
           (\<exists>e\<in>set ex. er_inode e = ino \<and> er_dev e = ucast dev)) \<and>
    fst (bprm_check_security 0 (maps mgr') cg (Some (ino, dev))) \<in> {0, - EPERM} \<and>
    fst (bprm_check_security 0 (maps mgr') cg None) = - EPERM \<and>
    fst (sb_mount 0 (maps mgr') cg) = - EPERM \<and> fst (ptrace_access_check 0 (maps mgr') cg) = - EPERM \<and>
    fst (kill_hook 0 (maps mgr') cg) = - EPERM \<and> fst (cgroup_connect6 (maps mgr') cg) = 0"
proof -
  have "installed (bp_fs_rules plan) ex cg (maps mgr')" by (rule update_installed [OF assms(1-3)]) (use assms(4) in simp)
  from exec_verdict_installed [OF this] deny_hooks_installed [OF this] show ?thesis
    by (simp add: EPERM_def)
qed

section \<open>Network rules\<close>

text \<open>
  Without kernel failures the trie holds, of each cgroup, only entries under the keys recorded for
  it (none for an unregistered one).
\<close>

definition net_clean :: "('t \<Rightarrow> bool list \<Rightarrow> bytes option) \<Rightarrow> 't BpfManager \<Rightarrow> bool" where
  "net_clean stored mgr \<longleftrightarrow>
     (\<forall>p. stored (net_rules (maps mgr)) p \<noteq> None \<longrightarrow>
       (\<exists>c st. registered mgr c = Some st \<and> p \<in> (\<lambda>k. key_prefix (net_key_to_bytes k)) ` set (net_keys st)))"

text \<open>No old key names the same trie node as a new one under a different spelling.\<close>

definition no_alias :: "NetKey list \<Rightarrow> (NetKey \<times> u64) list \<Rightarrow> bool" where
  "no_alias old net \<longleftrightarrow>
     (\<forall>k\<in>set old. \<forall>k'\<in>set (map fst net). key_prefix (net_key_to_bytes k) = key_prefix (net_key_to_bytes k') \<longrightarrow> k = k')"

definition old_keys :: "'t BpfManager \<Rightarrow> u64 \<Rightarrow> NetKey list" where
  "old_keys mgr cg = (case registered mgr cg of None \<Rightarrow> [] | Some st \<Rightarrow> net_keys st)"

text \<open>Does the entry cover the destination?\<close>

definition covers :: "NetKey \<Rightarrow> u64 \<Rightarrow> u32 \<Rightarrow> bool" where
  "covers k cg dst \<longleftrightarrow>
     key_prefix (net_key_to_bytes k) = take (unat (prefixlen k)) (cg_bits cg @ data_bits (idx_key dst))"

lemma key_prefix_full:
  "key_prefix (net_key_to_bytes \<lparr>prefixlen = NET_KEY_PREFIX_FULL, cgid = cg, addr = a\<rparr>) =
   cg_bits cg @ data_bits (idx_key a)"
  by (simp add: key_prefix_net_key NET_KEY_PREFIX_FULL_def)

lemma length_key_prefix:
  "unat (prefixlen k) \<le> 96 \<Longrightarrow> length (key_prefix (net_key_to_bytes k)) = unat (prefixlen k)"
  by (simp add: key_prefix_net_key)

text \<open>With one entry per prefix, longest match picks the covering entry with the longest prefix.\<close>

definition distinct_prefixes :: "(NetKey \<times> u64) list \<Rightarrow> bool" where
  "distinct_prefixes net \<longleftrightarrow> distinct (map (\<lambda>(k, _). key_prefix (net_key_to_bytes k)) net)"

lemma net_map_distinct:
  assumes "distinct_prefixes net"
  shows "net_map net p = Some w \<longleftrightarrow>
    (\<exists>(k, v)\<in>set net. p = key_prefix (net_key_to_bytes k) \<and> w = le_bytes 8 v)"
proof -
  have "map fst (net_assoc net) = map (\<lambda>(k, _). key_prefix (net_key_to_bytes k)) net"
    by (auto simp: net_assoc_def)
  then have "distinct (map fst (net_assoc net))" using assms by (simp only: distinct_prefixes_def)
  then have "distinct (map fst (rev (net_assoc net)))" by (simp add: rev_map [symmetric])
  then have "net_map net p = Some w \<longleftrightarrow> (p, w) \<in> set (rev (net_assoc net))"
    unfolding net_map_def by (rule map_of_eq_Some_iff)
  then show ?thesis by (auto simp: net_assoc_def)
qed

lemma key_prefix_covers:
  assumes "keys_ok cg (map fst net)" "(k, v) \<in> set net" "n \<le> 96"
  shows "take n (cg_bits cg @ data_bits (idx_key dst)) = key_prefix (net_key_to_bytes k) \<longleftrightarrow> n = unat (prefixlen k) \<and> covers k cg dst"
proof
  assume e: "take n (cg_bits cg @ data_bits (idx_key dst)) = key_prefix (net_key_to_bytes k)" (is "take n ?b = _")
  have "unat (prefixlen k) \<le> 96" using assms by (force simp: keys_ok_def)
  then have "length (take n ?b) = unat (prefixlen k)" unfolding e by (rule length_key_prefix)
  then have "n = unat (prefixlen k)" using assms(3) by simp
  with e show "n = unat (prefixlen k) \<and> covers k cg dst" by (simp add: covers_def)
qed (simp add: covers_def)

text \<open>The prefixes of an address that have an entry are the lengths of the entries covering it.\<close>

lemma net_map_covers:
  assumes "distinct_prefixes net" "keys_ok cg (map fst net)" "n \<le> 96"
  shows "net_map net (take n (cg_bits cg @ data_bits (idx_key dst))) = Some w \<longleftrightarrow>
    (\<exists>(k, v)\<in>set net. w = le_bytes 8 v \<and> n = unat (prefixlen k) \<and> covers k cg dst)"
  unfolding net_map_distinct [OF assms(1)] using key_prefix_covers [OF assms(2) _ assms(3)] by fastforce

lemma longest_match_net_map:
  assumes "distinct_prefixes net" "keys_ok cg (map fst net)"
  shows "longest_match (net_map net) (cg_bits cg @ data_bits (idx_key dst)) = Some w \<longleftrightarrow>
    (\<exists>(k, v)\<in>set net. w = le_bytes 8 v \<and> covers k cg dst \<and>
       (\<forall>(k', v')\<in>set net. covers k' cg dst \<longrightarrow> unat (prefixlen k') \<le> unat (prefixlen k)))"
    (is "?L \<longleftrightarrow> ?R")
proof -
  let ?b = "cg_bits cg @ data_bits (idx_key dst)"
  have len: "length ?b = 96" by simp
  have pk: "unat (prefixlen k) \<le> 96" if "(k, v) \<in> set net" for k v
    using assms(2) that by (force simp: keys_ok_def)
  have none: "net_map net (take i ?b) = None \<longleftrightarrow> \<not> (\<exists>(k, v)\<in>set net. i = unat (prefixlen k) \<and> covers k cg dst)" if "i \<le> 96" for i
    unfolding not_Some_eq [symmetric] net_map_covers [OF assms that] by fast
  show ?thesis
  proof
    assume ?L
    then obtain n where n: "n \<le> 96" "net_map net (take n ?b) = Some w"
      "\<forall>i. n < i \<and> i \<le> 96 \<longrightarrow> net_map net (take i ?b) = None"
      unfolding longest_match_Some len by blast
    then obtain k v where kv: "(k, v) \<in> set net" "w = le_bytes 8 v" "n = unat (prefixlen k)" "covers k cg dst"
      unfolding net_map_covers [OF assms n(1)] by auto
    have "unat (prefixlen k') \<le> n" if "(k', v') \<in> set net" "covers k' cg dst" for k' v'
    proof (rule ccontr)
      assume "\<not> ?thesis"
      then have "net_map net (take (unat (prefixlen k')) ?b) = None" using n(3) pk [OF that(1)] by (simp only: not_le)
      then show False unfolding none [OF pk [OF that(1)]] using that by blast
    qed
    then show ?R using kv by fast
  next
    assume ?R
    then obtain k v where kv: "(k, v) \<in> set net" "w = le_bytes 8 v" "covers k cg dst"
      "\<forall>(k', v')\<in>set net. covers k' cg dst \<longrightarrow> unat (prefixlen k') \<le> unat (prefixlen k)" by fast
    have "net_map net (take (unat (prefixlen k)) ?b) = Some w" unfolding net_map_covers [OF assms pk [OF kv(1)]] using kv by blast
    moreover have "net_map net (take i ?b) = None" if "unat (prefixlen k) < i" "i \<le> 96" for i
      using none [OF that(2)] that(1) kv(4) by fastforce
    ultimately show ?L unfolding longest_match_Some len using pk [OF kv(1)] by blast
  qed
qed

lemma map_update_net: "map_update K n k v m = (ok, m') \<Longrightarrow> net_rules m' = net_rules m"
  by (auto simp: map_update_def Let_def split: if_splits)

lemma write_fs_rules_net: "write_fs_rules K idx rs m = (r, m') \<Longrightarrow> net_rules m' = net_rules m"
proof (induction rs arbitrary: idx m)
  case (Cons x rs)
  obtain ok m1 where u: "map_update K FsRules (idx_key idx)
      (fs_rule_to_bytes \<lparr>path_hash = bf_path_hash x, access_mask = bf_access_mask x\<rparr>) m = (ok, m1)" by fastforce
  show ?case using map_update_net [OF u] Cons.IH [of "idx + 1" m1] Cons.prems u by (cases ok) simp_all
qed simp

lemma write_exec_rules_net: "write_exec_rules K idx rs m = (r, m') \<Longrightarrow> net_rules m' = net_rules m"
proof (induction rs arbitrary: idx m)
  case (Cons x rs)
  obtain ok m1 where u: "map_update K ExecRules (idx_key idx) (exec_rule_to_bytes x) m = (ok, m1)" by fastforce
  show ?case using map_update_net [OF u] Cons.IH [of "idx + 1" m1] Cons.prems u by (cases ok) simp_all
qed simp

lemma net_map_None: "net_map net p = None \<Longrightarrow> k \<in> set (map fst net) \<Longrightarrow> p \<noteq> key_prefix (net_key_to_bytes k)"
  by (auto simp: net_map_def net_assoc_def map_of_eq_None_iff image_iff)

lemma net_map_SomeD: "net_map net p = Some w \<Longrightarrow> \<exists>k\<in>set (map fst net). p = key_prefix (net_key_to_bytes k)"
  by (force simp: net_map_def net_assoc_def dest!: map_of_SomeD)

context lpm_trie
begin

lemma install_policy_stored:
  assumes nf: "kfault K = (\<lambda>_. False)" and b: "install_policy K cg fs ex net mgr = (Inr u, mgr')"
  shows "stored (net_rules (maps mgr')) p =
    (if p \<in> (\<lambda>k. key_prefix (net_key_to_bytes k)) ` {k \<in> set (old_keys mgr cg). k \<notin> set (map fst net)} then None
     else case net_map net p of Some w \<Rightarrow> Some w | None \<Rightarrow> stored (net_rules (maps mgr)) p)"
    and "\<exists>st. registered mgr' cg = Some st \<and> net_keys st = map fst net"
proof -
  obtain old fb fa eb ea m1 m2 m where d: "registered mgr cg = Some old"
    "write_fs_rules K fb fs (maps mgr) = (Inr (), m1)" "write_exec_rules K eb ex m1 = (Inr (), m2)"
    "write_net_rules K net m2 = (Inr (), m)"
    and sw: "swap_policy K cg fb (len_u32 fs) eb (len_u32 ex) net
       (mgr\<lparr>maps := m, fs_alloc := fa, exec_alloc := ea\<rparr>) = (Inr u, mgr')"
    by (rule install_policy_success [OF b])
  obtain m0 where m0: "net_rules m0 = net_rules m" "net_rules (maps mgr') =
      net_rules (delete_net_keys K (filter (\<lambda>k. k \<notin> set (map fst net)) (net_keys old)) m0)"
    using swap_policy_net(1) [OF sw, of old] d(1) by auto
  have "net_rules m2 = net_rules (maps mgr)"
    using write_exec_rules_net [OF d(3)] write_fs_rules_net [OF d(2)] by simp
  then show "stored (net_rules (maps mgr')) p =
    (if p \<in> (\<lambda>k. key_prefix (net_key_to_bytes k)) ` {k \<in> set (old_keys mgr cg). k \<notin> set (map fst net)} then None
     else case net_map net p of Some w \<Rightarrow> Some w | None \<Rightarrow> stored (net_rules (maps mgr)) p)"
    unfolding m0(2) delete_net_keys_stored [OF nf] m0(1) write_net_rules_stored [OF d(4)]
    by (simp add: old_keys_def d(1) split: option.split)
  show "\<exists>st. registered mgr' cg = Some st \<and> net_keys st = map fst net"
    using swap_policy_net(2) [OF sw, of old] d(1) by simp
qed

lemma install_policy_stored_exact:
  assumes nf: "kfault K = (\<lambda>_. False)" and inv: "mgr_inv mgr" and cl: "net_clean stored mgr"
    and na: "no_alias (old_keys mgr cg) net" and ks: "keys_ok cg (map fst net)"
    and b: "install_policy K cg fs ex net mgr = (Inr u, mgr')"
    and p: "take 64 p = cg_bits cg \<or> length p < 64"
  shows "stored (net_rules (maps mgr')) p = net_map net p"
proof (cases "net_map net p")
  case (Some w)
  then obtain k where "k \<in> set (map fst net)" "p = key_prefix (net_key_to_bytes k)" using net_map_SomeD by blast
  then have "p \<notin> (\<lambda>k. key_prefix (net_key_to_bytes k)) ` {k \<in> set (old_keys mgr cg). k \<notin> set (map fst net)}"
    using na unfolding no_alias_def by fastforce
  then show ?thesis using Some install_policy_stored(1) [OF nf b] by simp
next
  case None
  show ?thesis
  proof (cases "stored (net_rules (maps mgr)) p")
    case (Some w)
    then obtain c st k where k: "registered mgr c = Some st" "k \<in> set (net_keys st)" "p = key_prefix (net_key_to_bytes k)"
      using cl unfolding net_clean_def by blast
    have kk: "cgid k = c" "64 \<le> unat (prefixlen k)" "unat (prefixlen k) \<le> 96"
      using mgr_inv_sandbox [OF inv k(1)] k(2) by (auto simp: sandbox_inv_def keys_ok_def)
    have "take 64 p = cg_bits c" "\<not> length p < 64"
      using take64_key_prefix [OF kk(2)] length_key_prefix [OF kk(3)] kk k(3) by auto
    with p have "c = cg" by simp
    then have "k \<in> set (old_keys mgr cg)" using k by (simp add: old_keys_def)
    moreover have "k \<notin> set (map fst net)" using net_map_None [OF None] k(3) by blast
    ultimately show ?thesis using None install_policy_stored(1) [OF nf b, of p] k(3) by auto
  qed (use None install_policy_stored(1) [OF nf b, of p] in simp)
qed

lemma install_policy_net_clean:
  assumes nf: "kfault K = (\<lambda>_. False)" and cl: "net_clean stored mgr"
    and b: "install_policy K cg fs ex net mgr = (Inr u, mgr')" and others: "\<And>d. d \<noteq> cg \<Longrightarrow> registered mgr' d = registered mgr d"
  shows "net_clean stored mgr'"
  unfolding net_clean_def
proof (intro allI impI)
  fix p assume st: "stored (net_rules (maps mgr')) p \<noteq> None"
  obtain st' where st': "registered mgr' cg = Some st'" "net_keys st' = map fst net"
    using install_policy_stored(2) [OF nf b] by blast
  note eq = install_policy_stored(1) [OF nf b, of p]
  show "\<exists>c st. registered mgr' c = Some st \<and> p \<in> (\<lambda>k. key_prefix (net_key_to_bytes k)) ` set (net_keys st)"
  proof (cases "net_map net p")
    case (Some w)
    then show ?thesis using net_map_SomeD [OF Some] st' by (metis (no_types, lifting) imageI)
  next
    case None
    with st eq have nd: "p \<notin> (\<lambda>k. key_prefix (net_key_to_bytes k)) ` {k \<in> set (old_keys mgr cg). k \<notin> set (map fst net)}"
      "stored (net_rules (maps mgr)) p \<noteq> None" by (auto split: if_splits)
    then obtain c st0 k where k: "registered mgr c = Some st0" "k \<in> set (net_keys st0)" "p = key_prefix (net_key_to_bytes k)"
      using cl unfolding net_clean_def by blast
    have "c \<noteq> cg"
    proof
      assume "c = cg"
      then have "k \<in> set (map fst net)" using nd(1) k by (auto simp: old_keys_def)
      then show False using net_map_None [OF None] k(3) by blast
    qed
    then show ?thesis using k others by (metis imageI)
  qed
qed

lemma lookup_installed:
  assumes "kfault K = (\<lambda>_. False)" "mgr_inv mgr" "net_clean stored mgr" "no_alias (old_keys mgr cg) net"
    "keys_ok cg (map fst net)" "install_policy K cg fs ex net mgr = (Inr u, mgr')"
  shows "lpm_lookup K (net_rules (maps mgr')) (net_key_to_bytes \<lparr>prefixlen = NET_KEY_PREFIX_FULL, cgid = cg, addr = dst\<rparr>) =
    longest_match (net_map net) (cg_bits cg @ data_bits (idx_key dst))"
  unfolding lookup_longest key_prefix_full
proof (rule longest_match_cong)
  fix n
  let ?p = "take n (cg_bits cg @ data_bits (idx_key dst))"
  have "take 64 ?p = cg_bits cg \<or> length ?p < 64" by (cases "n < 64") (auto simp: min_absorb1)
  then show "stored (net_rules (maps mgr')) ?p = net_map net ?p"
    by (rule install_policy_stored_exact [OF assms])
qed

end

lemma u64_at_le_bytes [simp]: "u64_at (le_bytes 8 v) 0 = v"
  by (simp add: u64_at_def)

lemma inj_le_bytes8: "le_bytes 8 (v :: u64) = le_bytes 8 w \<longleftrightarrow> v = w"
  by (rule cg_key_inj)

text \<open>The destinations a list of entries lets out, by the most specific covering entry.\<close>

definition net_allows :: "(NetKey \<times> u64) list \<Rightarrow> u64 \<Rightarrow> u32 \<Rightarrow> u16 \<Rightarrow> bool" where
  "net_allows net cg dst port \<longleftrightarrow>
     port < 64 \<and> (\<exists>(k, v)\<in>set net. covers k cg dst \<and> bit v (unat port) \<and>
       (\<forall>(k', v')\<in>set net. covers k' cg dst \<longrightarrow> unat (prefixlen k') \<le> unat (prefixlen k)))"

definition metadata_endpoint :: "u32 \<Rightarrow> bool" where
  "metadata_endpoint dst \<longleftrightarrow> dst = octets_be [169, 254, 169, 254] \<or> dst = octets_be [168, 63, 129, 16]"

lemma metadata_endpoint_eq:
  "metadata_endpoint dst \<longleftrightarrow> dst = META_169_254_169_254 \<or> dst = META_168_63_129_16"
proof -
  have "octets_be [169, 254, 169, 254] = META_169_254_169_254" "octets_be [168, 63, 129, 16] = META_168_63_129_16"
    by (simp_all add: octets_be_def META_169_254_169_254_def META_168_63_129_16_def)
  then show ?thesis by (simp add: metadata_endpoint_def)
qed

context lpm_trie
begin

lemma check_ipv4_dst_installed:
  assumes "kfault K = (\<lambda>_. False)" "mgr_inv mgr" "net_clean stored mgr" "no_alias (old_keys mgr cg) net"
    "keys_ok cg (map fst net)" "install_policy K cg fs ex net mgr = (Inr u, mgr')" "distinct_prefixes net"
  shows "fst (check_ipv4_dst K (maps mgr') cg dst port) \<longleftrightarrow> \<not> metadata_endpoint dst \<and> net_allows net cg dst port"
proof -
  let ?L = "lpm_lookup K (net_rules (maps mgr')) (net_key_to_bytes \<lparr>prefixlen = NET_KEY_PREFIX_FULL, cgid = cg, addr = dst\<rparr>)"
  define M where "M k \<longleftrightarrow> covers k cg dst \<and>
       (\<forall>(k', v')\<in>set net. covers k' cg dst \<longrightarrow> unat (prefixlen k') \<le> unat (prefixlen k))" for k
  have L: "?L = Some w \<longleftrightarrow> (\<exists>(k, v)\<in>set net. w = le_bytes 8 v \<and> M k)" for w
    unfolding lookup_installed [OF assms(1-6)] M_def by (rule longest_match_net_map [OF assms(7,5)])
  have A: "net_allows net cg dst port \<longleftrightarrow> port < 64 \<and> (\<exists>(k, v)\<in>set net. M k \<and> bit v (unat port))"
    unfolding net_allows_def M_def by blast
  have "fst (check_ipv4_dst K (maps mgr') cg dst port) \<longleftrightarrow>
      \<not> metadata_endpoint dst \<and> (\<exists>w. ?L = Some w \<and> port < 64 \<and> bit (u64_at w 0) (unat port))"
    by (auto simp: check_ipv4_dst_def metadata_endpoint_eq not_le split: option.splits)
  also have "(\<exists>w. ?L = Some w \<and> port < 64 \<and> bit (u64_at w 0) (unat port)) \<longleftrightarrow> net_allows net cg dst port"
    unfolding L A by (auto simp: case_prod_beta)
  finally show ?thesis .
qed

end

lemma connect_installed:
  assumes "lpm_trie K stored" and "kfault K = (\<lambda>_. False)" and "system_run K H mgr" and "net_clean stored mgr"
    and "update_policy K H cg plan src mgr = (Inr u, mgr')"
    and "resolve_net_rules cg (bp_net_rules plan) = Inr net"
    and "no_alias (old_keys mgr cg) net" and "distinct_prefixes net"
  shows "fst (socket_connect K 0 (maps mgr') cg (Some \<lparr>sa_family = AF_INET, sin_addr = dst, sin_port = port\<rparr>)) =
           (if \<not> metadata_endpoint dst \<and> net_allows net cg dst (to_be16 port) then 0 else - EPERM) \<and>
         fst (cgroup_connect4 K (maps mgr') cg dst (ucast port)) =
           (if \<not> metadata_endpoint dst \<and> net_allows net cg dst (to_be16 port) then 1 else 0) \<and>
         net_clean stored mgr'"
proof -
  obtain ex net' where u: "len_u32 (bp_fs_rules plan) \<le> 64" "len_u32 ex \<le> 64"
    "resolve_net_rules cg (bp_net_rules plan) = Inr net'"
    "install_policy K cg (bp_fs_rules plan) ex net' mgr = (Inr u, mgr')"
    by (rule update_policy_success [OF assms(5)])
  have n: "net' = net" using u(3) assms(6) by simp
  note inv = lpm_trie.system_run_inv [OF assms(1,3)] and ks = resolve_net_rules_keys [OF assms(6)]
  have v: "fst (check_ipv4_dst K (maps mgr') cg dst p) \<longleftrightarrow> \<not> metadata_endpoint dst \<and> net_allows net cg dst p" for p
    using lpm_trie.check_ipv4_dst_installed [OF assms(1,2) inv assms(4,7) ks u(4) [unfolded n] assms(8)] .
  have "installed (bp_fs_rules plan) ex cg (maps mgr')"
    using lpm_trie.install_policy_installed [OF assms(1) inv u(1,2) ks u(4) [unfolded n]] .
  then obtain ctx where ctx: "lookup_ctx (maps mgr') cg = Some ctx" "flags ctx AND FLAG_ENFORCING \<noteq> 0"
    by (auto simp: installed_def)
  have "net_clean stored mgr'"
    using lpm_trie.install_policy_net_clean [OF assms(1,2,4) u(4)]
      lpm_trie.install_policy_ok [OF assms(1) inv u(1,2) ks u(4) [unfolded n]] by (simp add: op_frame_def)
  moreover have "ucast (ucast port :: u32) = port" by (simp add: unsigned_ucast_eq take_bit_word_eq_self)
  ultimately show ?thesis
    using ctx v [of "to_be16 port"]
    by (simp add: socket_connect_def cgroup_connect4_def enforcing_def EPERM_def case_prod_beta Let_def)
qed

text \<open>
  C5. After a successful policy installation both network hooks, the LSM one and the cgroup one,
  let an IPv4 connection out exactly when the destination is not a metadata endpoint and the most
  specific installed CIDR covering it lists the port: everything else is denied, and the entries of
  the previous policy no longer count. (No kernel failures, one rule per network, and no rule that
  respells a network of the previous policy.)
\<close>
theorem network_policy_enforced:
  assumes "lpm_trie K stored" and "kfault K = (\<lambda>_. False)" and "system_run K H mgr" and "net_clean stored mgr"
    and "update_policy K H cg plan src mgr = (Inr u, mgr')"
    and "resolve_net_rules cg (bp_net_rules plan) = Inr net"
    and "no_alias (old_keys mgr cg) net" and "distinct_prefixes net"
  shows "(fst (socket_connect K 0 (maps mgr') cg (Some \<lparr>sa_family = AF_INET, sin_addr = dst, sin_port = port\<rparr>)) = 0 \<longleftrightarrow>
           \<not> metadata_endpoint dst \<and> net_allows net cg dst (to_be16 port)) \<and>
         (fst (cgroup_connect4 K (maps mgr') cg dst (ucast port)) = 1 \<longleftrightarrow>
           \<not> metadata_endpoint dst \<and> net_allows net cg dst (to_be16 port)) \<and>
         net_clean stored mgr'"
  using connect_installed [OF assms] by (simp add: EPERM_def)

text \<open>Without kernel failures every write succeeds.\<close>

lemma map_update_nofault: "kfault K = (\<lambda>_. False) \<Longrightarrow> \<exists>m'. map_update K n k v m = (True, m')"
  by (simp add: map_update_def Let_def)

lemma write_rules_nofault:
  assumes nf: "kfault K = (\<lambda>_. False)"
  shows "\<exists>m'. write_rules K fb fs eb ex net m = (Inr (), m')"
proof -
  have "\<exists>m'. write_fs_rules K i xs y = (Inr (), m')" for i xs y
  proof (induction xs arbitrary: i y)
    case (Cons x xs)
    then show ?case
      using map_update_nofault [OF nf, of FsRules "idx_key i"
          "fs_rule_to_bytes \<lparr>path_hash = bf_path_hash x, access_mask = bf_access_mask x\<rparr>" y] by auto
  qed simp
  moreover have "\<exists>m'. write_exec_rules K i xs y = (Inr (), m')" for i xs y
  proof (induction xs arbitrary: i y)
    case (Cons x xs)
    then show ?case using map_update_nofault [OF nf, of ExecRules "idx_key i" "exec_rule_to_bytes x" y] by auto
  qed simp
  moreover have "\<exists>m'. write_net_rules K xs y = (Inr (), m')" for xs y
  proof (induction xs arbitrary: y)
    case (Cons x xs)
    then show ?case by (cases x) (auto simp: net_update_def nf Let_def)
  qed simp
  ultimately show ?thesis unfolding write_rules_def by (metis (no_types, lifting) case_prod_conv sum.case(2))
qed

lemma swap_policy_nofault:
  assumes nf: "kfault K = (\<lambda>_. False)" and c: "hmaps (maps mgr) Sandboxes (cg_key cg) = Some (ctx_to_bytes ctx)"
    and "registered mgr cg = Some old"
  shows "fst (swap_policy K cg fb fc eb ec net mgr) = Inr ()"
proof -
  let ?m1 = "mgr\<lparr>mgr_gen := mgr_gen mgr + 1\<rparr>"
  obtain x mgr2 where rd: "read_ctx K cg ?m1 = (x, mgr2)" by fastforce
  have x: "x = Inr ctx" using rd nf c by (auto simp: read_ctx_def map_lookup_def ctx_from_to_bytes Let_def)
  have w: "\<exists>mgr3. write_ctx K cg y msg mgr2 = (Inr (), mgr3) \<and> registered mgr3 cg = Some old" for y msg
    using read_ctx_state [OF rd] assms(3) nf by (simp add: write_ctx_def map_update_def Let_def)
  obtain mgr3 where "write_ctx K cg \<lparr>sandbox_seq = sandbox_seq ctx, flags = flags ctx OR FLAG_ENFORCING,
            policy_gen = mgr_gen mgr + 1, fs_rules_base = fb, fs_rules_count = fc,
            exec_rules_base = eb, exec_rules_count = ec,
            net_rules_base = 0, net_rules_count = len_u32 net, turn_id = turn_id ctx\<rparr> ''swap sandbox_ctx'' mgr2 =
      (Inr (), mgr3)" "registered mgr3 cg = Some old" using w by blast
  then show ?thesis using rd x by (simp add: swap_policy_def Let_def)
qed

context lpm_trie
begin

lemma install_policy_succeeds:
  assumes nf: "kfault K = (\<lambda>_. False)" and inv: "mgr_inv mgr" and reg: "registered mgr cg = Some old"
    and cnt: "len_u32 fs \<le> 64" "len_u32 ex \<le> 64" and ks: "keys_ok cg (map fst net)"
    and al: "alloc (fs_alloc mgr) (len_u32 fs) = (Inr fb, fa)" "alloc (exec_alloc mgr) (len_u32 ex) = (Inr eb, ea)"
  shows "fst (install_policy K cg fs ex net mgr) = Inr ()"
proof -
  obtain m where w: "write_rules K fb fs eb ex net (maps mgr) = (Inr (), m)"
    using write_rules_nofault [OF nf] by blast
  have hf: "held_inv 65536 (fs_alloc mgr) (fs_held mgr)" and he: "held_inv 8192 (exec_alloc mgr) (exec_held mgr)"
    using inv by (simp_all add: mgr_inv_def)
  have "same_ctx (maps mgr) m"
    using write_rules_frame [OF w ks, of UNIV UNIV] held_alloc(6) [OF hf al(1)] held_alloc(6) [OF he al(2)]
      unat_len_u32 [OF cnt(1)] unat_len_u32 [OF cnt(2)] by simp
  moreover obtain ctx where "hmaps (maps mgr) Sandboxes (cg_key cg) = Some (ctx_to_bytes ctx)"
    using mgr_inv_sandbox [OF inv reg] by (auto simp: sandbox_inv_def)
  ultimately show ?thesis
    using al w reg swap_policy_nofault [OF nf, of "mgr\<lparr>maps := m, fs_alloc := fa, exec_alloc := ea\<rparr>" cg ctx old]
    by (simp add: install_policy_def Let_def same_ctx_def)
qed

end

definition sample_net :: "(NetKey \<times> u64) list" where
  "sample_net = [(\<lparr>prefixlen = 72, cgid = 2, addr = 10\<rparr>, 0x20000000000000)]"

lemma sample_resolve: "resolve_net_rules 2 (bp_net_rules sample_plan) = Inr sample_net"
proof -
  have "parse_cidr ''10.0.0.0/8'' = Inr (10, 8)"
    by (simp add: parse_cidr_def split_once_def parse_ipv4_def parse_octet_def parse_uint_def from_str_radix_def
        to_digit_def octets_be_def)
  then show ?thesis
    by (simp add: resolve_net_rules_def resolve_net_rule_def sample_plan_def sample_net_def NET_KEY_CGID_BITS_def)
qed

lemma sample_counts [simp]: "len_u32 [] = 0" "alloc a 0 = (Inr 0, a)"
  by (simp_all add: len_u32_def alloc_def)

lemma sample_update:
  "update_policy sample_kernel sample_host 2 sample_plan (Resolved []) sample_mgr =
     (Inr (), snd (update_policy sample_kernel sample_host 2 sample_plan (Resolved []) sample_mgr))"
proof -
  obtain st where reg: "registered sample_mgr 2 = Some st" using sample_mgr_registered(2) by blast
  have "fst (install_policy sample_kernel 2 [] [] sample_net sample_mgr) = Inr ()"
    by (rule bt.install_policy_succeeds [OF _ bt.system_run_inv [OF sample_mgr_run] reg])
       (use resolve_net_rules_keys [OF sample_resolve] in \<open>simp_all add: trie_kernel_def\<close>)
  then have "fst (update_policy sample_kernel sample_host 2 sample_plan (Resolved []) sample_mgr) = Inr ()"
    using sample_resolve
    by (simp add: update_policy_def check_rule_count_def MAX_RULES_PER_SANDBOX_def exec_entries_of_def sample_plan_def)
  then show ?thesis by (metis prod.collapse)
qed

lemma sample_net_ok: "net_clean bt_get sample_mgr" "old_keys sample_mgr 2 = []"
  by (simp_all add: net_clean_def old_keys_def sample_mgr_def register_sandbox_def write_ctx_def map_update_def
      manager_new_def trie_kernel_def Let_def empty_maps_def)

theorem exec_policy_enforced_witness:
  "fst (bprm_check_security 0 (maps (snd (update_policy sample_kernel sample_host 2 sample_plan (Resolved []) sample_mgr)))
     2 (Some (7, 8))) = - 1"
  using exec_policy_enforced [OF trie_kernel_lpm sample_mgr_run sample_update, of "[]" 7 8]
  by (auto simp: exec_entries_of_def EPERM_def)

lemma sample_covers: "covers \<lparr>prefixlen = 72, cgid = 2, addr = 10\<rparr> 2 (octets_be [10, 1, 2, 3])"
  by (simp add: covers_def key_prefix_net_key octets_be_def le_bytes_of_le_bytes data_bits_def byte_bits_def)
     (simp add: le_bytes_def upt_rec byte_bits_inj)

theorem network_policy_enforced_witness:
  "fst (socket_connect sample_kernel 0
     (maps (snd (update_policy sample_kernel sample_host 2 sample_plan (Resolved []) sample_mgr))) 2
     (Some \<lparr>sa_family = AF_INET, sin_addr = octets_be [10, 1, 2, 3], sin_port = to_be16 53\<rparr>)) = 0"
proof -
  have "\<not> metadata_endpoint (octets_be [10, 1, 2, 3])"
    by (simp add: metadata_endpoint_def octets_be_def)
  moreover have "net_allows sample_net 2 (octets_be [10, 1, 2, 3]) 53"
    using sample_covers by (simp add: net_allows_def sample_net_def)
  moreover have "kfault sample_kernel = (\<lambda>_. False)" by (simp add: trie_kernel_def)
  moreover have "no_alias (old_keys sample_mgr 2) sample_net" "distinct_prefixes sample_net"
    by (simp_all add: no_alias_def sample_net_ok distinct_prefixes_def sample_net_def)
  ultimately show ?thesis
    using network_policy_enforced [OF trie_kernel_lpm _ sample_mgr_run sample_net_ok(1) sample_update sample_resolve,
        of "octets_be [10, 1, 2, 3]" "to_be16 53"] by simp
qed

end
