(* ===== verification/Bpf_Turns.thy ===== *)
theory Bpf_Turns
  imports Bpf_Enforce
begin

unbundle bit_operations_syntax

text \<open>
  Further behaviours of the manager and the hooks together: the dirty flag over a turn, what a
  failed policy update leaves behind, and the path hash of the filesystem hook.
\<close>

section \<open>Turns\<close>

text \<open>A hook invocation that records a state change: one of the dirty-turn hooks, or an allowed exec.\<close>

fun marks_dirty :: "int \<Rightarrow> 't bpf_maps \<Rightarrow> u64 \<Rightarrow> hook_call \<Rightarrow> bool" where
  "marks_dirty ret m cg Dirty_call \<longleftrightarrow> ret = 0"
| "marks_dirty ret m cg (Exec_call f) \<longleftrightarrow>
     snd (snd (bprm_check_security ret m cg f)) = emit_event EVT_KIND_EXEC EVT_DECISION_ALLOW 0"
| "marks_dirty ret m cg _ \<longleftrightarrow> False"

fun run_hooks :: "'t kernel \<Rightarrow> 't bpf_maps \<Rightarrow> (int \<times> u64 \<times> hook_call) list \<Rightarrow> 't bpf_maps" where
  "run_hooks K m [] = m"
| "run_hooks K m ((ret, cg, call) # cs) = run_hooks K (fst (snd (run_hook K ret m cg call))) cs"

fun any_dirty :: "'t kernel \<Rightarrow> 't bpf_maps \<Rightarrow> u64 \<Rightarrow> (int \<times> u64 \<times> hook_call) list \<Rightarrow> bool" where
  "any_dirty K m cg [] \<longleftrightarrow> False"
| "any_dirty K m cg ((ret, c, call) # cs) \<longleftrightarrow>
     (c = cg \<and> marks_dirty ret m c call) \<or> any_dirty K (fst (snd (run_hook K ret m c call))) cg cs"

lemma lookup_ctx_or_flags:
  assumes "hmaps m Sandboxes (cg_key cg) = Some (ctx_to_bytes ctx)"
  shows "hmaps (or_flags cg f m) Sandboxes (cg_key cg) = Some (ctx_to_bytes (ctx\<lparr>flags := flags ctx OR f\<rparr>))"
    "c \<noteq> cg \<Longrightarrow> hmaps (or_flags c f m) Sandboxes (cg_key cg) = hmaps m Sandboxes (cg_key cg)"
    "tick (or_flags c f m) = tick m"
  using assms by (auto simp: or_flags_def c_set_flags_ctx u32_at_ctx_flags [OF ctx_from_to_bytes] split: option.splits)

lemma or_flags_dirty:
  "(x OR FLAG_DIRTY) AND FLAG_DIRTY \<noteq> 0" "(x OR FLAG_KILL_PENDING) AND FLAG_DIRTY = x AND FLAG_DIRTY"
proof -
  have "bit ((x OR FLAG_DIRTY) AND FLAG_DIRTY) 1" by (simp add: bit_simps FLAG_DIRTY_def)
  then show "(x OR FLAG_DIRTY) AND FLAG_DIRTY \<noteq> 0" by (metis bit_0_eq bot_apply bot_bool_def)
  show "(x OR FLAG_KILL_PENDING) AND FLAG_DIRTY = x AND FLAG_DIRTY"
    by (simp add: FLAG_DIRTY_def FLAG_KILL_PENDING_def bit.conj_disj_distrib2)
qed

text \<open>One hook invocation, as far as the turn of a cgroup is concerned.\<close>

lemma run_hook_turn:
  assumes c: "hmaps m Sandboxes (cg_key cg) = Some (ctx_to_bytes ctx)" and m': "m' = fst (snd (run_hook K ret m c call))"
  shows "tick m' = tick m \<and> (\<exists>ctx'. hmaps m' Sandboxes (cg_key cg) = Some (ctx_to_bytes ctx') \<and> turn_id ctx' = turn_id ctx \<and>
    (flags ctx' AND FLAG_DIRTY \<noteq> 0 \<longleftrightarrow> flags ctx AND FLAG_DIRTY \<noteq> 0 \<or> c = cg \<and> marks_dirty ret m c call))"
proof -
  have same: ?thesis if "m' = m" "\<not> (c = cg \<and> marks_dirty ret m c call)" using c that by auto
  have dirty: ?thesis if "m' = or_flags c FLAG_DIRTY m" "marks_dirty ret m c call"
    using c that lookup_ctx_or_flags [OF c] or_flags_dirty(1) by (cases "c = cg") auto
  have kill: ?thesis if "m' = or_flags c FLAG_KILL_PENDING m" "\<not> marks_dirty ret m c call"
    using c that lookup_ctx_or_flags [OF c] or_flags_dirty(2) by (cases "c = cg") auto
  have lk: "lookup_ctx m cg = Some ctx" using c by (simp add: lookup_ctx_def ctx_from_to_bytes)
  show ?thesis
  proof (cases call)
    case (Exec_call f)
    show ?thesis
    proof (cases "marks_dirty ret m c call")
      case True
      then have "m' = or_flags c FLAG_DIRTY m"
        using m' Exec_call by (auto simp: bprm_check_security_def enforcing_def emit_event_def Let_def
            EVT_DECISION_ALLOW_def EVT_DECISION_DENY_def split: if_splits option.splits prod.splits)
      with True dirty show ?thesis by blast
    next
      case False
      then have "m' = m"
        using m' Exec_call by (auto simp: bprm_check_security_def enforcing_def Let_def split: if_splits option.splits prod.splits)
      with False same show ?thesis by blast
    qed
  next
    case Dirty_call
    then show ?thesis
      using m' lk same dirty by (cases "c = cg"; cases "ret = 0"; cases "lookup_ctx m c") (auto simp: dirty_hook_def)
  next
    case Kill_call
    then show ?thesis
      using m' same kill by (auto simp: kill_hook_def enforcing_def split: if_splits option.splits)
  qed (use m' same in \<open>auto simp: socket_connect_def socket_bind_def file_open_def sb_mount_def
      ptrace_access_check_def enforcing_def Let_def split: if_splits option.splits prod.splits\<close>)
qed

lemma run_hooks_turn:
  assumes "hmaps m Sandboxes (cg_key cg) = Some (ctx_to_bytes ctx)"
  shows "tick (run_hooks K m cs) = tick m \<and>
    (\<exists>ctx'. hmaps (run_hooks K m cs) Sandboxes (cg_key cg) = Some (ctx_to_bytes ctx') \<and> turn_id ctx' = turn_id ctx \<and>
      (flags ctx' AND FLAG_DIRTY \<noteq> 0 \<longleftrightarrow> flags ctx AND FLAG_DIRTY \<noteq> 0 \<or> any_dirty K m cg cs))"
  using assms
proof (induction cs arbitrary: m ctx)
  case (Cons x cs)
  obtain ret c call where x: "x = (ret, c, call)" by (cases x)
  let ?m = "fst (snd (run_hook K ret m c call))"
  obtain ctx1 where 1: "hmaps ?m Sandboxes (cg_key cg) = Some (ctx_to_bytes ctx1)" "tick ?m = tick m"
    "turn_id ctx1 = turn_id ctx"
    "flags ctx1 AND FLAG_DIRTY \<noteq> 0 \<longleftrightarrow> flags ctx AND FLAG_DIRTY \<noteq> 0 \<or> c = cg \<and> marks_dirty ret m c call"
    using run_hook_turn [OF Cons.prems refl] by blast
  from Cons.IH [OF 1(1)] 1 show ?case by (simp add: x)
qed auto



section \<open>Failed updates\<close>

lemma swap_policy_fail:
  assumes "swap_policy K cg fb fc eb ec net mgr = (Inl e, mgr')" "registered mgr cg \<noteq> None"
  shows "hmaps (maps mgr') = hmaps (maps mgr)"
  using assms by (auto elim!: swap_policy_cases)

context lpm_trie
begin

lemma install_policy_fail:
  assumes inv: "mgr_inv mgr" and cnt: "len_u32 fs \<le> 64" "len_u32 ex \<le> 64" and ks: "keys_ok cg (map fst net)"
    and b: "install_policy K cg fs ex net mgr = (Inl e, mgr')"
  shows "same_ctx (maps mgr) (maps mgr') \<and>
    (\<forall>i. unat i \<notin> free_set (fs_alloc mgr) \<longrightarrow>
       hmaps (maps mgr') FsRules (idx_key i) = hmaps (maps mgr) FsRules (idx_key i)) \<and>
    (\<forall>i. unat i \<notin> free_set (exec_alloc mgr) \<longrightarrow>
       hmaps (maps mgr') ExecRules (idx_key i) = hmaps (maps mgr) ExecRules (idx_key i))"
proof -
  let ?fc = "len_u32 fs" and ?ec = "len_u32 ex" and ?I = "free_set (fs_alloc mgr)" and ?J = "free_set (exec_alloc mgr)"
  have held: "held_inv 65536 (fs_alloc mgr) (fs_held mgr)" "held_inv 8192 (exec_alloc mgr) (exec_held mgr)"
    using inv by (simp_all add: mgr_inv_def)
  from b show ?thesis
  proof (cases rule: install_policy_cases)
    case (unwound fb fa eb ea e m)
    have "frame stored ?I ?J cg m (maps mgr') \<and> same_ctx m (maps mgr')"
      using unwind_frame [OF ks, of fb ?fc eb ?ec] held_alloc(2,6) [OF held(1) unwound(1)] held_alloc(2,6) [OF held(2) unwound(2)]
      by (simp add: unwound(5))
    then show ?thesis using write_new_rules [OF inv cnt ks unwound(1,2,3)] by (simp add: frame_def same_ctx_def)
  next
    case (swapped fb fa eb ea m)
    have "hmaps (maps mgr') = hmaps m" using swap_policy_fail [OF swapped(4)] swapped(5) by simp
    then show ?thesis using write_new_rules [OF inv cnt ks swapped(1,2,3)] by (simp add: frame_def same_ctx_def)
  qed simp_all
qed

lemma update_policy_fail:
  assumes inv: "mgr_inv mgr" and b: "update_policy K H cg plan src mgr = (Inl e, mgr')"
  shows "same_ctx (maps mgr) (maps mgr') \<and>
    (\<forall>i. unat i \<notin> free_set (fs_alloc mgr) \<longrightarrow>
       hmaps (maps mgr') FsRules (idx_key i) = hmaps (maps mgr) FsRules (idx_key i)) \<and>
    (\<forall>i. unat i \<notin> free_set (exec_alloc mgr) \<longrightarrow>
       hmaps (maps mgr') ExecRules (idx_key i) = hmaps (maps mgr) ExecRules (idx_key i))"
proof (cases "mgr' = mgr")
  case False
  then obtain ex net where "check_rule_count (len_u32 (bp_fs_rules plan)) = Inr ()"
    "check_rule_count (len_u32 ex) = Inr ()" and n: "resolve_net_rules cg (bp_net_rules plan) = Inr net"
    and i: "install_policy K cg (bp_fs_rules plan) ex net mgr = (Inl e, mgr')"
    using b by (auto simp: update_policy_def split: sum.splits)
  then have "len_u32 (bp_fs_rules plan) \<le> 64" "len_u32 ex \<le> 64"
    by (auto simp: check_rule_count_def MAX_RULES_PER_SANDBOX_def not_less split: if_splits)
  then show ?thesis by (rule install_policy_fail [OF inv _ _ resolve_net_rules_keys [OF n] i])
qed simp

end

lemma scans_same:
  assumes inv: "mgr_inv mgr" and d: "registered mgr d = Some st" and ctx: "lookup_ctx (maps mgr) d = Some ctx"
    and f: "\<And>i. unat i \<notin> free_set (fs_alloc mgr) \<Longrightarrow> hmaps m' FsRules (idx_key i) = hmaps (maps mgr) FsRules (idx_key i)"
    and e: "\<And>i. unat i \<notin> free_set (exec_alloc mgr) \<Longrightarrow> hmaps m' ExecRules (idx_key i) = hmaps (maps mgr) ExecRules (idx_key i)"
  shows "exec_scan m' (exec_rules_base ctx) (exec_rules_base ctx + exec_rules_count ctx) ino dev [0..<MAX_RULES] =
      exec_scan (maps mgr) (exec_rules_base ctx) (exec_rules_base ctx + exec_rules_count ctx) ino dev [0..<MAX_RULES]"
    and "fs_scan m' (fs_rules_base ctx) (fs_rules_base ctx + fs_rules_count ctx) h req [0..<MAX_RULES] =
      fs_scan (maps mgr) (fs_rules_base ctx) (fs_rules_base ctx + fs_rules_count ctx) h req [0..<MAX_RULES]"
proof -
  have si: "sandbox_inv (maps mgr) d st" by (rule mgr_inv_sandbox [OF inv d])
  have rng: "fs_rules_base ctx = st_fs_base st" "fs_rules_count ctx = st_fs_count st"
    "exec_rules_base ctx = st_exec_base st" "exec_rules_count ctx = st_exec_count st"
    using ctx_registered [OF inv d] ctx by auto
  have dj: "span (st_fs_base st) (st_fs_count st) \<inter> free_set (fs_alloc mgr) = {}"
    "span (st_exec_base st) (st_exec_count st) \<inter> free_set (exec_alloc mgr) = {}"
    using inv d unfolding mgr_inv_def held_inv_def fs_held_def exec_held_def by (metis option.case(2))+
  show "exec_scan m' (exec_rules_base ctx) (exec_rules_base ctx + exec_rules_count ctx) ino dev [0..<MAX_RULES] =
      exec_scan (maps mgr) (exec_rules_base ctx) (exec_rules_base ctx + exec_rules_count ctx) ino dev [0..<MAX_RULES]"
  proof (rule exec_scan_cong, rule e)
    fix i assume i: "i \<in> set [0..<MAX_RULES]" "exec_rules_base ctx + of_nat i < exec_rules_base ctx + exec_rules_count ctx"
    have "unat (exec_rules_base ctx + of_nat i) \<in> span (st_exec_base st) (st_exec_count st)"
      unfolding rng using i si by (intro scan_index_in_span) (auto simp: rng sandbox_inv_def MAX_RULES_def)
    then show "unat (exec_rules_base ctx + of_nat i) \<notin> free_set (exec_alloc mgr)" using dj by blast
  qed
  show "fs_scan m' (fs_rules_base ctx) (fs_rules_base ctx + fs_rules_count ctx) h req [0..<MAX_RULES] =
      fs_scan (maps mgr) (fs_rules_base ctx) (fs_rules_base ctx + fs_rules_count ctx) h req [0..<MAX_RULES]"
  proof (rule fs_scan_cong, rule f)
    fix i assume i: "i \<in> set [0..<MAX_RULES]" "fs_rules_base ctx + of_nat i < fs_rules_base ctx + fs_rules_count ctx"
    have "unat (fs_rules_base ctx + of_nat i) \<in> span (st_fs_base st) (st_fs_count st)"
      unfolding rng using i si by (intro scan_index_in_span) (auto simp: rng sandbox_inv_def MAX_RULES_def)
    then show "unat (fs_rules_base ctx + of_nat i) \<notin> free_set (fs_alloc mgr)" using dj by blast
  qed
qed

text \<open>
  C6. A failed policy update leaves the exec and filesystem policy in force alone: whatever failed
  (validation, allocation, a map write at any point, or the final swap), the context of every
  registered sandbox, including the one being updated, is bytewise what it was, and the exec and
  file-open hooks answer as before.
\<close>
theorem failed_update_keeps_policy:
  assumes "lpm_trie K stored" and "system_run K H mgr"
    and "update_policy K H cg plan src mgr = (Inl e, mgr')" and "registered mgr d \<noteq> None"
  shows "lookup_ctx (maps mgr') d = lookup_ctx (maps mgr) d \<and>
    fst (bprm_check_security ret (maps mgr') d file) = fst (bprm_check_security ret (maps mgr) d file) \<and>
    fst (file_open ret (maps mgr') d path mode) = fst (file_open ret (maps mgr) d path mode)"
proof -
  note inv = lpm_trie.system_run_inv [OF assms(1,2)]
  obtain st where st: "registered mgr d = Some st" using assms(4) by blast
  obtain ctx where ctx: "lookup_ctx (maps mgr) d = Some ctx" using ctx_registered [OF inv st] by blast
  note uf = lpm_trie.update_policy_fail [OF assms(1) inv assms(3)]
  have lk: "lookup_ctx (maps mgr') d = lookup_ctx (maps mgr) d" using uf by (simp add: lookup_ctx_def same_ctx_def)
  have "exec_scan (maps mgr') (exec_rules_base ctx) (exec_rules_base ctx + exec_rules_count ctx) ino dev [0..<MAX_RULES] =
      exec_scan (maps mgr) (exec_rules_base ctx) (exec_rules_base ctx + exec_rules_count ctx) ino dev [0..<MAX_RULES]"
    "fs_scan (maps mgr') (fs_rules_base ctx) (fs_rules_base ctx + fs_rules_count ctx) h req [0..<MAX_RULES] =
      fs_scan (maps mgr) (fs_rules_base ctx) (fs_rules_base ctx + fs_rules_count ctx) h req [0..<MAX_RULES]" for ino dev h req
    using uf by (auto intro!: scans_same [OF inv st ctx])
  then show ?thesis
    using lk ctx by (simp add: bprm_check_security_def file_open_def enforcing_def Let_def split: option.split prod.split)
qed

lemma sample_update_fails:
  "update_policy sample_kernel sample_host 2 (sample_plan\<lparr>bp_net_rules := [\<lparr>bn_cidr = ''10.0.0.0/8'', bn_ports = [443]\<rparr>]\<rparr>)
     HostPaths sample_mgr = (Inl (Unsupported ''the v1 port bitmap only encodes ports 0-63''), sample_mgr)"
proof -
  have "parse_cidr ''10.0.0.0/8'' = Inr (10, 8)"
    by (simp add: parse_cidr_def split_once_def parse_ipv4_def parse_octet_def parse_uint_def from_str_radix_def
        to_digit_def octets_be_def)
  then show ?thesis
    by (simp add: update_policy_def check_rule_count_def MAX_RULES_PER_SANDBOX_def exec_entries_of_def sample_plan_def
        resolve_exec_rules_def resolve_net_rules_def resolve_net_rule_def)
qed

theorem failed_update_keeps_policy_witness:
  "fst (bprm_check_security 0 (maps (snd (update_policy sample_kernel sample_host 2
     (sample_plan\<lparr>bp_net_rules := [\<lparr>bn_cidr = ''10.0.0.0/8'', bn_ports = [443]\<rparr>]\<rparr>) HostPaths sample_mgr))) 2 (Some (7, 8))) =
   fst (bprm_check_security 0 (maps sample_mgr) 2 (Some (7, 8)))"
  using failed_update_keeps_policy [OF trie_kernel_lpm sample_mgr_run sample_update_fails sample_mgr_registered(2),
      of 0 "Some (7, 8)" None 0] sample_update_fails by simp

section \<open>The path hash\<close>

text \<open>The multiplier of FNV-1a is one more than twice an odd number, so it fixes two words only.\<close>

lemma double_zero: "h * 2 = (0::u64) \<longleftrightarrow> h = 0 \<or> h = 0x8000000000000000"
proof
  assume "h * 2 = 0"
  then have "unat (h * 2) = 0" by simp
  then have "(unat h * 2) mod 2 ^ 64 = 0" by (simp add: unat_mult_lem unat_word_ariths)
  moreover have "unat h < 2 ^ 64" using unsigned_less [of h] by simp
  moreover obtain k where "unat h * 2 = 2 ^ 64 * k" using calculation(1) by (auto elim: dvdE simp: mod_eq_0_iff_dvd)
  ultimately have "unat h = 0 \<or> unat h = 2 ^ 63" by (cases "k < 2") (auto simp: less_2_cases_iff)
  then show "h = 0 \<or> h = 0x8000000000000000" by (auto simp: word_unat_eq_iff)
qed auto

lemma fnv_fixpoint: "h * 0x100000001b3 = (h :: u64) \<longleftrightarrow> h = 0 \<or> h = 0x8000000000000000"
proof -
  have "h * 0x100000001b3 = h \<longleftrightarrow> h * 0x100000001b3 - h = 0" by (rule right_minus_eq [symmetric])
  also have "h * 0x100000001b3 - h = h * 0x100000001b2" by (simp add: algebra_simps)
  also have "h * 0x100000001b2 = 0 \<longleftrightarrow> h * 2 = 0"
  proof
    assume "h * 0x100000001b2 = 0"
    then have "h * 0x100000001b2 * 0x740975a3fb47f69 = 0" by simp
    then have "h * (0x100000001b2 * 0x740975a3fb47f69) = 0" by (simp only: mult.assoc)
    moreover have "(0x100000001b2 * 0x740975a3fb47f69 :: u64) = 2" by code_simp
    ultimately show "h * 2 = 0" by (simp only:)
  next
    assume "h * 2 = 0"
    then have "h * 2 * 0x80000000d9 = 0" by simp
    then show "h * 0x100000001b2 = 0" by (simp add: mult.assoc)
  qed
  finally show ?thesis using double_zero by simp
qed

lemma ucast_of_char [simp]: "ucast (of_char c :: u8) = (of_char c :: u64)"
proof -
  have "(of_char c :: nat) < 2 ^ 8" by simp
  then have "ucast (of_nat (of_char c) :: u8) = (of_nat (of_char c) :: u64)"
    by (simp add: unsigned_of_nat take_bit_nat_eq_self)
  then show ?thesis by (simp add: of_nat_of_char)
qed

lemma hash_snoc_nul:
  assumes "length path < 256"
  shows "fnv1a_hash (map of_char path @ 0 # rest) (length path) = hash_path path"
    and "fnv1a_hash (map of_char path @ 0 # rest) (Suc (length path)) = hash_path path * 0x100000001b3"
  using assms by (simp_all add: fnv1a_hash_def hash_path_def foldl_map)

text \<open>
  The path hash the compiler stores and the one the file-open hook computes agree on the bytes of
  a path shorter than the hook's buffer. The hook, however, hashes as many bytes as
  \<^verbatim>\<open>bpf_d_path\<close> reports, and the length that helper documents counts the trailing NUL: over that
  length the two hashes agree only for paths whose hash is 0 or 2^63, so the hook does not find the
  rule of any other path.
\<close>
theorem fs_hook_hash_mismatch:
  assumes "length path < 256"
  shows "fnv1a_hash (map of_char path @ 0 # rest) (length path) = hash_path path \<and>
    (fnv1a_hash (map of_char path @ 0 # rest) (Suc (length path)) = hash_path path \<longleftrightarrow>
       hash_path path = 0 \<or> hash_path path = 0x8000000000000000)"
  using assms hash_snoc_nul [OF assms] by (simp add: fnv_fixpoint)

theorem fs_hook_hash_mismatch_witness:
  "fnv1a_hash (map of_char ''/a'' @ 0 # []) (length ''/a'') = hash_path ''/a'' \<and>
   fnv1a_hash (map of_char ''/a'' @ 0 # []) (Suc (length ''/a'')) \<noteq> hash_path ''/a''"
proof -
  have h: "hash_path ''/a'' = 0x7d66707b49cd92d" by (simp add: hash_path_def)
  show ?thesis using fs_hook_hash_mismatch [of "''/a''" "[]"] by (simp add: h)
qed
end
