(* ===== verification/Sandbox_Manager.thy ===== *)
theory Sandbox_Manager
  imports Cgroup Bpf_Turns
begin

text \<open>
  The sandbox manager (\<^verbatim>\<open>aivisor-runtime/src/manager.rs\<close>): the registry of sandboxes and the operations of the daemon on
  them, composed of the cgroup, the BPF policy manager, the policy compiler and the launcher. Each operation is
  a function on the whole state; \<^verbatim>\<open>exec\<close>, which gives up the lock while the command runs, is the
  sequence of its critical sections. Sandbox ids are used through their text.
\<close>

section \<open>State\<close>

record TurnState =
  ts_id :: u64
  ts_label :: string
  ts_baseline_pids :: u64

record SandboxHandle =
  h_state :: SandboxState
  h_spec :: SandboxSpec
  h_cgroup :: "Cgroup option"
  h_rootfs :: "Rootfs option"
  h_attached :: bool
  h_launched_policy :: "Policy option"
  h_launched_landlock :: "LandlockPlan option"
  h_effective_policy :: "Policy option"
  h_exec_ids :: "ExecIdentity list"
  h_turn :: "TurnState option"

record TurnReport =
  tr_turn_id :: u64
  tr_label :: string
  tr_dirty :: bool
  tr_kernel_dirty :: bool
  tr_pid_delta :: int

record 't Manager =
  registry :: "string \<Rightarrow> SandboxHandle option"
  policy_store :: "string \<Rightarrow> Policy option"
  next_turn_id :: u64
  bpf :: "'t BpfManager"
  cgfs :: cgroup_fs

text \<open>What the manager runs on: the BPF kernel, the host's files, the cgroup file system, the probed Landlock version, the mount
  tables under \<^verbatim>\<open>/proc\<close>, and the answers of directory creation, program attachment and descriptor duplication.\<close>

record 't world =
  w_kernel :: "'t kernel"
  w_host :: host
  w_cgroups :: cgroup_kernel
  w_landlock_abi :: u32
  w_mountinfo :: "nat \<Rightarrow> string option"
  w_mkdir :: "string \<Rightarrow> bool"
  w_attach :: "u64 \<Rightarrow> error + unit"
  w_dup :: "u64 \<Rightarrow> bool"

type_synonym ('t, 'a) mop = "'t Manager \<Rightarrow> (error + 'a) \<times> 't Manager"

definition on_bpf :: "('t BpfManager \<Rightarrow> (error + 'a) \<times> 't BpfManager) \<Rightarrow> ('t, 'a) mop" where
  "on_bpf f m = (let (r, b) = f (bpf m) in (r, m\<lparr>bpf := b\<rparr>))"

definition on_cgfs :: "(cgroup_fs \<Rightarrow> (error + 'a) \<times> cgroup_fs) \<Rightarrow> ('t, 'a) mop" where
  "on_cgfs f m = (let (r, c) = f (cgfs m) in (r, m\<lparr>cgfs := c\<rparr>))"

definition mget :: "('t Manager \<Rightarrow> 'a) \<Rightarrow> ('t, 'a) mop" where
  "mget f m = (Inr (f m), m)"

definition mmodify :: "('t Manager \<Rightarrow> 't Manager) \<Rightarrow> ('t, unit) mop" where
  "mmodify f m = (Inr (), f m)"

definition mdiscard :: "('t, 'a) mop \<Rightarrow> ('t, unit) mop" where
  "mdiscard f m = (Inr (), snd (f m))"

text \<open>\<^verbatim>\<open>registry.get_mut\<close>: the handle of a sandbox, and a change to it when there is one.\<close>

definition get_handle :: "error \<Rightarrow> string \<Rightarrow> ('t, SandboxHandle) mop" where
  "get_handle err sid = sbind (mget (\<lambda>m. registry m sid)) (\<lambda>h. slift (ok_or err h))"

definition upd_handle :: "string \<Rightarrow> (SandboxHandle \<Rightarrow> SandboxHandle) \<Rightarrow> 't Manager \<Rightarrow> 't Manager" where
  "upd_handle sid f m = m\<lparr>registry := (registry m)(sid := map_option f (registry m sid))\<rparr>"

definition mgr_new :: "'t bpf_maps \<Rightarrow> cgroup_fs \<Rightarrow> 't Manager" where
  "mgr_new maps0 c = \<lparr>registry = Map.empty, policy_store = Map.empty, next_turn_id = 1, bpf = manager_new maps0, cgfs = c\<rparr>"

definition register_policy :: "string \<Rightarrow> Policy \<Rightarrow> ('t, unit) mop" where
  "register_policy name p = mmodify (\<lambda>m. m\<lparr>policy_store := (policy_store m)(name \<mapsto> p)\<rparr>)"

section \<open>Creation\<close>

definition CGROUP_ROOT :: string where "CGROUP_ROOT = ''/sys/fs/cgroup''"
definition TEMPLATES_DIR :: string where "TEMPLATES_DIR = ''/var/lib/aivisor/templates''"

definition rootfs_prepare :: "(string \<Rightarrow> bool) \<Rightarrow> string \<Rightarrow> string \<Rightarrow> error + Rootfs" where
  "rootfs_prepare mkdir template_dir sandbox_id =
     (let base_dir = ''/run/aivisor/sandboxes/'' @ sandbox_id; up = pjoin base_dir ''upper''; wk = pjoin base_dir ''work''; mg = pjoin base_dir ''merged''
      in if \<not> mkdir base_dir then Inl (MountSetup ''create sandbox dir'')
         else if \<not> mkdir up then Inl (MountSetup ''create upper'')
         else if \<not> mkdir wk then Inl (MountSetup ''create work'')
         else if \<not> mkdir mg then Inl (MountSetup ''create merged'')
         else Inr \<lparr>lower = template_dir, merged = mg, upper = up, work = wk\<rparr>)"

definition new_handle :: "SandboxSpec \<Rightarrow> Cgroup \<Rightarrow> Rootfs \<Rightarrow> SandboxHandle" where
  "new_handle spec cg rootfs =
     \<lparr>h_state = Ready, h_spec = spec, h_cgroup = Some cg, h_rootfs = Some rootfs, h_attached = True, h_launched_policy = None,
      h_launched_landlock = None, h_effective_policy = None, h_exec_ids = [], h_turn = None\<rparr>"

definition create :: "'t world \<Rightarrow> string \<Rightarrow> SandboxSpec \<Rightarrow> ('t, string) mop" where
  "create W sid spec =
     sbind (on_cgfs (cgroup_create (w_cgroups W) CGROUP_ROOT sid)) (\<lambda>cg.
     sbind (on_cgfs (apply_limits (w_cgroups W) cg (limits spec))) (\<lambda>_.
     sbind (on_bpf (register_sandbox (w_kernel W) (cg_id cg))) (\<lambda>_.
       case rbind (rootfs_prepare (w_mkdir W) (pjoin TEMPLATES_DIR (template spec)) sid) (\<lambda>rootfs.
              rbind (w_attach W (cg_id cg)) (\<lambda>_. Inr rootfs)) of
         Inl e \<Rightarrow> sbind (mdiscard (on_bpf (deregister_sandbox (w_kernel W) (cg_id cg)))) (\<lambda>_. sfail e)
       | Inr rootfs \<Rightarrow>
           sbind (mmodify (\<lambda>m. m\<lparr>registry := (registry m)(sid \<mapsto> new_handle spec cg rootfs)\<rparr>)) (\<lambda>_. sreturn sid))))"

section \<open>Policies\<close>

definition fs_rule :: "string \<Rightarrow> string list \<Rightarrow> FsRule" where
  "fs_rule p acc = \<lparr>fr_path = p, fr_access = acc, fr_recursive = True\<rparr>"

definition default_policy :: Policy where
  "default_policy =
     \<lparr>api_version = ''aivisor/v1'', kind = ''SandboxPolicy'', metadata_name = ''aivisor-runtime-default'',
      filesystem = Some \<lparr>fs_default = Deny, fs_rules =
        [fs_rule ''/workspace'' [''read'', ''write'', ''create'', ''delete'', ''truncate''],
         fs_rule ''/usr'' [''read'', ''execute''], fs_rule ''/lib'' [''read'', ''execute''], fs_rule ''/lib64'' [''read'', ''execute''],
         fs_rule ''/etc/ssl/certs'' [''read''], fs_rule ''/tmp'' [''read'', ''write'', ''create'', ''delete'']]\<rparr>,
      exec = None,
      network = Some \<lparr>net_default = Deny, egress = [], block_metadata = True, dns_policy = None\<rparr>,
      runtime = None, audit = None\<rparr>"

definition resolve_policy_locked :: "string \<Rightarrow> ('t, Policy) mop" where
  "resolve_policy_locked sid =
     sbind (get_handle (LaunchFailed ''sandbox not found'') sid) (\<lambda>h.
       case policy_name (h_spec h) of
         None \<Rightarrow> sreturn default_policy
       | Some name \<Rightarrow>
           sbind (mget (\<lambda>m. policy_store m name)) (\<lambda>p.
             slift (ok_or (PolicyInvalid ''sandbox references policy which is not registered'') p)))"

text \<open>The required rights of an executable, as far as the ruleset handles them.\<close>

definition exec_rights :: "u32 \<Rightarrow> u64" where
  "exec_rights abi = (EXECUTE OR READ_FILE) AND known_at_abi abi"

fun rule_paths :: "ExecRule list \<Rightarrow> string list" where
  "rule_paths [] = []"
| "rule_paths (Path p _ # rs) = p # rule_paths rs"
| "rule_paths (Prefix _ # rs) = rule_paths rs"

fun rule_prefixes :: "ExecRule list \<Rightarrow> string list" where
  "rule_prefixes [] = []"
| "rule_prefixes (Path _ _ # rs) = rule_prefixes rs"
| "rule_prefixes (Prefix p # rs) = p # rule_prefixes rs"

definition build_launch_policy :: "u32 \<Rightarrow> Policy \<Rightarrow> string \<Rightarrow> LaunchPolicy" where
  "build_launch_policy abi p cmd =
     (let plan = compile_landlock p abi;
          plan' = (case exec p of
             None \<Rightarrow> plan\<lparr>ll_rules := ll_rules plan @ [\<lparr>ll_path = cmd, ll_access_mask = exec_rights abi\<rparr>]\<rparr>
           | Some _ \<Rightarrow> plan)
      in \<lparr>lp_landlock = plan', lp_seccomp_profile = compile_seccomp p,
          lp_exec_paths = (case exec p of None \<Rightarrow> [cmd] | Some ex \<Rightarrow> rule_paths (ex_allow ex)),
          lp_exec_prefixes = (case exec p of None \<Rightarrow> [] | Some ex \<Rightarrow> rule_prefixes (ex_allow ex))\<rparr>)"

section \<open>Running a command\<close>

text \<open>
  The critical sections of \<^verbatim>\<open>exec\<close>. \<open>exec_begin\<close> takes the snapshot under the lock, builds the launch policy and returns the sandbox
  to its set-up state; the state is already \<^verbatim>\<open>Running\<close> when a later check of this section fails, and stays so.
  \<open>exec_install\<close> is the closure the launcher calls; \<open>exec_failed\<close>, \<open>exec_record\<close> and \<open>exec_finish\<close> are what follows
  the launch and the wait.
\<close>

record launch_snapshot =
  ls_spec :: SandboxSpec
  ls_rootfs :: Rootfs
  ls_policy :: Policy
  ls_cgid :: u64
  ls_launch :: LaunchPolicy

definition exec_begin :: "'t world \<Rightarrow> string \<Rightarrow> string \<Rightarrow> ('t, launch_snapshot) mop" where
  "exec_begin W sid cmd =
     (if \<not> starts_with cmd ''/'' then sfail (LaunchFailed ''cmd must be an absolute path inside the sandbox'')
      else sbind (resolve_policy_locked sid) (\<lambda>p.
        sbind (get_handle (LaunchFailed ''sandbox not found'') sid) (\<lambda>h.
        if h_state h = Running then sfail (LaunchFailed ''sandbox is already running a command'')
        else sbind (mmodify (upd_handle sid (\<lambda>h. h\<lparr>h_state := Running\<rparr>))) (\<lambda>_.
             sbind (slift (ok_or (LaunchFailed ''no cgroup'') (h_cgroup h))) (\<lambda>cg.
             sbind (slift (ok_or (LaunchFailed ''no rootfs'') (h_rootfs h))) (\<lambda>rootfs.
             if \<not> w_dup W (cg_id cg) then sfail (LaunchFailed ''dup cgroup fd'')
             else sbind (on_bpf (begin_setup (w_kernel W) (cg_id cg))) (\<lambda>_.
               sreturn \<lparr>ls_spec = h_spec h, ls_rootfs = rootfs, ls_policy = p, ls_cgid = cg_id cg,
                        ls_launch = build_launch_policy (w_landlock_abi W) p cmd\<rparr>)))))))"

definition exec_install :: "'t world \<Rightarrow> launch_snapshot \<Rightarrow> ExecIdentity list \<Rightarrow> ('t, unit) mop" where
  "exec_install W x exec_ids =
     on_bpf (update_policy (w_kernel W) (w_host W) (ls_cgid x) (compile_bpf (ls_policy x)) (Resolved exec_ids))"

definition exec_failed :: "string \<Rightarrow> ('t, unit) mop" where
  "exec_failed sid = mmodify (upd_handle sid (\<lambda>h. h\<lparr>h_state := Ready\<rparr>))"

definition exec_record :: "string \<Rightarrow> launch_snapshot \<Rightarrow> ExecIdentity list \<Rightarrow> ('t, unit) mop" where
  "exec_record sid x reported =
     mmodify (upd_handle sid (\<lambda>h. h\<lparr>h_launched_policy := Some (ls_policy x), h_launched_landlock := Some (lp_landlock (ls_launch x)),
       h_effective_policy := Some (ls_policy x), h_exec_ids := reported\<rparr>))"

definition exec_finish :: "string \<Rightarrow> ('t, unit) mop" where
  "exec_finish sid = mmodify (upd_handle sid (\<lambda>h. h\<lparr>h_state := Ready\<rparr>))"

section \<open>Turns\<close>

text \<open>\<^verbatim>\<open>next_turn_id.fetch_add(1)\<close>.\<close>

definition fetch_turn_id :: "('t, u64) mop" where
  "fetch_turn_id m = (Inr (next_turn_id m), m\<lparr>next_turn_id := next_turn_id m + 1\<rparr>)"

definition begin_turn :: "'t world \<Rightarrow> string \<Rightarrow> string \<Rightarrow> ('t, u64) mop" where
  "begin_turn W sid label =
     sbind (get_handle (LaunchFailed ''sandbox not found'') sid) (\<lambda>h.
     if h_state h = Running then sfail (LaunchFailed ''cannot begin a turn while a payload is running'')
     else sbind (slift (ok_or (LaunchFailed ''sandbox has no cgroup'') (h_cgroup h))) (\<lambda>cg.
       sbind (on_cgfs (cgroup_stats (w_cgroups W) cg)) (\<lambda>st.
       sbind fetch_turn_id (\<lambda>turn.
       sbind (on_bpf (bpf_begin_turn (w_kernel W) (cg_id cg) turn)) (\<lambda>_.
       sbind (mmodify (upd_handle sid (\<lambda>h. h\<lparr>h_turn :=
           Some \<lparr>ts_id = turn, ts_label = label, ts_baseline_pids = (case pids_current st of Some n \<Rightarrow> n | None \<Rightarrow> 0)\<rparr>\<rparr>))) (\<lambda>_.
         sreturn turn))))))"

text \<open>The turn is taken before the results are known. The difference of the counts is taken in 64-bit two's complement.\<close>

definition turn_report :: "TurnState \<Rightarrow> TurnOutcome \<Rightarrow> u64 option \<Rightarrow> TurnReport" where
  "turn_report turn outcome pids =
     (let (pid_delta, unreadable) =
        (case pids of Some now \<Rightarrow> (sint (now - ts_baseline_pids turn), False) | None \<Rightarrow> (0, True))
      in \<lparr>tr_turn_id = ts_id turn, tr_label = ts_label turn, tr_dirty = to_dirty outcome \<or> pid_delta \<noteq> 0 \<or> unreadable,
          tr_kernel_dirty = to_dirty outcome, tr_pid_delta = pid_delta\<rparr>)"

definition end_turn :: "'t world \<Rightarrow> string \<Rightarrow> ('t, TurnReport) mop" where
  "end_turn W sid =
     sbind (get_handle (LaunchFailed ''sandbox not found'') sid) (\<lambda>h.
     sbind (slift (ok_or (LaunchFailed ''sandbox has no open turn'') (h_turn h))) (\<lambda>turn.
     sbind (mmodify (upd_handle sid (\<lambda>h. h\<lparr>h_turn := None\<rparr>))) (\<lambda>_.
     sbind (slift (ok_or (LaunchFailed ''sandbox has no cgroup'') (h_cgroup h))) (\<lambda>cg.
     sbind (on_bpf (bpf_end_turn (w_kernel W) (cg_id cg))) (\<lambda>outcome.
     sbind (on_cgfs (cgroup_stats (w_cgroups W) cg)) (\<lambda>st.
       sreturn (turn_report turn outcome (pids_current st))))))))"

section \<open>Capabilities at run time\<close>

datatype CapabilityChange = Grant | Revoke

definition check_landlock_ceiling :: "u32 \<Rightarrow> SandboxHandle \<Rightarrow> Capability \<Rightarrow> error + unit" where
  "check_landlock_ceiling abi h cap =
     (case cap of
        Exec p \<Rightarrow>
          rbind (ok_or (PolicyInvalid ''sandbox has no recorded Landlock ruleset'') (h_launched_landlock h)) (\<lambda>ceiling.
            if permits ceiling p (exec_rights abi) then Inr () else Inl (Unsupported ''cannot grant exec beyond the Landlock ruleset''))
      | _ \<Rightarrow> Inr ())"

definition first_pid_in_cgroup :: "cgroup_kernel \<Rightarrow> string \<Rightarrow> cgroup_fs \<Rightarrow> (error + nat option) \<times> cgroup_fs" where
  "first_pid_in_cgroup C cgroup_path =
     sbind (c_try (read_to_string C (Io ''cgroup.procs'') (pjoin cgroup_path ''cgroup.procs''))) (\<lambda>c.
       sreturn (case c of None \<Rightarrow> None
                | Some procs \<Rightarrow> (case List.map_filter (\<lambda>l. parse_uint 32 (trim l)) (str_lines procs) of [] \<Rightarrow> None | p # _ \<Rightarrow> Some p)))"

definition adjust_ids :: "CapabilityChange \<Rightarrow> ExecIdentity list \<Rightarrow> ExecIdentity list \<Rightarrow> ExecIdentity list" where
  "adjust_ids change installed_ids resolved =
     (case change of
        Grant \<Rightarrow> foldl (\<lambda>ids i. if i \<in> set ids then ids else ids @ [i]) installed_ids resolved
      | Revoke \<Rightarrow> filter (\<lambda>i. i \<notin> set resolved) installed_ids)"

definition exec_ids_after :: "'t world \<Rightarrow> SandboxHandle \<Rightarrow> string \<Rightarrow> Capability \<Rightarrow> CapabilityChange \<Rightarrow> ('t, ExecIdentity list) mop" where
  "exec_ids_after W h cgroup_path cap change =
     (case cap of
        Exec p \<Rightarrow>
          sbind (on_cgfs (first_pid_in_cgroup (w_cgroups W) cgroup_path)) (\<lambda>pid.
          sbind (slift (ok_or (LaunchFailed ''no live process in the cgroup of the sandbox'') pid)) (\<lambda>pid.
          sbind (slift (case resolve_exec_identities_via_pid (w_host W) (w_mountinfo W) pid [p] [] of
                          Inl e \<Rightarrow> Inl (LaunchFailed e) | Inr ids \<Rightarrow> Inr ids)) (\<lambda>resolved.
            sreturn (adjust_ids change (h_exec_ids h) resolved))))
      | _ \<Rightarrow> sreturn (h_exec_ids h))"

definition apply_capability :: "'t world \<Rightarrow> string \<Rightarrow> Capability \<Rightarrow> CapabilityChange \<Rightarrow> ('t, u32) mop" where
  "apply_capability W sid cap change =
     sbind (slift (check_runtime_capability cap)) (\<lambda>_.
     sbind (get_handle (LaunchFailed ''sandbox not found'') sid) (\<lambda>h.
     sbind (slift (ok_or (LaunchFailed ''sandbox has no cgroup'') (h_cgroup h))) (\<lambda>cg.
     sbind (slift (ok_or (PolicyInvalid ''sandbox has never been launched'') (h_effective_policy h))) (\<lambda>eff.
     sbind (slift (if change = Grant then check_landlock_ceiling (w_landlock_abi W) h cap else Inr ())) (\<lambda>_.
     sbind (slift (case change of Grant \<Rightarrow> with_capability_granted eff cap | Revoke \<Rightarrow> with_capability_revoked eff cap)) (\<lambda>next_policy.
     sbind (exec_ids_after W h (cg_path cg) cap change) (\<lambda>exec_ids.
     sbind (on_bpf (update_policy (w_kernel W) (w_host W) (cg_id cg) (compile_bpf next_policy) (Resolved exec_ids))) (\<lambda>_.
     sbind (mmodify (upd_handle sid (\<lambda>h. h\<lparr>h_effective_policy := Some next_policy, h_exec_ids := exec_ids\<rparr>))) (\<lambda>_.
       on_bpf (policy_generation (w_kernel W) (cg_id cg)))))))))))"

section \<open>Pausing and destroying\<close>

definition pause :: "'t world \<Rightarrow> string \<Rightarrow> ('t, unit) mop" where
  "pause W sid =
     sbind (get_handle AlreadyTerminated sid) (\<lambda>h.
     sbind (case h_cgroup h of None \<Rightarrow> sreturn () | Some cg \<Rightarrow> on_cgfs (freeze (w_cgroups W) cg)) (\<lambda>_.
       mmodify (upd_handle sid (\<lambda>h. h\<lparr>h_state := Paused\<rparr>))))"

definition resume :: "'t world \<Rightarrow> string \<Rightarrow> ('t, unit) mop" where
  "resume W sid =
     sbind (get_handle AlreadyTerminated sid) (\<lambda>h.
     sbind (case h_cgroup h of None \<Rightarrow> sreturn () | Some cg \<Rightarrow> on_cgfs (thaw (w_cgroups W) cg)) (\<lambda>_.
       mmodify (upd_handle sid (\<lambda>h. h\<lparr>h_state := Running\<rparr>))))"

text \<open>The handle is removed first. Its supervisor field is never set, so there is nothing to signal; the directories of the root file
  system are removed as far as that succeeds.\<close>

definition destroy :: "'t world \<Rightarrow> string \<Rightarrow> ('t, unit) mop" where
  "destroy W sid =
     sbind (mget (\<lambda>m. registry m sid)) (\<lambda>removed.
     case removed of
       None \<Rightarrow> sreturn ()
     | Some h \<Rightarrow>
         sbind (mmodify (\<lambda>m. m\<lparr>registry := (registry m)(sid := None)\<rparr>)) (\<lambda>_.
           case h_cgroup h of
             None \<Rightarrow> sreturn ()
           | Some cg \<Rightarrow>
               sbind (on_cgfs (cgroup_destroy (w_cgroups W) cg)) (\<lambda>_.
                 on_bpf (deregister_sandbox (w_kernel W) (cg_id cg)))))"

definition workspace_upper_dir :: "string \<Rightarrow> ('t, string) mop" where
  "workspace_upper_dir sid =
     sbind (get_handle (LaunchFailed ''sandbox not found'') sid) (\<lambda>h.
     sbind (slift (ok_or (LaunchFailed ''no rootfs'') (h_rootfs h))) (\<lambda>r. sreturn (pjoin (upper r) ''workspace'')))"

text \<open>The sweep at start: entries of the cgroup root with their age in seconds and the contents of \<^verbatim>\<open>cgroup.procs\<close>, both absent when
  unreadable. The result is the directories to remove.\<close>

record cgroup_entry =
  ce_name :: string
  ce_is_dir :: bool
  ce_age :: "nat option"
  ce_procs :: "string option"

definition ORPHAN_GRACE_PERIOD :: nat where "ORPHAN_GRACE_PERIOD = 30"

definition is_orphan :: "cgroup_entry \<Rightarrow> bool" where
  "is_orphan e \<longleftrightarrow>
     ce_is_dir e \<and> length (ce_name e) = 36 \<and> CHR ''-'' \<in> set (ce_name e) \<and>
     (case ce_age e of Some age \<Rightarrow> ORPHAN_GRACE_PERIOD \<le> age | None \<Rightarrow> False) \<and>
     trim (case ce_procs e of Some p \<Rightarrow> p | None \<Rightarrow> []) = []"

definition clean_orphan_cgroups :: "cgroup_entry list option \<Rightarrow> string list" where
  "clean_orphan_cgroups entries = (case entries of None \<Rightarrow> [] | Some es \<Rightarrow> map ce_name (filter is_orphan es))"

section \<open>Histories\<close>

text \<open>
  Everything that can happen to a manager: its operations, with the critical sections of any number of launches in between,
  the installation for any sandbox a launch has begun on, and the hooks of the sandboxed tasks.
\<close>

datatype mgr_call =
    Create string SandboxSpec | RegisterPolicy string Policy | ExecBegin string string | ExecInstall launch_snapshot "ExecIdentity list"
  | ExecFailed string | ExecRecord string launch_snapshot "ExecIdentity list" | ExecFinish string
  | BeginTurn string string | EndTurn string | ApplyCapability string Capability CapabilityChange
  | Pause string | Resume string | Destroy string

fun run_call :: "'t world \<Rightarrow> mgr_call \<Rightarrow> 't Manager \<Rightarrow> 't Manager" where
  "run_call W (Create sid spec) m = snd (create W sid spec m)"
| "run_call W (RegisterPolicy n p) m = snd (register_policy n p m)"
| "run_call W (ExecBegin sid cmd) m = snd (exec_begin W sid cmd m)"
| "run_call W (ExecInstall x ids) m = snd (exec_install W x ids m)"
| "run_call W (ExecFailed sid) m = snd (exec_failed sid m)"
| "run_call W (ExecRecord sid x ids) m = snd (exec_record sid x ids m)"
| "run_call W (ExecFinish sid) m = snd (exec_finish sid m)"
| "run_call W (BeginTurn sid label) m = snd (begin_turn W sid label m)"
| "run_call W (EndTurn sid) m = snd (end_turn W sid m)"
| "run_call W (ApplyCapability sid cap change) m = snd (apply_capability W sid cap change m)"
| "run_call W (Pause sid) m = snd (pause W sid m)"
| "run_call W (Resume sid) m = snd (resume W sid m)"
| "run_call W (Destroy sid) m = snd (destroy W sid m)"

inductive manager_run :: "'t world \<Rightarrow> 't Manager \<Rightarrow> bool" for W where
  new: "manager_run W (mgr_new maps0 c)"
| call: "manager_run W m \<Longrightarrow> manager_run W (run_call W c m)"
| task: "manager_run W m \<Longrightarrow> run_hook (w_kernel W) ret (maps (bpf m)) cg hk = (v, m', ev) \<Longrightarrow>
    manager_run W (m\<lparr>bpf := (bpf m)\<lparr>maps := m'\<rparr>\<rparr>)"

end
