(* ===== verification/Sandbox_Safe.thy ===== *)
theory Sandbox_Safe
  imports Sandbox_Manager
begin

text \<open>
  What holds of the sandbox manager over every history: each sandbox in the registry has its own cgroup with a context in the kernel's
  map; grants stay below the Landlock ceiling; clean turns are clean; a context is removed only after
  the last task. A concrete history exercises the theorems.
\<close>

section \<open>The invariant of the manager\<close>

text \<open>Every handle has a cgroup, registered with the BPF manager, and no two handles share one.\<close>

definition cgroup_of :: "'t Manager \<Rightarrow> string \<Rightarrow> Cgroup option option" where
  "cgroup_of m sid = map_option h_cgroup (registry m sid)"

definition handles_ok :: "'t Manager \<Rightarrow> bool" where
  "handles_ok m \<longleftrightarrow>
     (\<forall>sid x. cgroup_of m sid = Some x \<longrightarrow> (\<exists>cg. x = Some cg \<and> registered (bpf m) (cg_id cg) \<noteq> None)) \<and>
     (\<forall>sid sid' cg cg'. cgroup_of m sid = Some (Some cg) \<longrightarrow> cgroup_of m sid' = Some (Some cg') \<longrightarrow> cg_id cg = cg_id cg' \<longrightarrow> sid = sid')"

lemma handles_okD:
  assumes "handles_ok m"
  shows "registry m sid = Some h \<Longrightarrow> \<exists>cg. h_cgroup h = Some cg \<and> registered (bpf m) (cg_id cg) \<noteq> None"
    "cgroup_of m sid = Some (Some cg) \<Longrightarrow> registered (bpf m) (cg_id cg) \<noteq> None"
    "cgroup_of m sid = Some (Some cg) \<Longrightarrow> cgroup_of m sid' = Some (Some cg') \<Longrightarrow> cg_id cg = cg_id cg' \<Longrightarrow> sid = sid'"
proof -
  assume "registry m sid = Some h"
  then have "cgroup_of m sid = Some (h_cgroup h)" by (simp add: cgroup_of_def)
  then show "\<exists>cg. h_cgroup h = Some cg \<and> registered (bpf m) (cg_id cg) \<noteq> None" using assms unfolding handles_ok_def by blast
qed (use assms in \<open>unfold handles_ok_def, blast+\<close>)

lemma handles_ok_cong: "cgroup_of m' = cgroup_of m \<Longrightarrow> bpf m' = bpf m \<Longrightarrow> handles_ok m' = handles_ok m"
  by (simp add: handles_ok_def)

definition run_inv :: "'t world \<Rightarrow> 't Manager \<Rightarrow> bool" where
  "run_inv W m \<longleftrightarrow> system_run (w_kernel W) (w_host W) (bpf m) \<and> handles_ok m"

definition keeps :: "('t Manager \<Rightarrow> bool) \<Rightarrow> ('t, 'a) mop \<Rightarrow> bool" where
  "keeps I f \<longleftrightarrow> (\<forall>m. I m \<longrightarrow> I (snd (f m)))"

named_theorems keeping "steps of the manager that keep its invariant"

lemma keeps_sbind [keeping]: "keeps I f \<Longrightarrow> (\<And>x. keeps I (g x)) \<Longrightarrow> keeps I (sbind f g)"
  unfolding keeps_def sbind_def by (metis (no_types, lifting) prod.case_eq_if snd_conv sum.case_eq_if)

lemma keeps_pure [keeping]: "keeps I (sreturn x)" "keeps I (sfail e)" "keeps I (slift y)" "keeps I (mget f)"
  by (simp_all add: keeps_def sreturn_def sfail_def slift_def mget_def)

lemma keeps_if [keeping]: "keeps I f \<Longrightarrow> keeps I g \<Longrightarrow> keeps I (if b then f else g)"
  by simp

lemma keeps_option [keeping]: "keeps I f \<Longrightarrow> (\<And>x. keeps I (g x)) \<Longrightarrow> keeps I (case y of None \<Rightarrow> f | Some x \<Rightarrow> g x)"
  by (cases y) auto

lemma keeps_mdiscard [keeping]: "keeps I f \<Longrightarrow> keeps I (mdiscard f)"
  by (simp add: keeps_def mdiscard_def)

lemma run_inv_cong: "cgroup_of m' = cgroup_of m \<Longrightarrow> bpf m' = bpf m \<Longrightarrow> run_inv W m \<Longrightarrow> run_inv W m'"
  using handles_ok_cong [of m' m] by (simp add: run_inv_def)

lemma keeps_cgfs [keeping]: "keeps (run_inv W) (on_cgfs f)"
  unfolding keeps_def on_cgfs_def
  by (auto simp: cgroup_of_def fun_eq_iff split: prod.splits elim!: run_inv_cong [rotated 2])

lemma keeps_upd [keeping]:
  assumes "\<And>h. h_cgroup (f h) = h_cgroup h"
  shows "keeps (run_inv W) (mmodify (upd_handle sid f))"
  unfolding keeps_def mmodify_def
  by (auto simp: cgroup_of_def upd_handle_def fun_eq_iff assms option.map_comp comp_def elim!: run_inv_cong [rotated 2])

text \<open>A BPF operation that forgets no registration.\<close>

definition reg_mono :: "'t BpfManager \<Rightarrow> 't BpfManager \<Rightarrow> bool" where
  "reg_mono b b' \<longleftrightarrow> (\<forall>c. registered b c \<noteq> None \<longrightarrow> registered b' c \<noteq> None)"

lemma reg_mono_refl [simp]: "reg_mono b b"
  by (simp add: reg_mono_def)

lemma handles_ok_mono: "handles_ok m \<Longrightarrow> reg_mono (bpf m) b \<Longrightarrow> handles_ok (m\<lparr>bpf := b\<rparr>)"
  by (simp add: handles_ok_def reg_mono_def cgroup_of_def) blast

lemma reg_mono_read: "read_ctx K c b = (r, b') \<Longrightarrow> registered b' = registered b"
  by (drule read_ctx_state) simp

lemma reg_mono_swap: "swap_policy K c fb fc eb ec net b = (r, b') \<Longrightarrow> reg_mono b b'"
  by (auto simp: swap_policy_def Let_def reg_mono_def dest!: reg_mono_read write_ctx_fields(1)
      split: prod.splits sum.splits option.splits if_splits)

lemma reg_mono_install: "install_policy K c fs ex net b = (r, b') \<Longrightarrow> reg_mono b b'"
  by (auto simp: install_policy_def Let_def dest!: reg_mono_swap split: prod.splits sum.splits if_splits)
     (auto simp: reg_mono_def)

lemma reg_mono_op:
  assumes "run_op K H c op b = (r, b')" "op \<noteq> Deregister_op"
  shows "reg_mono b b'"
proof (cases op)
  case (Update_op plan src)
  then show ?thesis using assms(1)
    by (auto simp: update_policy_def split: sum.splits dest: reg_mono_install)
qed (use assms in \<open>auto simp: reg_mono_def register_sandbox_def begin_setup_def bpf_begin_turn_def bpf_end_turn_def policy_generation_def
    dest!: reg_mono_read write_ctx_fields(1) split: prod.splits sum.splits if_splits\<close>)

lemma keeps_op:
  assumes "\<And>b r b'. f b = (r, b') \<Longrightarrow> \<exists>r'. run_op (w_kernel W) (w_host W) c op b = (r', b')" "op \<noteq> Deregister_op"
  shows "keeps (run_inv W) (on_bpf f)"
  unfolding keeps_def
proof (intro allI impI)
  fix m assume inv: "run_inv W m"
  obtain r b' where f: "f (bpf m) = (r, b')" by force
  then obtain r' where op: "run_op (w_kernel W) (w_host W) c op (bpf m) = (r', b')" using assms(1) by blast
  have "system_run (w_kernel W) (w_host W) b'" using inv op by (auto simp: run_inv_def intro: system_run.operation)
  moreover have "handles_ok (m\<lparr>bpf := b'\<rparr>)" using inv reg_mono_op [OF op assms(2)] by (simp add: run_inv_def handles_ok_mono)
  ultimately show "run_inv W (snd (on_bpf f m))" by (simp add: on_bpf_def f run_inv_def)
qed

lemma keeps_bpf [keeping]:
  "keeps (run_inv W) (on_bpf (register_sandbox (w_kernel W) c))"
  "keeps (run_inv W) (on_bpf (begin_setup (w_kernel W) c))"
  "keeps (run_inv W) (on_bpf (update_policy (w_kernel W) (w_host W) c plan src))"
  "keeps (run_inv W) (on_bpf (bpf_begin_turn (w_kernel W) c t))"
  "keeps (run_inv W) (on_bpf (bpf_end_turn (w_kernel W) c))"
  "keeps (run_inv W) (on_bpf (policy_generation (w_kernel W) c))"
  by (rule keeps_op [where c = c and op = Register_op] keeps_op [where c = c and op = Begin_setup_op]
      keeps_op [where c = c and op = "Update_op plan src"] keeps_op [where c = c and op = "Begin_turn_op t"]
      keeps_op [where c = c and op = End_turn_op] keeps_op [where c = c and op = Generation_op];
      simp add: Let_def)+

lemma keeps_misc [keeping]:
  "keeps (run_inv W) (mmodify (\<lambda>m. m\<lparr>policy_store := f (policy_store m)\<rparr>))" "keeps (run_inv W) fetch_turn_id"
  unfolding keeps_def mmodify_def fetch_turn_id_def
  by (auto simp: cgroup_of_def elim!: run_inv_cong [rotated 2])

lemma keeps_get_handle [keeping]: "keeps I (get_handle e sid)"
  unfolding get_handle_def by (intro keeping)

lemma keeps_resolve [keeping]: "keeps I (resolve_policy_locked sid)"
  unfolding resolve_policy_locked_def by (intro keeping)

lemma keeps_exec [keeping]:
  "keeps (run_inv W) (exec_begin W sid cmd)" "keeps (run_inv W) (exec_install W x ids)" "keeps (run_inv W) (exec_failed sid)"
  "keeps (run_inv W) (exec_record sid x ids)" "keeps (run_inv W) (exec_finish sid)"
  unfolding exec_begin_def exec_install_def exec_failed_def exec_record_def exec_finish_def
  by (intro keeping; simp)+

lemma keeps_turns [keeping]: "keeps (run_inv W) (begin_turn W sid label)" "keeps (run_inv W) (end_turn W sid)"
  unfolding begin_turn_def end_turn_def by (intro keeping; simp)+

lemma keeps_exec_ids [keeping]: "keeps (run_inv W) (exec_ids_after W h p cap change)"
  unfolding exec_ids_after_def by (cases cap) (simp_all add: keeping)

lemma keeps_capability [keeping]: "keeps (run_inv W) (apply_capability W sid cap change)"
  unfolding apply_capability_def by (intro keeping; simp)

lemma keeps_pause [keeping]: "keeps (run_inv W) (pause W sid)" "keeps (run_inv W) (resume W sid)"
  unfolding pause_def resume_def by (intro keeping; simp)+

lemma keeps_register_policy [keeping]: "keeps (run_inv W) (register_policy n p)"
  unfolding register_policy_def by (rule keeping)

text \<open>Creation and destruction change which cgroups are registered; they do so for one that no handle has.\<close>

definition unused :: "'t Manager \<Rightarrow> u64 \<Rightarrow> bool" where
  "unused m c \<longleftrightarrow> (\<forall>sid cg. cgroup_of m sid = Some (Some cg) \<longrightarrow> cg_id cg \<noteq> c)"

lemma unused_cong: "cgroup_of m' = cgroup_of m \<Longrightarrow> unused m' c = unused m c"
  by (simp add: unused_def)

lemma deregistered: "registered (snd (deregister_sandbox K c b)) = (registered b)(c := None)"
  by (auto simp: deregister_sandbox_def Let_def fun_eq_iff split: option.splits prod.splits)

lemma deregister_inv:
  assumes "run_inv W m" "unused m c"
  shows "run_inv W (snd (on_bpf (deregister_sandbox (w_kernel W) c) m))"
proof -
  let ?b = "snd (deregister_sandbox (w_kernel W) c (bpf m))"
  have "system_run (w_kernel W) (w_host W) ?b"
    using assms(1) system_run.operation [of "w_kernel W" "w_host W" "bpf m" c Deregister_op _ ?b]
    by (simp add: run_inv_def prod_eq_iff)
  moreover have "handles_ok (m\<lparr>bpf := ?b\<rparr>)"
    using assms by (simp add: run_inv_def handles_ok_def unused_def cgroup_of_def deregistered) blast
  ultimately show ?thesis by (simp add: on_bpf_def run_inv_def split_def Let_def)
qed

lemma destroy_keeps: "keeps (run_inv W) (destroy W sid)"
  unfolding keeps_def
proof (intro allI impI)
  fix m assume inv: "run_inv W m"
  show "run_inv W (snd (destroy W sid m))"
  proof (cases "registry m sid")
    case None
    then show ?thesis using inv by (simp add: destroy_def mget_def sbind_def sreturn_def)
  next
    case (Some h)
    let ?m1 = "m\<lparr>registry := (registry m)(sid := None)\<rparr>"
    have ok: "handles_ok m" using inv by (simp add: run_inv_def)
    from handles_okD(1) [OF ok Some] obtain cg where cg: "h_cgroup h = Some cg" by blast
    then have here: "cgroup_of m sid = Some (Some cg)" by (simp add: cgroup_of_def Some)
    have inv1: "run_inv W ?m1" using inv by (auto simp: run_inv_def handles_ok_def cgroup_of_def)
    have "cgroup_of ?m1 = (cgroup_of m)(sid := None)" by (auto simp: cgroup_of_def fun_eq_iff)
    then have un: "unused ?m1 (cg_id cg)" using handles_okD(3) [OF ok here] by (auto simp: unused_def split: if_splits)
    obtain r c where d: "cgroup_destroy (w_cgroups W) cg (cgfs m) = (r, c)" by force
    have inv2: "run_inv W (?m1\<lparr>cgfs := c\<rparr>)" and un2: "unused (?m1\<lparr>cgfs := c\<rparr>) (cg_id cg)"
      using run_inv_cong [OF _ _ inv1, of "?m1\<lparr>cgfs := c\<rparr>"] un unused_cong [of "?m1\<lparr>cgfs := c\<rparr>" ?m1] by (simp_all add: cgroup_of_def fun_eq_iff)
    have "snd (destroy W sid m) = (case r of Inl _ \<Rightarrow> ?m1\<lparr>cgfs := c\<rparr>
        | Inr _ \<Rightarrow> snd (on_bpf (deregister_sandbox (w_kernel W) (cg_id cg)) (?m1\<lparr>cgfs := c\<rparr>)))"
      by (cases r) (simp_all add: destroy_def mget_def sbind_def mmodify_def Some cg on_cgfs_def d)
    then show ?thesis using inv2 deregister_inv [OF inv2 un2] by (cases r) simp_all
  qed
qed

lemma register_effect:
  assumes "register_sandbox K c b = (Inr u, b')"
  shows "registered b c = None \<and> registered b' c \<noteq> None \<and> (\<forall>d. d \<noteq> c \<longrightarrow> registered b' d = registered b d)"
  using assms by (auto simp: register_sandbox_def dest!: write_ctx_fields(1) split: if_splits prod.splits sum.splits)

lemma insert_inv:
  assumes "run_inv W m" "unused m (cg_id cg)" "registered (bpf m) (cg_id cg) \<noteq> None" "h_cgroup h = Some cg"
  shows "run_inv W (m\<lparr>registry := (registry m)(sid \<mapsto> h)\<rparr>)"
proof -
  have "cgroup_of (m\<lparr>registry := (registry m)(sid \<mapsto> h)\<rparr>) = (cgroup_of m)(sid \<mapsto> Some cg)"
    by (auto simp: cgroup_of_def fun_eq_iff assms(4))
  with assms(1-3) show ?thesis by (simp add: run_inv_def handles_ok_def unused_def) metis
qed

lemma create_keeps: "keeps (run_inv W) (create W sid spec)"
proof -
  let ?K = "w_kernel W"
  have tail: "keeps (run_inv W) (sbind (on_bpf (register_sandbox ?K (cg_id cg))) (\<lambda>_.
       case y of
         Inl e \<Rightarrow> sbind (mdiscard (on_bpf (deregister_sandbox ?K (cg_id cg)))) (\<lambda>_. sfail e)
       | Inr rootfs \<Rightarrow> sbind (mmodify (\<lambda>m. m\<lparr>registry := (registry m)(sid \<mapsto> new_handle spec cg rootfs)\<rparr>)) (\<lambda>_. sreturn sid)))"
    for cg and y :: "error + Rootfs"
    unfolding keeps_def
  proof (intro allI impI)
    fix m assume inv: "run_inv W m"
    obtain r b where reg: "register_sandbox ?K (cg_id cg) (bpf m) = (r, b)" by force
    have inv1: "run_inv W (m\<lparr>bpf := b\<rparr>)"
      using keeps_bpf(1) [of W "cg_id cg", unfolded keeps_def, rule_format, OF inv] by (simp add: on_bpf_def reg)
    show "run_inv W (snd (sbind (on_bpf (register_sandbox ?K (cg_id cg))) (\<lambda>_.
       case y of
         Inl e \<Rightarrow> sbind (mdiscard (on_bpf (deregister_sandbox ?K (cg_id cg)))) (\<lambda>_. sfail e)
       | Inr rootfs \<Rightarrow> sbind (mmodify (\<lambda>m. m\<lparr>registry := (registry m)(sid \<mapsto> new_handle spec cg rootfs)\<rparr>)) (\<lambda>_. sreturn sid)) m))"
    proof (cases r)
      case (Inl e)
      then show ?thesis using inv1 by (simp add: sbind_def on_bpf_def reg)
    next
      case (Inr u)
      note eff = register_effect [OF reg [unfolded Inr]]
      have "unused m (cg_id cg)" using handles_okD(2) [of m] inv eff unfolding unused_def run_inv_def by metis
      then have un: "unused (m\<lparr>bpf := b\<rparr>) (cg_id cg)"
        using unused_cong [of "m\<lparr>bpf := b\<rparr>" m] by (simp add: cgroup_of_def fun_eq_iff)
      show ?thesis
      proof (cases y)
        case Inl
        then show ?thesis using deregister_inv [OF inv1 un] Inr
          by (simp add: sbind_def on_bpf_def [of "register_sandbox ?K (cg_id cg)" m] reg mdiscard_def sfail_def)
      next
        case (Inr rootfs)
        have "run_inv W ((m\<lparr>bpf := b\<rparr>)\<lparr>registry := (registry (m\<lparr>bpf := b\<rparr>))(sid \<mapsto> new_handle spec cg rootfs)\<rparr>)"
          by (rule insert_inv [OF inv1 un]) (use eff in \<open>simp_all add: new_handle_def\<close>)
        then show ?thesis using Inr \<open>r = Inr u\<close> by (simp add: sbind_def on_bpf_def reg mmodify_def sreturn_def)
      qed
    qed
  qed
  show ?thesis unfolding create_def by (rule keeps_sbind [OF keeps_cgfs], rule keeps_sbind [OF keeps_cgfs], rule tail)
qed

lemmas call_keeps = create_keeps destroy_keeps keeps_exec keeps_turns keeps_capability keeps_pause keeps_register_policy

lemma call_inv: "run_inv W m \<Longrightarrow> run_inv W (run_call W c m)"
  by (cases c) (simp_all add: call_keeps [unfolded keeps_def, rule_format])

lemma manager_run_inv: "manager_run W m \<Longrightarrow> run_inv W m"
proof (induction rule: manager_run.induct)
  case (new maps0 c)
  show ?case by (simp add: run_inv_def handles_ok_def mgr_new_def cgroup_of_def system_run.boot)
next
  case (call m c)
  then show ?case by (simp add: call_inv)
next
  case (task m ret cg hk v m' ev)
  then have "system_run (w_kernel W) (w_host W) ((bpf m)\<lparr>maps := m'\<rparr>)"
    by (auto simp: run_inv_def intro: system_run.hook)
  moreover have "handles_ok (m\<lparr>bpf := (bpf m)\<lparr>maps := m'\<rparr>\<rparr>)"
    using task.IH by (intro handles_ok_mono) (simp_all add: run_inv_def reg_mono_def)
  ultimately show ?case by (simp add: run_inv_def)
qed

lemma handle_context:
  assumes "lpm_trie (w_kernel W) stored" "manager_run W m" "registry m sid = Some h"
  shows "\<exists>cg ctx. h_cgroup h = Some cg \<and> lookup_ctx (maps (bpf m)) (cg_id cg) = Some ctx"
proof -
  have inv: "system_run (w_kernel W) (w_host W) (bpf m)" "handles_ok m"
    using manager_run_inv [OF assms(2)] by (simp_all add: run_inv_def)
  obtain cg st where cg: "h_cgroup h = Some cg" "registered (bpf m) (cg_id cg) = Some st"
    using handles_okD(1) [OF inv(2) assms(3)] by blast
  have "sandbox_inv (maps (bpf m)) (cg_id cg) st"
    by (rule mgr_inv_sandbox [OF lpm_trie.system_run_inv [OF assms(1) inv(1)] cg(2)])
  then show ?thesis using cg(1) by (auto simp: sandbox_inv_def lookup_ctx_def ctx_from_to_bytes)
qed

text \<open>
  C29. Every sandbox the daemon knows is known to the kernel hooks. After any history of manager operations, launches in
  progress, kernel failures and hook runs, a sandbox in the registry has a cgroup of its own, shared with no
  other sandbox, and the context of that cgroup is in the kernel's map. No task of a live sandbox is therefore
  taken for a task of the host, which the hooks let do as it likes.
\<close>
theorem live_sandbox_has_context:
  assumes "lpm_trie (w_kernel W) stored" "manager_run W m" "registry m sid = Some h"
  shows "\<exists>cg ctx. h_cgroup h = Some cg \<and> lookup_ctx (maps (bpf m)) (cg_id cg) = Some ctx \<and>
    (\<forall>sid' h'. registry m sid' = Some h' \<and> map_option cg_id (h_cgroup h') = Some (cg_id cg) \<longrightarrow> sid' = sid)"
proof -
  have ok: "handles_ok m" using manager_run_inv [OF assms(2)] by (simp add: run_inv_def)
  obtain cg ctx where cg: "h_cgroup h = Some cg" "lookup_ctx (maps (bpf m)) (cg_id cg) = Some ctx"
    using handle_context [OF assms] by blast
  have "sid' = sid" if "registry m sid' = Some h'" "map_option cg_id (h_cgroup h') = Some (cg_id cg)" for sid' h'
  proof -
    from that obtain cg' where "cgroup_of m sid' = Some (Some cg')" "cg_id cg' = cg_id cg" by (auto simp: cgroup_of_def)
    moreover have "cgroup_of m sid = Some (Some cg)" by (simp add: cgroup_of_def assms(3) cg)
    ultimately show ?thesis using handles_okD(3) [OF ok] by blast
  qed
  then show ?thesis using cg by blast
qed

section \<open>What the operations promise\<close>

lemma on_bpf_Inr: "on_bpf f m = (Inr x, m') \<longleftrightarrow> (\<exists>b. f (bpf m) = (Inr x, b) \<and> m' = m\<lparr>bpf := b\<rparr>)"
  by (auto simp: on_bpf_def split: prod.splits)

lemma on_cgfs_Inr: "on_cgfs f m = (Inr x, m') \<longleftrightarrow> (\<exists>c. f (cgfs m) = (Inr x, c) \<and> m' = m\<lparr>cgfs := c\<rparr>)"
  by (auto simp: on_cgfs_def split: prod.splits)

lemma mget_Inr: "mget f m = (Inr x, m') \<longleftrightarrow> x = f m \<and> m' = m"
  by (auto simp: mget_def)

lemma mmodify_Inr: "mmodify f m = (Inr x, m') \<longleftrightarrow> m' = f m"
  by (auto simp: mmodify_def)

lemma slift_Inr: "slift y m = (Inr x, m') \<longleftrightarrow> y = Inr x \<and> m' = m"
  by (auto simp: slift_def)

declare slift_iff [simp del]

lemma ok_or_Inr: "ok_or e y = Inr x \<longleftrightarrow> y = Some x"
  by (auto simp: ok_or_def split: option.splits)

lemma get_handle_Inr: "get_handle e sid m = (Inr h, m') \<longleftrightarrow> registry m sid = Some h \<and> m' = m"
  by (auto simp: get_handle_def sbind_Inr_iff mget_Inr slift_Inr ok_or_Inr)

lemmas mop_simps = slift_Inr sbind_Inr_iff on_bpf_Inr on_cgfs_Inr mget_Inr mmodify_Inr get_handle_Inr ok_or_Inr

lemma exec_ids_after_frame:
  "exec_ids_after W h p cap change m = (Inr ids, m') \<Longrightarrow> \<exists>c. m' = m\<lparr>cgfs := c\<rparr>"
proof (cases cap)
  case (Exec path)
  then show "exec_ids_after W h p cap change m = (Inr ids, m') \<Longrightarrow> ?thesis" by (auto simp: exec_ids_after_def mop_simps)
qed (auto simp: exec_ids_after_def intro: exI [of _ "cgfs m"])


lemma read_u64_try:
  "c_try (read_u64 C f) s = (r, s') \<Longrightarrow>
   r = Inr (Option.bind (ck_read C (c_clock s) f) (\<lambda>c. map_option of_nat (parse_uint 64 (trim c)))) \<and>
   c_clock s' = Suc (c_clock s) \<and> c_ops s' = c_ops s @ [CgRead f (ck_read C (c_clock s) f)]"
  by (auto simp: c_try_def read_u64_def sbind_def read_to_string_def slift_def ok_or_def c_tick_def Let_def
      split: option.splits prod.splits sum.splits)

text \<open>The count of processes in the statistics is the one the file had when it was read.\<close>

lemma cgroup_stats_pids:
  assumes "cgroup_stats C cg s = (Inr st, s')" "pids_current st = Some n"
  shows "\<exists>c. CgRead (pjoin (cg_path cg) ''pids.current'') (Some c) \<in> set (c_ops s') \<and> map_option of_nat (parse_uint 64 (trim c)) = Some n"
proof -
  from assms(1) obtain a s1 p s2 c3 s3 where
    r: "c_try (read_u64 C (pjoin (cg_path cg) ''memory.current'')) s = (Inr a, s1)"
      "c_try (read_u64 C (pjoin (cg_path cg) ''pids.current'')) s1 = (Inr p, s2)"
      "c_try (read_to_string C (Io ''cpu.stat'') (pjoin (cg_path cg) ''cpu.stat'')) s2 = (Inr c3, s')" and st: "pids_current st = p"
    by (auto simp: cgroup_stats_def sbind_Inr_iff)
  have rd: "p = Some n" "Option.bind (ck_read C (c_clock s1) (pjoin (cg_path cg) ''pids.current''))
      (\<lambda>c. map_option of_nat (parse_uint 64 (trim c))) = p"
    "c_ops s2 = c_ops s1 @ [CgRead (pjoin (cg_path cg) ''pids.current'') (ck_read C (c_clock s1) (pjoin (cg_path cg) ''pids.current''))]"
    using read_u64_try [OF r(2)] st assms(2) by simp_all
  from rd(2) [unfolded rd(1)] rd(3) obtain c where c: "ck_read C (c_clock s1) (pjoin (cg_path cg) ''pids.current'') = Some c"
    "map_option of_nat (parse_uint 64 (trim c)) = Some n" "CgRead (pjoin (cg_path cg) ''pids.current'') (Some c) \<in> set (c_ops s2)"
    by (auto simp: bind_eq_Some_conv simp del: map_option_eq_Some)
  have "set (c_ops s2) \<subseteq> set (c_ops s')"
    using r(3) by (auto simp: c_try_def read_to_string_def c_tick_def Let_def split: prod.splits sum.splits)
  with c show ?thesis by blast
qed

text \<open>
  C33. A turn is reported clean only when both signals say so. If \<^verbatim>\<open>end_turn\<close> reports a turn as clean, the context in the kernel had its
  dirty flag clear, and \<^verbatim>\<open>pids.current\<close> could be read and had the value it had when the turn began; in every
  other case a returned report is dirty. The turn is closed either way.
\<close>
theorem clean_report_is_clean:
  assumes "end_turn W sid m = (Inr rep, m')" "\<not> tr_dirty rep"
  shows "\<exists>h turn cg ctx c.
    registry m sid = Some h \<and> h_turn h = Some turn \<and> h_cgroup h = Some cg \<and> tr_turn_id rep = ts_id turn \<and>
    lookup_ctx (maps (bpf m)) (cg_id cg) = Some ctx \<and> flags ctx AND FLAG_DIRTY = 0 \<and>
    CgRead (pjoin (cg_path cg) ''pids.current'') (Some c) \<in> set (c_ops (cgfs m')) \<and>
    map_option of_nat (parse_uint 64 (trim c)) = Some (ts_baseline_pids turn) \<and>
    registry m' sid = Some (h\<lparr>h_turn := None\<rparr>)"
proof -
  from assms(1) obtain h turn cg outcome b st c where
    h: "registry m sid = Some h" "h_turn h = Some turn" "h_cgroup h = Some cg" and
    out: "bpf_end_turn (w_kernel W) (cg_id cg) (bpf m) = (Inr outcome, b)" and
    st: "cgroup_stats (w_cgroups W) cg (cgfs m) = (Inr st, c)" and
    rep: "rep = turn_report turn outcome (pids_current st)" and
    m': "cgfs m' = c" "registry m' sid = Some (h\<lparr>h_turn := None\<rparr>)"
    by (auto simp: end_turn_def mop_simps upd_handle_def)
  have clean: "\<not> to_dirty outcome" "pids_current st = Some (ts_baseline_pids turn)"
    using assms(2) by (auto simp: rep turn_report_def Let_def signed_eq_0_iff split: option.splits)
  from out obtain ctx b1 where ctx: "read_ctx (w_kernel W) (cg_id cg) (bpf m) = (Inr ctx, b1)" "to_dirty outcome = (flags ctx AND FLAG_DIRTY \<noteq> 0)"
    by (auto simp: bpf_end_turn_def rbind_Inr_iff split: prod.splits)
  have "lookup_ctx (maps (bpf m)) (cg_id cg) = Some ctx" using read_ctx_Inr [OF ctx(1)] by (auto simp: lookup_ctx_def)
  moreover obtain c0 where "CgRead (pjoin (cg_path cg) ''pids.current'') (Some c0) \<in> set (c_ops c)"
    "map_option of_nat (parse_uint 64 (trim c0)) = Some (ts_baseline_pids turn)"
    using cgroup_stats_pids [OF st clean(2)] by blast
  ultimately show ?thesis using h clean(1) ctx(2) m' by (auto simp: rep turn_report_def Let_def split: option.splits)
qed

text \<open>
  C30. The context outlives the tasks. Destroying a sandbox always takes its handle away and always returns; the context of its cgroup
  is touched only after every task was told to end, the kernel reported the cgroup empty, within 201 polls, and the
  directory was removed. If any of that fails, the context and every rule stay in place.
\<close>
theorem context_outlives_tasks:
  assumes "destroy W sid m = (r, m')" "registry m sid = Some h" "h_cgroup h = Some cg"
  shows "registry m' sid = None \<and>
    (bpf m' \<noteq> bpf m \<or> r = Inr () \<longrightarrow>
       (\<exists>kills polled c.
          c_ops (cgfs m') = c_ops (cgfs m) @ kills @ polled @
            [CgRead (pjoin (cg_path cg) ''cgroup.events'') (Some c), CgRmdir (cg_path cg)] \<and>
          killed_all cg kills \<and> polls (pjoin (cg_path cg) ''cgroup.events'') polled \<and> length polled \<le> 200 \<and> \<not> populated c)) \<and>
    (r = Inr () \<longrightarrow> registered (bpf m') (cg_id cg) = None)"
proof -
  let ?m1 = "m\<lparr>registry := (registry m)(sid := None)\<rparr>"
  obtain r1 c where d: "cgroup_destroy (w_cgroups W) cg (cgfs m) = (r1, c)" by force
  from removed_only_when_empty [OF d] obtain kills ps where ops:
    "c_ops c = c_ops (cgfs m) @ kills @ ps @ (if r1 = Inr () then [CgRmdir (cg_path cg)] else [])"
    "polls (pjoin (cg_path cg) ''cgroup.events'') ps" "length ps \<le> 201"
    "r1 = Inr () \<longrightarrow> killed_all cg kills \<and>
       (\<exists>pre c. ps = pre @ [CgRead (pjoin (cg_path cg) ''cgroup.events'') (Some c)] \<and> \<not> populated c)" by blast
  show ?thesis
  proof (cases r1)
    case (Inl e)
    then show ?thesis using assms d by (auto simp: destroy_def sbind_def mget_def mmodify_def on_cgfs_def)
  next
    case (Inr u)
    with ops obtain pre c0 where p: "ps = pre @ [CgRead (pjoin (cg_path cg) ''cgroup.events'') (Some c0)]" "\<not> populated c0"
      "killed_all cg kills" by auto
    have m': "m' = snd (on_bpf (deregister_sandbox (w_kernel W) (cg_id cg)) (?m1\<lparr>cgfs := c\<rparr>))"
      using assms d Inr by (auto simp: destroy_def sbind_def mget_def mmodify_def on_cgfs_def)
    then have "cgfs m' = c" "registry m' sid = None" "registered (bpf m') (cg_id cg) = None"
      by (simp_all add: on_bpf_def split_def Let_def deregistered)
    moreover have "length pre \<le> 200" "polls (pjoin (cg_path cg) ''cgroup.events'') pre" using ops(2,3) p(1) by (auto simp: polls_def)
    moreover have "c_ops c = c_ops (cgfs m) @ kills @ pre @ [CgRead (pjoin (cg_path cg) ''cgroup.events'') (Some c0), CgRmdir (cg_path cg)]"
      using ops(1) p(1) Inr by simp
    ultimately show ?thesis using p(2,3) by blast
  qed
qed

text \<open>A command can be started on a paused sandbox, and then its context does not enforce, although the tasks of the earlier command are
  only frozen: the guard of \<^verbatim>\<open>exec\<close> refuses a running sandbox, not a paused one.\<close>

theorem paused_exec_drops_enforcement:
  assumes "exec_begin W sid cmd m = (Inr x, m')" "registry m sid = Some h" "h_state h = Paused"
  shows "\<exists>cg ctx. h_cgroup h = Some cg \<and> lookup_ctx (maps (bpf m')) (cg_id cg) = Some ctx \<and> flags ctx AND FLAG_ENFORCING = 0"
proof -
  from assms obtain cg b where cg: "h_cgroup h = Some cg" and b: "begin_setup (w_kernel W) (cg_id cg) (bpf m) = (Inr (), b)" and m': "bpf m' = b"
    by (auto simp: exec_begin_def resolve_policy_locked_def mop_simps upd_handle_def split: if_splits option.splits)
  from b obtain ctx b1 where "write_ctx (w_kernel W) (cg_id cg) (ctx\<lparr>flags := flags ctx AND NOT FLAG_ENFORCING\<rparr>) ''reset to setup state'' b1 = (Inr (), b)"
    by (auto simp: begin_setup_def split: if_splits prod.splits sum.splits)
  from write_ctx_state(4) [OF this] have "lookup_ctx (maps b) (cg_id cg) = Some (ctx\<lparr>flags := flags ctx AND NOT FLAG_ENFORCING\<rparr>)"
    by (simp add: lookup_ctx_def ctx_from_to_bytes)
  moreover have "(flags ctx AND NOT FLAG_ENFORCING) AND FLAG_ENFORCING = 0" by (simp add: and.assoc)
  ultimately show ?thesis using cg m' by auto
qed

section \<open>A concrete history\<close>

definition witness_world :: "bit_trie world" where
  "witness_world = \<lparr>w_kernel = sample_kernel, w_host = sample_host, w_cgroups = witness_cgroup_kernel, w_landlock_abi = 1,
     w_mountinfo = (\<lambda>_. None), w_mkdir = (\<lambda>_. True), w_attach = (\<lambda>_. Inr ()), w_dup = (\<lambda>_. True)\<rparr>"

definition witness_spec :: SandboxSpec where
  "witness_spec = \<lparr>spec_id = 0, template = ''base'', limits = ResourceLimits_default\<lparr>swap_max := None\<rparr>, workspace = Tmpfs 0, env = [],
     spec_timeout = None, policy_name = Some ''p''\<rparr>"

definition witness_cg :: Cgroup where
  "witness_cg = \<lparr>cg_path = ''/sys/fs/cgroup/aivisor/s'', cg_id = 2\<rparr>"

definition witness_m0 :: "bit_trie Manager" where
  "witness_m0 = mgr_new empty_maps \<lparr>c_clock = 0, c_millis = 0, c_ops = []\<rparr>"

definition witness_m1 :: "bit_trie Manager" where
  "witness_m1 = run_call witness_world (Create ''s'' witness_spec) witness_m0"

lemma witness_m1_run: "manager_run witness_world witness_m1"
  unfolding witness_m1_def witness_m0_def by (intro manager_run.intros)

lemma witness_register: "fst (register_sandbox sample_kernel 2 (manager_new empty_maps)) = Inr ()"
  by (simp add: register_sandbox_def write_ctx_def map_update_def manager_new_def trie_kernel_def Let_def)

lemma witness_cgroup_create:
  "\<exists>c. cgroup_create witness_cgroup_kernel CGROUP_ROOT ''s'' x = (Inr witness_cg, c) \<and> c_clock x + 2 \<le> c_clock c"
  by (simp add: cgroup_create_def delegate_controllers_def Let_def sbind_def c_access_def c_query_def c_try_def c_tick_def write_file_def
      read_cgroup_id_def slift_def ok_or_def sreturn_def witness_cgroup_kernel_def witness_cg_def pjoin_def CGROUP_ROOT_def)

lemma witness_destroys:
  assumes "2 \<le> c_clock s"
  shows "\<exists>c. cgroup_destroy witness_cgroup_kernel cg s = (Inr (), c)"
proof -
  have np: "\<not> populated ''populated 0''"
    by (simp add: populated_def str_lines_def strip_cr_def starts_with_def ends_with_def char_lf_def char_cr_def)
  show ?thesis
    using assms np by (simp add: cgroup_destroy_def kill_all_def sbind_def c_query_def write_file_def c_access_def c_tick_def
        witness_cgroup_kernel_def wait_for_empty.simps read_to_string_def ok_or_def)
qed

lemma witness_created:
  obtains rootfs c b where "witness_m1 = witness_m0\<lparr>registry := [''s'' \<mapsto> new_handle witness_spec witness_cg rootfs], bpf := b, cgfs := c\<rparr>"
    "register_sandbox sample_kernel 2 (manager_new empty_maps) = (Inr (), b)" "2 \<le> c_clock c"
proof -
  obtain b where reg: "register_sandbox sample_kernel 2 (manager_new empty_maps) = (Inr (), b)"
    using witness_register by (metis prod.collapse)
  obtain c where c: "cgroup_create witness_cgroup_kernel CGROUP_ROOT ''s'' \<lparr>c_clock = 0, c_millis = 0, c_ops = []\<rparr> = (Inr witness_cg, c)"
    "2 \<le> c_clock c"
    using witness_cgroup_create [of "\<lparr>c_clock = 0, c_millis = 0, c_ops = []\<rparr>"] by auto
  obtain rootfs where r: "rootfs_prepare (\<lambda>_. True) (pjoin TEMPLATES_DIR (template witness_spec)) ''s'' = Inr rootfs"
    by (auto simp: rootfs_prepare_def Let_def)
  have lim: "limit_writes (limits witness_spec) = []"
    by (simp add: limit_writes_def memory_high_of_def witness_spec_def ResourceLimits_default_def)
  have "witness_m1 = witness_m0\<lparr>registry := [''s'' \<mapsto> new_handle witness_spec witness_cg rootfs], bpf := b, cgfs := c\<rparr>"
    unfolding witness_m1_def run_call.simps create_def witness_m0_def
    by (simp add: sbind_def on_cgfs_def on_bpf_def witness_world_def c r apply_limits_def lim mgr_new_def sreturn_def mmodify_def
        witness_cg_def reg)
  with that reg c(2) show ?thesis by simp
qed

lemma witness_handle: "\<exists>h. registry witness_m1 ''s'' = Some h \<and> h_cgroup h = Some witness_cg"
proof -
  obtain rootfs c b where m1: "witness_m1 = witness_m0\<lparr>registry := [''s'' \<mapsto> new_handle witness_spec witness_cg rootfs], bpf := b, cgfs := c\<rparr>"
    by (rule witness_created)
  show ?thesis unfolding m1 by (simp add: new_handle_def)
qed

theorem live_sandbox_has_context_witness:
  "\<exists>h cg ctx. registry witness_m1 ''s'' = Some h \<and> h_cgroup h = Some cg \<and> lookup_ctx (maps (bpf witness_m1)) (cg_id cg) = Some ctx"
proof -
  obtain h where h: "registry witness_m1 ''s'' = Some h" using witness_handle by blast
  have "lpm_trie (w_kernel witness_world) bt_get" by (simp add: witness_world_def trie_kernel_lpm)
  from live_sandbox_has_context [OF this witness_m1_run h] h show ?thesis by blast
qed

theorem context_outlives_tasks_witness:
  "registry (snd (destroy witness_world ''s'' witness_m1)) ''s'' = None \<and>
   registered (bpf (snd (destroy witness_world ''s'' witness_m1))) 2 = None"
proof -
  obtain h where h: "registry witness_m1 ''s'' = Some h" "h_cgroup h = Some witness_cg"
    using witness_handle by blast
  have "fst (destroy witness_world ''s'' witness_m1) = Inr ()"
  proof -
    obtain rootfs c b where m1: "witness_m1 = witness_m0\<lparr>registry := [''s'' \<mapsto> new_handle witness_spec witness_cg rootfs], bpf := b, cgfs := c\<rparr>"
      "register_sandbox sample_kernel 2 (manager_new empty_maps) = (Inr (), b)" "2 \<le> c_clock c" by (rule witness_created)
    obtain c' where d: "cgroup_destroy witness_cgroup_kernel witness_cg c = (Inr (), c')" using witness_destroys [OF m1(3)] by blast
    have "fst (deregister_sandbox sample_kernel 2 b) = Inr ()"
      using m1(2) by (auto simp: register_sandbox_def write_ctx_def map_update_def manager_new_def deregister_sandbox_def delete_rule_range_def
          delete_net_keys_def map_delete_def trie_kernel_def Let_def)
    moreover have "destroy witness_world ''s'' witness_m1 =
        on_bpf (deregister_sandbox sample_kernel 2) (witness_m1\<lparr>registry := (registry witness_m1)(''s'' := None), cgfs := c'\<rparr>)"
      unfolding destroy_def m1(1)
      by (simp add: sbind_def mget_def mmodify_def new_handle_def on_cgfs_def witness_world_def d) (simp add: witness_cg_def)
    moreover have "bpf witness_m1 = b" unfolding m1(1) by simp
    ultimately show ?thesis by (simp add: on_bpf_def split_def Let_def)
  qed
  then have d: "destroy witness_world ''s'' witness_m1 = (Inr (), snd (destroy witness_world ''s'' witness_m1))" by (simp add: prod_eq_iff)
  from context_outlives_tasks [OF d h] show ?thesis by (simp add: witness_cg_def)
qed

text \<open>Policies without file system rules install on this kernel.\<close>

lemma sample_update_succeeds:
  assumes "system_run sample_kernel sample_host b" "registered b 2 = Some st" "bp_fs_rules plan = []"
    "resolve_net_rules 2 (bp_net_rules plan) = Inr net"
  shows "\<exists>b'. update_policy sample_kernel sample_host 2 plan (Resolved []) b = (Inr (), b')"
proof -
  have "fst (install_policy sample_kernel 2 [] [] net b) = Inr ()"
    by (rule bt.install_policy_succeeds [OF _ bt.system_run_inv [OF assms(1)] assms(2)])
       (use resolve_net_rules_keys [OF assms(4)] in \<open>simp_all add: trie_kernel_def\<close>)
  then have "fst (update_policy sample_kernel sample_host 2 plan (Resolved []) b) = Inr ()"
    using assms(3,4) by (simp add: update_policy_def check_rule_count_def MAX_RULES_PER_SANDBOX_def exec_entries_of_def)
  then show ?thesis by (metis prod.collapse)
qed

lemma sample_read_ctx:
  assumes "system_run sample_kernel sample_host b" "registered b 2 = Some st"
  shows "\<exists>ctx b'. read_ctx sample_kernel 2 b = (Inr ctx, b')"
proof -
  from mgr_inv_sandbox [OF bt.system_run_inv [OF assms(1)] assms(2)] obtain ctx where
    "hmaps (maps b) Sandboxes (cg_key 2) = Some (ctx_to_bytes ctx)" by (auto simp: sandbox_inv_def)
  then show ?thesis by (simp add: read_ctx_def map_lookup_def trie_kernel_def ok_or_def ctx_from_to_bytes)
qed

definition witness_policy :: Policy where
  "witness_policy = default_policy\<lparr>filesystem := None\<rparr>"

definition witness_snapshot :: "Rootfs \<Rightarrow> launch_snapshot" where
  "witness_snapshot r = \<lparr>ls_spec = witness_spec, ls_rootfs = r, ls_policy = witness_policy, ls_cgid = 2,
     ls_launch = build_launch_policy 1 witness_policy ''/bin/ls''\<rparr>"

definition witness_m2 :: "bit_trie Manager" where
  "witness_m2 = run_call witness_world (ExecRecord ''s'' (witness_snapshot witness_rootfs) []) witness_m1"

lemma witness_bpf: "system_run sample_kernel sample_host (bpf witness_m1)" "\<exists>st. registered (bpf witness_m1) 2 = Some st"
proof -
  have inv: "run_inv witness_world witness_m1" by (rule manager_run_inv [OF witness_m1_run])
  then show "system_run sample_kernel sample_host (bpf witness_m1)" by (simp add: run_inv_def witness_world_def)
  obtain h where h: "registry witness_m1 ''s'' = Some h" "h_cgroup h = Some witness_cg" using witness_handle by blast
  have "handles_ok witness_m1" using inv by (simp add: run_inv_def)
  from handles_okD(1) [OF this h(1)] h(2) show "\<exists>st. registered (bpf witness_m1) 2 = Some st" by (auto simp: witness_cg_def)
qed

lemma witness_recorded:
  "bpf witness_m2 = bpf witness_m1" "\<exists>h. registry witness_m2 ''s'' = Some h \<and> h_cgroup h = Some witness_cg \<and>
     h_effective_policy h = Some witness_policy \<and> h_exec_ids h = []"
  using witness_handle
  by (auto simp: witness_m2_def exec_record_def mmodify_def upd_handle_def witness_snapshot_def)


definition witness_turn_world :: "bit_trie world" where
  "witness_turn_world = witness_world\<lparr>w_cgroups := witness_cgroup_kernel\<lparr>ck_read := (\<lambda>_ _. Some ''3'')\<rparr>\<rparr>"

definition witness_m3 :: "bit_trie Manager" where
  "witness_m3 = upd_handle ''s'' (\<lambda>h. h\<lparr>h_turn := Some \<lparr>ts_id = 1, ts_label = ''t'', ts_baseline_pids = 3\<rparr>\<rparr>) witness_m1"

lemma witness_turn_outcome: "\<exists>b. bpf_end_turn sample_kernel 2 (bpf witness_m1) = (Inr \<lparr>to_turn_id = 0, to_dirty = False\<rparr>, b)"
proof -
  obtain rootfs c b where m1: "witness_m1 = witness_m0\<lparr>registry := [''s'' \<mapsto> new_handle witness_spec witness_cg rootfs], bpf := b, cgfs := c\<rparr>"
    "register_sandbox sample_kernel 2 (manager_new empty_maps) = (Inr (), b)" by (rule witness_created)
  have "hmaps (maps b) Sandboxes (cg_key 2) = Some (ctx_to_bytes registered_for_setup)"
    using m1(2) by (auto simp: register_sandbox_def write_ctx_def map_update_def manager_new_def trie_kernel_def Let_def)
  moreover have "bpf witness_m1 = b" unfolding m1(1) by simp
  ultimately show ?thesis
    by (simp add: bpf_end_turn_def read_ctx_def map_lookup_def trie_kernel_def Let_def ok_or_def ctx_from_to_bytes rbind_def
        registered_for_setup_def deny_all_def)
qed

theorem clean_report_is_clean_witness:
  "\<exists>rep m'. end_turn witness_turn_world ''s'' witness_m3 = (Inr rep, m') \<and> \<not> tr_dirty rep \<and> tr_turn_id rep = 1"
proof -
  obtain h where h: "registry witness_m1 ''s'' = Some h" "h_cgroup h = Some witness_cg" using witness_handle by blast
  obtain b where b: "bpf_end_turn sample_kernel 2 (bpf witness_m1) = (Inr \<lparr>to_turn_id = 0, to_dirty = False\<rparr>, b)" using witness_turn_outcome by blast
  have p: "parse_uint 64 (trim ''3'') = Some 3" by (simp add: parse_uint_def from_str_radix_def to_digit_def trim_def is_ws_def)
  have "\<exists>rep m'. end_turn witness_turn_world ''s'' witness_m3 = (Inr rep, m') \<and> \<not> tr_dirty rep"
    using h b p by (simp add: end_turn_def sbind_def get_handle_def mget_def witness_m3_def upd_handle_def slift_def ok_or_def mmodify_def on_bpf_def
        witness_turn_world_def witness_world_def witness_cg_def on_cgfs_def cgroup_stats_def c_try_def read_u64_def read_to_string_def
        c_tick_def Let_def sreturn_def turn_report_def)
  then obtain rep m' where e: "end_turn witness_turn_world ''s'' witness_m3 = (Inr rep, m')" "\<not> tr_dirty rep" by blast
  from clean_report_is_clean [OF e] e show ?thesis
    by (auto simp: witness_m3_def upd_handle_def h)
qed

end
