(* ===== verification/Bpf_Loader.thy ===== *)
theory Bpf_Loader
  imports Core
begin

text \<open>
  Loading the kernel hooks (\<^verbatim>\<open>aivisor-bpf/src/loader.rs\<close>), opening the pinned maps (\<^verbatim>\<open>BpfMaps\<close> of
  \<^verbatim>\<open>aivisor-bpf/src/maps.rs\<close>) and the process-wide handle to both (\<^verbatim>\<open>aivisor-runtime/src/bpf.rs\<close>).
  The library \<^verbatim>\<open>libbpf\<close> and the system calls behind it are parameters; the locale \<open>libbpf_api\<close> states what the code relies
  on. The result is that all five objects and the policy manager work on the same maps, and that a sandbox has both of its egress
  hooks or none.
\<close>

section \<open>The library and the kernel's state\<close>

datatype ProgramType = CgroupSockAddr | OtherType

datatype attach_type = CGROUP_INET4_CONNECT | CGROUP_INET6_CONNECT

text \<open>An object file as opened, and as loaded: the kernel has given its maps and programs their ids.\<close>

record open_object =
  oo_maps :: "string list"
  oo_progs :: "(string \<times> ProgramType) list"

record Object =
  obj_maps :: "(string \<times> u32) list"
  obj_progs :: "(string \<times> ProgramType \<times> u32) list"

text \<open>What the kernel holds: the pins of the BPF file system, how often each program is linked to its LSM hook, and the program
  each cgroup has for each attach type.\<close>

record bpf_state =
  pins :: "string \<Rightarrow> u32 option"
  lsm_count :: "u32 \<Rightarrow> nat"
  attached :: "u64 \<Rightarrow> attach_type \<Rightarrow> u32 option"

record libbpf =
  object_dir :: "string option"
  create_pin_dir :: bool
  open_file :: "string \<Rightarrow> open_object option"
  set_pin_path :: "string \<Rightarrow> bool"
  load_object :: "open_object \<Rightarrow> (string \<Rightarrow> string option) \<Rightarrow> bpf_state \<Rightarrow> Object option \<times> bpf_state"
  remove_file :: "string \<Rightarrow> bpf_state \<Rightarrow> bool \<times> bpf_state"
  prog_pin :: "u32 \<Rightarrow> string \<Rightarrow> bpf_state \<Rightarrow> bool \<times> bpf_state"
  prog_attach :: "u32 \<Rightarrow> bpf_state \<Rightarrow> bool \<times> bpf_state"
  drop_link :: "u32 \<Rightarrow> bpf_state \<Rightarrow> bpf_state"
  from_pinned_path :: "string \<Rightarrow> bpf_state \<Rightarrow> u32 option"
  map_info_ok :: "u32 \<Rightarrow> bool"
  dup_fd :: "u64 \<Rightarrow> bool"
  bpf_prog_attach :: "u32 \<Rightarrow> u64 \<Rightarrow> attach_type \<Rightarrow> bpf_state \<Rightarrow> bool \<times> bpf_state"
  bpf_prog_detach2 :: "u32 \<Rightarrow> u64 \<Rightarrow> attach_type \<Rightarrow> bpf_state \<Rightarrow> bpf_state"

section \<open>Loading\<close>

definition PIN_DIR :: string where "PIN_DIR = ''/sys/fs/bpf/aivisor''"

definition pin_path :: "string \<Rightarrow> string" where "pin_path name = PIN_DIR @ ''/'' @ name"

definition OBJECTS :: "string list" where
  "OBJECTS = [''fs'', ''exec'', ''net'', ''priv'', ''task'']"

definition SHARED_MAPS :: "string list" where
  "SHARED_MAPS = [''sandboxes'', ''fs_rules'', ''exec_rules'', ''net_rules'', ''events'', ''scratch'']"

record LoadedPrograms =
  objects :: "Object list"
  lsm_links :: "u32 list"
  cgroup_progs :: "(string \<times> string) list"

definition compiled_object_dir :: "libbpf \<Rightarrow> error + string" where
  "compiled_object_dir L = ok_or (LaunchFailed ''AIVISOR_BPF_OUT_DIR not set at compile time'') (object_dir L)"

text \<open>The pin path given to a map before the load.\<close>

definition shared_pin :: "string \<Rightarrow> string option" where
  "shared_pin name = (if name \<in> set SHARED_MAPS then Some (pin_path name) else None)"

definition set_pin_paths :: "libbpf \<Rightarrow> open_object \<Rightarrow> bool" where
  "set_pin_paths L ob = list_all (\<lambda>n. case shared_pin n of None \<Rightarrow> True | Some p \<Rightarrow> set_pin_path L p) (oo_maps ob)"

type_synonym load_state = "LoadedPrograms \<times> bpf_state"

text \<open>One program of an object: a cgroup program is pinned, replacing a stale pin; any other is attached.\<close>

definition load_prog :: "libbpf \<Rightarrow> string \<Rightarrow> string \<times> ProgramType \<times> u32 \<Rightarrow> load_state \<Rightarrow> (error + unit) \<times> load_state" where
  "load_prog L oname p st =
     (case (p, st) of ((pname, ty, i), (acc, s)) \<Rightarrow>
       (case ty of
          CgroupSockAddr \<Rightarrow>
            (let (ok, s) = (if pins s (pin_path pname) \<noteq> None then remove_file L (pin_path pname) s else (True, s))
             in if \<not> ok then (Inl (LaunchFailed ''remove stale program pin''), (acc, s))
                else let (ok, s) = prog_pin L i (pin_path pname) s
                     in if \<not> ok then (Inl (LaunchFailed ''pin program''), (acc, s))
                        else (Inr (), (acc\<lparr>cgroup_progs := cgroup_progs acc @ [(oname, pname)]\<rparr>, s)))
        | OtherType \<Rightarrow>
            (let (ok, s) = prog_attach L i s
             in if \<not> ok then (Inl (LaunchFailed ''attach''), (acc, s))
                else (Inr (), (acc\<lparr>lsm_links := lsm_links acc @ [i]\<rparr>, s)))))"

definition load_one :: "libbpf \<Rightarrow> string \<Rightarrow> string \<Rightarrow> load_state \<Rightarrow> (error + unit) \<times> load_state" where
  "load_one L obj_dir name st =
     (case st of (acc, s) \<Rightarrow>
       (case open_file L (obj_dir @ ''/'' @ name @ ''.bpf.o'') of
          None \<Rightarrow> (Inl (LaunchFailed ''open BPF object''), (acc, s))
        | Some ob \<Rightarrow>
            if \<not> set_pin_paths L ob then (Inl (LaunchFailed ''set pin path''), (acc, s))
            else (case load_object L ob shared_pin s of
                    (None, s) \<Rightarrow> (Inl (LaunchFailed ''load BPF object''), (acc, s))
                  | (Some obj, s) \<Rightarrow>
                      sbind (siter (load_prog L name) (obj_progs obj))
                        (\<lambda>_ (acc, s). (Inr (), (acc\<lparr>objects := objects acc @ [obj]\<rparr>, s))) (acc, s))))"

text \<open>On an error the collected links go out of scope and are dropped, which detaches their programs.\<close>

definition load_and_attach :: "libbpf \<Rightarrow> bpf_state \<Rightarrow> (error + LoadedPrograms) \<times> bpf_state" where
  "load_and_attach L s =
     (case compiled_object_dir L of
        Inl e \<Rightarrow> (Inl e, s)
      | Inr obj_dir \<Rightarrow>
          if \<not> create_pin_dir L then (Inl (LaunchFailed ''mkdir /sys/fs/bpf/aivisor''), s)
          else (case siter (load_one L obj_dir) OBJECTS (\<lparr>objects = [], lsm_links = [], cgroup_progs = []\<rparr>, s) of
                  (Inl e, (acc, s)) \<Rightarrow> (Inl e, fold (drop_link L) (lsm_links acc) s)
                | (Inr _, (acc, s)) \<Rightarrow> (Inr acc, s)))"

definition pending_cgroup_programs :: "LoadedPrograms \<Rightarrow> (string \<times> string) list" where
  "pending_cgroup_programs P = cgroup_progs P"

definition map_ids :: "libbpf \<Rightarrow> LoadedPrograms \<Rightarrow> string \<Rightarrow> error + u32 list" where
  "map_ids L P name =
     traverse (\<lambda>(_, i). if map_info_ok L i then Inr i else Inl (LaunchFailed ''map info''))
       (filter (\<lambda>(n, _). n = name) (concat (map obj_maps (objects P))))"

section \<open>Opening the maps\<close>

record BpfMaps =
  bm_sandboxes :: u32
  bm_fs_rules :: u32
  bm_exec_rules :: u32
  bm_net_rules :: u32

definition open_pinned :: "libbpf \<Rightarrow> bpf_state \<Rightarrow> error + BpfMaps" where
  "open_pinned L s =
     (let op = (\<lambda>name. ok_or (LaunchFailed ''open pinned BPF map'') (from_pinned_path L (pin_path name) s))
      in rbind (op ''sandboxes'') (\<lambda>a. rbind (op ''fs_rules'') (\<lambda>b. rbind (op ''exec_rules'') (\<lambda>c. rbind (op ''net_rules'') (\<lambda>d.
           Inr \<lparr>bm_sandboxes = a, bm_fs_rules = b, bm_exec_rules = c, bm_net_rules = d\<rparr>)))))"

text \<open>The state of the process: the cell that is initialised once, the loaded programs, which are kept for the life of the
  process, and the kernel.\<close>

record process =
  once :: "(error + BpfMaps) option"
  programs :: "LoadedPrograms option"
  kstate :: bpf_state

definition init_enforcement :: "libbpf \<Rightarrow> process \<Rightarrow> (error + BpfMaps) \<times> process" where
  "init_enforcement L p =
     (case load_and_attach L (kstate p) of
        (Inl e, s) \<Rightarrow> (Inl e, p\<lparr>kstate := s\<rparr>)
      | (Inr P, s) \<Rightarrow> (open_pinned L s, p\<lparr>programs := Some P, kstate := s\<rparr>))"

definition enforcement :: "libbpf \<Rightarrow> process \<Rightarrow> (error + BpfMaps) \<times> process" where
  "enforcement L p =
     (let (r, p) = (case once p of
            Some r \<Rightarrow> (r, p)
          | None \<Rightarrow> (let (r, p) = init_enforcement L p in (r, p\<lparr>once := Some r\<rparr>)))
      in (case r of Inl _ \<Rightarrow> Inl (LaunchFailed ''BPF LSM enforcement unavailable'') | Inr m \<Rightarrow> Inr m, p))"

section \<open>The hooks of one sandbox\<close>

record CgroupProgAttachment =
  at_prog :: u32
  at_cgroup :: u64
  at_type :: attach_type

definition CGROUP_HOOKS :: "(string \<times> attach_type) list" where
  "CGROUP_HOOKS = [(''aivisor_cgroup_connect4'', CGROUP_INET4_CONNECT), (''aivisor_cgroup_connect6'', CGROUP_INET6_CONNECT)]"

definition attach_cgroup_program ::
    "libbpf \<Rightarrow> string \<Rightarrow> u64 \<Rightarrow> attach_type \<Rightarrow> bpf_state \<Rightarrow> (error + CgroupProgAttachment) \<times> bpf_state" where
  "attach_cgroup_program L name cg ty s =
     (case from_pinned_path L (pin_path name) s of
        None \<Rightarrow> (Inl (LaunchFailed ''open pinned program''), s)
      | Some i \<Rightarrow>
          if \<not> dup_fd L cg then (Inl (LaunchFailed ''dup cgroup fd''), s)
          else let (ok, s) = bpf_prog_attach L i cg ty s
               in if \<not> ok then (Inl (LaunchFailed ''bpf_prog_attach''), s)
                  else (Inr \<lparr>at_prog = i, at_cgroup = cg, at_type = ty\<rparr>, s))"

definition drop_attachment :: "libbpf \<Rightarrow> CgroupProgAttachment \<Rightarrow> bpf_state \<Rightarrow> bpf_state" where
  "drop_attachment L a = bpf_prog_detach2 L (at_prog a) (at_cgroup a) (at_type a)"

fun attach_loop ::
    "libbpf \<Rightarrow> u64 \<Rightarrow> (string \<times> attach_type) list \<Rightarrow> CgroupProgAttachment list \<Rightarrow> bpf_state
       \<Rightarrow> (error + CgroupProgAttachment list) \<times> bpf_state" where
  "attach_loop L cg [] acc s = (Inr acc, s)"
| "attach_loop L cg ((name, ty) # hs) acc s =
     (case attach_cgroup_program L name cg ty s of
        (Inl e, s) \<Rightarrow> (Inl e, fold (drop_attachment L) acc s)
      | (Inr a, s) \<Rightarrow> attach_loop L cg hs (acc @ [a]) s)"

definition attach_cgroup_hooks :: "libbpf \<Rightarrow> u64 \<Rightarrow> bpf_state \<Rightarrow> (error + CgroupProgAttachment list) \<times> bpf_state" where
  "attach_cgroup_hooks L cg = attach_loop L cg CGROUP_HOOKS []"

section \<open>Every program is attached\<close>

definition all_linked :: "LoadedPrograms \<Rightarrow> bool" where
  "all_linked acc \<longleftrightarrow> (\<forall>obj\<in>set (objects acc). \<forall>n i. (n, OtherType, i) \<in> set (obj_progs obj) \<longrightarrow> i \<in> set (lsm_links acc))"

lemma load_prog_links:
  assumes "load_prog L oname p st = (Inr u, st')"
  shows "objects (fst st') = objects (fst st) \<and> set (lsm_links (fst st)) \<subseteq> set (lsm_links (fst st')) \<and>
    (fst (snd p) = OtherType \<longrightarrow> snd (snd p) \<in> set (lsm_links (fst st')))"
  using assms by (cases p; cases st) (auto simp: load_prog_def Let_def split: ProgramType.splits if_splits prod.splits)

lemma load_progs_links:
  "siter (load_prog L oname) ps st = (Inr u, st') \<Longrightarrow>
     objects (fst st') = objects (fst st) \<and> set (lsm_links (fst st)) \<subseteq> set (lsm_links (fst st')) \<and>
     (\<forall>p\<in>set ps. fst (snd p) = OtherType \<longrightarrow> snd (snd p) \<in> set (lsm_links (fst st')))"
proof (induction ps arbitrary: st)
  case (Cons p ps)
  then obtain u1 st1 where 1: "load_prog L oname p st = (Inr u1, st1)" "siter (load_prog L oname) ps st1 = (Inr u, st')"
    by (auto simp: sbind_Inr_iff)
  show ?case using load_prog_links [OF 1(1)] Cons.IH [OF 1(2)] by auto
qed simp

lemma load_one_links:
  assumes "load_one L d name st = (Inr u, st')" "all_linked (fst st)"
  shows "length (objects (fst st')) = Suc (length (objects (fst st))) \<and> all_linked (fst st')"
proof -
  obtain acc s where st: "st = (acc, s)" by force
  with assms(1) obtain obj s1 acc2 s2 where l:
    "siter (load_prog L name) (obj_progs obj) (acc, s1) = (Inr (), (acc2, s2))" "st' = (acc2\<lparr>objects := objects acc2 @ [obj]\<rparr>, s2)"
    by (auto simp: load_one_def sbind_Inr_iff split: option.splits prod.splits if_splits)
  show ?thesis using load_progs_links [OF l(1)] l(2) st assms(2) by (fastforce simp: all_linked_def)
qed

lemma load_all_links:
  "siter (load_one L d) names st = (Inr u, st') \<Longrightarrow> all_linked (fst st) \<Longrightarrow>
     length (objects (fst st')) = length (objects (fst st)) + length names \<and> all_linked (fst st')"
proof (induction names arbitrary: st)
  case (Cons n names)
  then obtain u1 st1 where "load_one L d n st = (Inr u1, st1)" "siter (load_one L d) names st1 = (Inr u, st')"
    by (auto simp: sbind_Inr_iff)
  then show ?case using load_one_links [of L d n st u1 st1] Cons by simp
qed simp

lemma load_and_attach_links:
  assumes "load_and_attach L s = (Inr P, s')"
  shows "length (objects P) = length OBJECTS \<and> all_linked P"
proof -
  have "all_linked \<lparr>objects = [], lsm_links = [], cgroup_progs = []\<rparr>" by (simp add: all_linked_def)
  then show ?thesis using assms
    by (auto simp: load_and_attach_def split: sum.splits prod.splits if_splits dest!: load_all_links)
qed

section \<open>What the library promises\<close>

text \<open>
  A map with a pin path is reused from the pin when there is one and pinned there otherwise; a load disturbs no pin. A program is
  pinned under the given path. Linking and dropping a link count; attaching to a cgroup sets the program for that cgroup
  and type, or changes nothing; detaching clears it. The cgroup programs of the objects have names of their own.
\<close>

locale libbpf_api =
  fixes L :: libbpf
  assumes load_names: "load_object L ob pp s = (Some obj, s') \<Longrightarrow>
        map fst (obj_maps obj) = oo_maps ob \<and> map (\<lambda>(n, ty, _). (n, ty)) (obj_progs obj) = oo_progs ob"
    and load_pins: "load_object L ob pp s = (Some obj, s') \<Longrightarrow> (n, i) \<in> set (obj_maps obj) \<Longrightarrow> pp n = Some p \<Longrightarrow> pins s' p = Some i"
    and load_frame: "load_object L ob pp s = (r, s') \<Longrightarrow> (pins s p = Some i \<longrightarrow> pins s' p = Some i) \<and> lsm_count s' = lsm_count s"
    and remove_frame: "remove_file L p s = (ok, s') \<Longrightarrow> lsm_count s' = lsm_count s \<and> (q \<noteq> p \<longrightarrow> pins s' q = pins s q)"
    and pin_frame: "prog_pin L i p s = (ok, s') \<Longrightarrow> lsm_count s' = lsm_count s \<and> (q \<noteq> p \<longrightarrow> pins s' q = pins s q)"
    and link: "prog_attach L i s = (ok, s') \<Longrightarrow>
        pins s' = pins s \<and> lsm_count s' = (if ok then (lsm_count s)(i := lsm_count s i + 1) else lsm_count s)"
    and unlink: "lsm_count (drop_link L i s) = (lsm_count s)(i := lsm_count s i - 1)"
    and pinned: "from_pinned_path L p s = Some i \<Longrightarrow> pins s p = Some i"
    and cg_attach: "bpf_prog_attach L i cg ty s = (ok, s') \<Longrightarrow>
        pins s' = pins s \<and> attached s' = (if ok then (attached s)(cg := (attached s cg)(ty \<mapsto> i)) else attached s)"
    and cg_detach: "attached (bpf_prog_detach2 L i cg ty s) = (attached s)(cg := (attached s cg)(ty := None))"
    and prog_names: "open_file L f = Some ob \<Longrightarrow> (n, CgroupSockAddr) \<in> set (oo_progs ob) \<Longrightarrow> n \<notin> set SHARED_MAPS"
begin

lemma pin_path_inj [simp]: "pin_path a = pin_path b \<longleftrightarrow> a = b"
  by (simp add: pin_path_def)

text \<open>A shared map keeps its pin.\<close>

definition keeps_pins :: "bpf_state \<Rightarrow> bpf_state \<Rightarrow> bool" where
  "keeps_pins s s' \<longleftrightarrow> (\<forall>n\<in>set SHARED_MAPS. \<forall>i. pins s (pin_path n) = Some i \<longrightarrow> pins s' (pin_path n) = Some i)"

text \<open>The maps of an object are the pinned ones.\<close>

definition shares :: "bpf_state \<Rightarrow> Object \<Rightarrow> bool" where
  "shares s obj \<longleftrightarrow> (\<forall>(n, i)\<in>set (obj_maps obj). n \<in> set SHARED_MAPS \<longrightarrow> pins s (pin_path n) = Some i)"

text \<open>The links made since \<open>s0\<close> are the ones collected.\<close>

definition linked :: "bpf_state \<Rightarrow> LoadedPrograms \<Rightarrow> bpf_state \<Rightarrow> bool" where
  "linked s0 acc s \<longleftrightarrow> (\<forall>i. lsm_count s i = lsm_count s0 i + count_list (lsm_links acc) i)"

lemma keeps_pins_refl [simp]: "keeps_pins s s"
  by (simp add: keeps_pins_def)

lemma keeps_pins_trans: "keeps_pins s s' \<Longrightarrow> keeps_pins s' s'' \<Longrightarrow> keeps_pins s s''"
  by (simp add: keeps_pins_def)

lemma shares_mono: "shares s obj \<Longrightarrow> keeps_pins s s' \<Longrightarrow> shares s' obj"
  by (fastforce simp: shares_def keeps_pins_def)

lemma keeps_pins_other:
  "n \<notin> set SHARED_MAPS \<Longrightarrow> (\<And>q. q \<noteq> pin_path n \<Longrightarrow> pins s' q = pins s q) \<Longrightarrow> keeps_pins s s'"
  unfolding keeps_pins_def by (metis pin_path_inj)

lemma load_prog_effect:
  assumes "load_prog L oname (n, ty, i) (acc, s) = (r, (acc', s'))" "ty = CgroupSockAddr \<longrightarrow> n \<notin> set SHARED_MAPS"
  shows "keeps_pins s s' \<and> objects acc' = objects acc \<and> (linked s0 acc s \<longrightarrow> linked s0 acc' s')"
proof (cases ty)
  case OtherType
  obtain ok s1 where a: "prog_attach L i s = (ok, s1)" by force
  then show ?thesis using assms(1) OtherType link [OF a]
    by (auto simp: load_prog_def keeps_pins_def linked_def split: if_splits)
next
  case CgroupSockAddr
  obtain ok s1 where 1: "(if pins s (pin_path n) \<noteq> None then remove_file L (pin_path n) s else (True, s)) = (ok, s1)" by force
  obtain ok2 s2 where 2: "prog_pin L i (pin_path n) s1 = (ok2, s2)" by force
  have f1: "lsm_count s1 = lsm_count s" "\<And>q. q \<noteq> pin_path n \<Longrightarrow> pins s1 q = pins s q"
    using 1 remove_frame [of "pin_path n" s ok s1] by (auto split: if_splits)
  have f2: "lsm_count s2 = lsm_count s1" "\<And>q. q \<noteq> pin_path n \<Longrightarrow> pins s2 q = pins s1 q" using pin_frame [OF 2] by auto
  have n: "n \<notin> set SHARED_MAPS" using assms(2) CgroupSockAddr by simp
  have "objects acc' = objects acc \<and> lsm_links acc' = lsm_links acc \<and> (s' = s1 \<or> s' = s2)"
    using assms(1) CgroupSockAddr 1 2 by (auto simp: load_prog_def split: if_splits)
  then show ?thesis using f1 f2 keeps_pins_other [OF n, of s1 s] keeps_pins_other [OF n, of s2 s] by (auto simp: linked_def)
qed

lemma load_progs_effect:
  assumes "siter (load_prog L oname) ps (acc, s) = (r, (acc', s'))" "\<forall>(n, ty, i)\<in>set ps. ty = CgroupSockAddr \<longrightarrow> n \<notin> set SHARED_MAPS"
  shows "keeps_pins s s' \<and> objects acc' = objects acc \<and> (linked s0 acc s \<longrightarrow> linked s0 acc' s')"
proof -
  let ?P = "\<lambda>(a, t). keeps_pins s t \<and> objects a = objects acc \<and> (linked s0 acc s \<longrightarrow> linked s0 a t)"
  have "?P (acc', s')"
  proof (rule siter_invariant [where P = ?P, OF _ assms(1)])
    fix p st r st' assume p: "p \<in> set ps" and step: "load_prog L oname p st = (r, st')" and inv: "?P st"
    obtain n ty i a t a' t' where eq: "p = (n, ty, i)" "st = (a, t)" "st' = (a', t')" by (cases p, cases st, cases st')
    show "?P st'" using load_prog_effect [OF step [unfolded eq], of s0] inv p assms(2) keeps_pins_trans unfolding eq by fastforce
  qed simp
  then show ?thesis by simp
qed

definition load_inv :: "bpf_state \<Rightarrow> load_state \<Rightarrow> bool" where
  "load_inv s0 = (\<lambda>(acc, s). (\<forall>obj\<in>set (objects acc). shares s obj) \<and> linked s0 acc s)"

lemma load_one_inv:
  assumes "load_one L d name st = (r, st')" "load_inv s0 st"
  shows "load_inv s0 st'"
proof -
  obtain acc s where st: "st = (acc, s)" by force
  show ?thesis
  proof (cases "open_file L (d @ ''/'' @ name @ ''.bpf.o'')")
    case None
    then show ?thesis using assms st by (auto simp: load_one_def)
  next
    case (Some ob)
    obtain lo s1 where l: "load_object L ob shared_pin s = (lo, s1)" by force
    have k1: "keeps_pins s s1" "linked s0 acc s \<Longrightarrow> linked s0 acc s1" using load_frame [OF l] by (auto simp: keeps_pins_def linked_def)
    show ?thesis
    proof (cases "set_pin_paths L ob \<and> lo \<noteq> None")
      case False
      then show ?thesis using assms st Some l k1 shares_mono [OF _ k1(1)]
        by (auto simp: load_one_def load_inv_def split: if_splits)
    next
      case True
      then obtain obj where obj: "lo = Some obj" by auto
      note l' = l [unfolded obj]
      have "\<forall>(n, ty, i)\<in>set (obj_progs obj). ty = CgroupSockAddr \<longrightarrow> n \<notin> set SHARED_MAPS"
      proof clarify
        fix n i assume "(n, CgroupSockAddr, i) \<in> set (obj_progs obj)" and n: "n \<in> set SHARED_MAPS"
        then have "(n, CgroupSockAddr) \<in> set (map (\<lambda>(n, ty, _). (n, ty)) (obj_progs obj))" by force
        then have "(n, CgroupSockAddr) \<in> set (oo_progs ob)" using load_names [OF l'] by metis
        then show False using prog_names [OF Some] n by blast
      qed
      moreover obtain r2 acc2 s2 where p: "siter (load_prog L name) (obj_progs obj) (acc, s1) = (r2, (acc2, s2))"
        by (metis prod.exhaust)
      ultimately have e: "keeps_pins s1 s2" "objects acc2 = objects acc" "linked s0 acc s1 \<longrightarrow> linked s0 acc2 s2"
        using load_progs_effect [OF p, of s0] by blast+
      have "shares s1 obj" using load_pins [OF l'] by (auto simp: shares_def shared_pin_def)
      then show ?thesis using assms st Some l obj True p e k1 shares_mono [OF _ e(1)] shares_mono [OF _ k1(1)]
        by (auto simp: load_one_def load_inv_def sbind_def linked_def split: sum.splits)
    qed
  qed
qed

lemma load_all_inv: "siter (load_one L d) names st = (r, st') \<Longrightarrow> load_inv s0 st \<Longrightarrow> load_inv s0 st'"
  by (rule siter_invariant [where P = "load_inv s0"]) (auto intro: load_one_inv)

lemma dropped: "lsm_count (fold (drop_link L) is s) i = lsm_count s i - count_list is i"
  by (induction "is" arbitrary: s) (simp_all add: unlink)

lemma load_and_attach_fails:
  assumes "load_and_attach L s = (Inl e, s')"
  shows "lsm_count s' = lsm_count s"
proof (rule ext)
  fix i
  have start: "load_inv s (\<lparr>objects = [], lsm_links = [], cgroup_progs = []\<rparr>, s)" by (simp add: load_inv_def linked_def)
  show "lsm_count s' i = lsm_count s i"
    using assms load_all_inv [OF _ start]
    by (fastforce simp: load_and_attach_def dropped load_inv_def linked_def split: sum.splits prod.splits if_splits)
qed

lemma load_and_attach_shares:
  assumes "load_and_attach L s = (Inr P, s')"
  shows "(\<forall>obj\<in>set (objects P). shares s' obj) \<and> linked s P s'"
proof -
  have start: "load_inv s (\<lparr>objects = [], lsm_links = [], cgroup_progs = []\<rparr>, s)" by (simp add: load_inv_def linked_def)
  show ?thesis using assms load_all_inv [OF _ start]
    by (fastforce simp: load_and_attach_def load_inv_def split: sum.splits prod.splits if_splits)
qed

lemma open_pinned_pins:
  assumes "open_pinned L s = Inr m"
  shows "pins s (pin_path ''sandboxes'') = Some (bm_sandboxes m)" "pins s (pin_path ''fs_rules'') = Some (bm_fs_rules m)"
    "pins s (pin_path ''exec_rules'') = Some (bm_exec_rules m)" "pins s (pin_path ''net_rules'') = Some (bm_net_rules m)"
  using assms pinned by (auto simp: open_pinned_def Let_def rbind_Inr_iff)

lemma attach_one:
  assumes "attach_cgroup_program L n cg ty s = (r, s')"
  shows "case r of
      Inl _ \<Rightarrow> attached s' = attached s
    | Inr a \<Rightarrow> a = \<lparr>at_prog = at_prog a, at_cgroup = cg, at_type = ty\<rparr> \<and> pins s (pin_path n) = Some (at_prog a) \<and> pins s' = pins s \<and>
        attached s' = (attached s)(cg := (attached s cg)(ty \<mapsto> at_prog a))"
  using assms pinned [of "pin_path n" s] cg_attach
  by (auto simp: attach_cgroup_program_def Let_def split: option.splits if_splits prod.splits)

lemma attach_hooks_effect:
  assumes "attach_cgroup_hooks L cg s = (r, s')" "\<And>ty. attached s cg ty = None"
  shows "case r of
      Inl _ \<Rightarrow> attached s' = attached s
    | Inr as \<Rightarrow> \<exists>i j. pins s (pin_path ''aivisor_cgroup_connect4'') = Some i \<and> pins s (pin_path ''aivisor_cgroup_connect6'') = Some j \<and>
        map at_prog as = [i, j] \<and>
        attached s' = (attached s)(cg := [CGROUP_INET4_CONNECT \<mapsto> i, CGROUP_INET6_CONNECT \<mapsto> j])"
proof -
  have none: "attached s cg = Map.empty" using assms(2) by auto
  obtain r1 s1 where 1: "attach_cgroup_program L ''aivisor_cgroup_connect4'' cg CGROUP_INET4_CONNECT s = (r1, s1)" by force
  obtain r2 s2 where 2: "attach_cgroup_program L ''aivisor_cgroup_connect6'' cg CGROUP_INET6_CONNECT s1 = (r2, s2)" by force
  note e = attach_one [OF 1] attach_one [OF 2]
  show ?thesis
  proof (cases r1)
    case Inl
    then show ?thesis using assms(1) 1 e by (auto simp: attach_cgroup_hooks_def CGROUP_HOOKS_def)
  next
    case a: (Inr a)
    show ?thesis
    proof (cases r2)
      case Inl
      have "at_cgroup a = cg" "at_type a = CGROUP_INET4_CONNECT"
        using e(1) a by (simp_all, metis CgroupProgAttachment.select_convs(2), metis CgroupProgAttachment.select_convs(3))
      then have "attached s' = attached s"
        using assms(1) 1 2 e a Inl none
        by (auto simp: attach_cgroup_hooks_def CGROUP_HOOKS_def drop_attachment_def cg_detach fun_eq_iff)
      then show ?thesis using assms(1) 1 2 a Inl by (auto simp: attach_cgroup_hooks_def CGROUP_HOOKS_def)
    next
      case (Inr b)
      then show ?thesis using assms(1) 1 2 e a none by (auto simp: attach_cgroup_hooks_def CGROUP_HOOKS_def)
    qed
  qed
qed

end

section \<open>A concrete library\<close>

text \<open>Every load takes the maps it can from the pins and makes the others; ids are handed out one above the largest pinned id of
  the object's maps. It serves to show that the laws can be met.\<close>

fun place_maps :: "(string \<Rightarrow> string option) \<Rightarrow> string list \<Rightarrow> u32 \<Rightarrow> (string \<Rightarrow> u32 option) \<Rightarrow> (string \<times> u32) list \<times> (string \<Rightarrow> u32 option)" where
  "place_maps pp [] k ps = ([], ps)"
| "place_maps pp (n # ns) k ps =
     (let (i, ps') = (case pp n of
            None \<Rightarrow> (k, ps)
          | Some p \<Rightarrow> (case ps p of Some i \<Rightarrow> (i, ps) | None \<Rightarrow> (k, ps(p \<mapsto> k))));
          (ms, ps'') = place_maps pp ns (k + 1) ps'
      in ((n, i) # ms, ps''))"

lemma place_maps_keeps: "place_maps pp ns k ps = (ms, ps') \<Longrightarrow> ps p = Some i \<Longrightarrow> ps' p = Some i"
proof (induction ns arbitrary: k ps ms)
  case (Cons n ns)
  then show ?case by (fastforce simp: Let_def split: option.splits prod.splits if_splits)
qed simp

lemma place_maps_names: "place_maps pp ns k ps = (ms, ps') \<Longrightarrow> map fst ms = ns"
  by (induction ns arbitrary: k ps ms) (auto simp: Let_def split: option.splits prod.splits)

lemma place_maps_pinned: "place_maps pp ns k ps = (ms, ps') \<Longrightarrow> (n, i) \<in> set ms \<Longrightarrow> pp n = Some p \<Longrightarrow> ps' p = Some i"
proof (induction ns arbitrary: k ps ms)
  case (Cons m ns)
  then show ?case
    by (auto simp: Let_def split: option.splits prod.splits) (erule place_maps_keeps, simp)+
qed simp

lemmas place_maps_laws = place_maps_names [OF surjective_pairing] place_maps_pinned [OF surjective_pairing] place_maps_keeps [OF surjective_pairing]

definition sample_object :: "string \<Rightarrow> open_object option" where
  "sample_object path =
     (if path \<in> (\<lambda>n. ''/out/'' @ n @ ''.bpf.o'') ` set OBJECTS then
        Some \<lparr>oo_maps = SHARED_MAPS @ [''.rodata''],
              oo_progs = (''aivisor_hook'', OtherType) #
                (if path = ''/out/net.bpf.o''
                 then [(''aivisor_cgroup_connect4'', CgroupSockAddr), (''aivisor_cgroup_connect6'', CgroupSockAddr)] else [])\<rparr>
      else None)"

definition sample_libbpf :: libbpf where
  "sample_libbpf =
     \<lparr>object_dir = Some ''/out'', create_pin_dir = True, open_file = sample_object, set_pin_path = (\<lambda>_. True),
      load_object = (\<lambda>ob pp s. let (ms, ps) = place_maps pp (oo_maps ob) 1 (pins s)
        in (Some \<lparr>obj_maps = ms, obj_progs = map (\<lambda>(n, ty). (n, ty, 9)) (oo_progs ob)\<rparr>, s\<lparr>pins := ps\<rparr>)),
      remove_file = (\<lambda>p s. (True, s\<lparr>pins := (pins s)(p := None)\<rparr>)),
      prog_pin = (\<lambda>i p s. (True, s\<lparr>pins := (pins s)(p \<mapsto> i)\<rparr>)),
      prog_attach = (\<lambda>i s. (True, s\<lparr>lsm_count := (lsm_count s)(i := lsm_count s i + 1)\<rparr>)),
      drop_link = (\<lambda>i s. s\<lparr>lsm_count := (lsm_count s)(i := lsm_count s i - 1)\<rparr>),
      from_pinned_path = (\<lambda>p s. pins s p), map_info_ok = (\<lambda>_. True), dup_fd = (\<lambda>_. True),
      bpf_prog_attach = (\<lambda>i cg ty s. (True, s\<lparr>attached := (attached s)(cg := (attached s cg)(ty \<mapsto> i))\<rparr>)),
      bpf_prog_detach2 = (\<lambda>i cg ty s. s\<lparr>attached := (attached s)(cg := (attached s cg)(ty := None))\<rparr>)\<rparr>"

interpretation sample: libbpf_api sample_libbpf
  by unfold_locales
     (auto simp: sample_libbpf_def sample_object_def SHARED_MAPS_def Let_def comp_def split_def
       place_maps_laws split: if_splits prod.splits)

section \<open>One set of maps\<close>

text \<open>
  The hooks and the policy manager work on one set of maps: when the process-wide handle is obtained, all five objects are loaded and every LSM
  program in them is attached; each map they share is the same kernel map in every object; and the four maps the policy manager writes are
  those. A later call returns the same handle and loads nothing.
\<close>

lemma enforced_maps:
  assumes "libbpf_api L" "once p = None" "enforcement L p = (Inr m, p')"
  shows "enforcement L p' = (Inr m, p') \<and> (\<exists>P. programs p' = Some P \<and> length (objects P) = length OBJECTS \<and>
    (\<forall>obj\<in>set (objects P). \<forall>n i. (n, OtherType, i) \<in> set (obj_progs obj) \<longrightarrow> 0 < lsm_count (kstate p') i) \<and>
    (\<forall>obj\<in>set (objects P). \<forall>obj'\<in>set (objects P). \<forall>n\<in>set SHARED_MAPS. \<forall>i j.
       (n, i) \<in> set (obj_maps obj) \<longrightarrow> (n, j) \<in> set (obj_maps obj') \<longrightarrow> i = j) \<and>
    (\<forall>obj\<in>set (objects P). \<forall>i.
       ((''sandboxes'', i) \<in> set (obj_maps obj) \<longrightarrow> i = bm_sandboxes m) \<and> ((''fs_rules'', i) \<in> set (obj_maps obj) \<longrightarrow> i = bm_fs_rules m) \<and>
       ((''exec_rules'', i) \<in> set (obj_maps obj) \<longrightarrow> i = bm_exec_rules m) \<and> ((''net_rules'', i) \<in> set (obj_maps obj) \<longrightarrow> i = bm_net_rules m)))"
proof -
  from assms(2,3) obtain P s where l: "load_and_attach L (kstate p) = (Inr P, s)" "open_pinned L s = Inr m"
    "p' = p\<lparr>programs := Some P, kstate := s, once := Some (Inr m)\<rparr>"
    by (auto simp: enforcement_def init_enforcement_def Let_def split: sum.splits prod.splits)
  have sh: "(n, i) \<in> set (obj_maps obj) \<Longrightarrow> n \<in> set SHARED_MAPS \<Longrightarrow> pins s (pin_path n) = Some i" if "obj \<in> set (objects P)" for obj n i
    using libbpf_api.load_and_attach_shares [OF assms(1) l(1)] that by (auto simp: libbpf_api.shares_def [OF assms(1)])
  have "linked": "lsm_count s i \<ge> count_list (lsm_links P) i" for i
    using libbpf_api.load_and_attach_shares [OF assms(1) l(1)] by (simp add: libbpf_api.linked_def [OF assms(1)])
  have "0 < lsm_count s i" if "obj \<in> set (objects P)" "(n, OtherType, i) \<in> set (obj_progs obj)" for obj n i
  proof -
    have "i \<in> set (lsm_links P)" using load_and_attach_links [OF l(1)] that by (auto simp: all_linked_def)
    then have "0 < count_list (lsm_links P) i" by (metis count_list_0_iff gr0I)
    then show ?thesis using "linked" [of i] by linarith
  qed
  moreover have "enforcement L p' = (Inr m, p')" by (simp add: enforcement_def l(3))
  moreover have "i = j" if "obj \<in> set (objects P)" "obj' \<in> set (objects P)" "n \<in> set SHARED_MAPS" "(n, i) \<in> set (obj_maps obj)"
      "(n, j) \<in> set (obj_maps obj')" for obj obj' n i j
    using sh [OF that(1,4,3)] sh [OF that(2,5,3)] by simp
  moreover note load_and_attach_links [OF l(1)]
  ultimately show ?thesis
    using sh libbpf_api.open_pinned_pins [OF assms(1) l(2)] by (simp add: l(3) SHARED_MAPS_def) fastforce
qed

text \<open>
  C28. A sandbox gets both egress hooks or neither. For a cgroup without hooks, attaching either sets the pinned connect4 and
  connect6 programs for it, or fails and leaves it as it was: no sandbox is left with IPv4 hooked and IPv6 open. No other
  cgroup is touched.
\<close>
theorem cgroup_hooks_all_or_nothing:
  assumes "libbpf_api L" "attach_cgroup_hooks L cg s = (r, s')" "\<And>ty. attached s cg ty = None"
  shows "(\<forall>d. d \<noteq> cg \<longrightarrow> attached s' d = attached s d) \<and>
    (case r of
       Inl _ \<Rightarrow> attached s' cg = Map.empty
     | Inr as \<Rightarrow> length as = 2 \<and> pins s (pin_path ''aivisor_cgroup_connect4'') \<noteq> None \<and> pins s (pin_path ''aivisor_cgroup_connect6'') \<noteq> None \<and>
         attached s' cg CGROUP_INET4_CONNECT = pins s (pin_path ''aivisor_cgroup_connect4'') \<and>
         attached s' cg CGROUP_INET6_CONNECT = pins s (pin_path ''aivisor_cgroup_connect6''))"
proof -
  have "attached s cg = Map.empty" using assms(3) by auto
  then show ?thesis using libbpf_api.attach_hooks_effect [OF assms] by (cases r) (auto dest: arg_cong [of _ _ length])
qed

definition sample_process :: process where
  "sample_process = \<lparr>once = None, programs = None, kstate = \<lparr>pins = Map.empty, lsm_count = (\<lambda>_. 0), attached = (\<lambda>_. Map.empty)\<rparr>\<rparr>"

lemma sample_enforced: "fst (enforcement sample_libbpf sample_process) = Inr \<lparr>bm_sandboxes = 1, bm_fs_rules = 2, bm_exec_rules = 3, bm_net_rules = 4\<rparr>"
  by code_simp

definition pinned_state :: bpf_state where
  "pinned_state =
     \<lparr>pins = [pin_path ''aivisor_cgroup_connect4'' \<mapsto> 11, pin_path ''aivisor_cgroup_connect6'' \<mapsto> 12], lsm_count = (\<lambda>_. 0), attached = (\<lambda>_. Map.empty)\<rparr>"

theorem cgroup_hooks_all_or_nothing_witness:
  "\<exists>as s'. attach_cgroup_hooks sample_libbpf 7 pinned_state = (Inr as, s') \<and> attached s' 7 CGROUP_INET4_CONNECT = Some 11 \<and>
     attached s' 7 CGROUP_INET6_CONNECT = Some 12"
proof -
  obtain as s' where a: "attach_cgroup_hooks sample_libbpf 7 pinned_state = (Inr as, s')"
    by (simp add: attach_cgroup_hooks_def CGROUP_HOOKS_def attach_cgroup_program_def sample_libbpf_def pinned_state_def Let_def)
  have none: "\<And>ty. attached pinned_state 7 ty = None" by (simp add: pinned_state_def)
  from cgroup_hooks_all_or_nothing [OF sample.libbpf_api_axioms a none] a show ?thesis by (simp add: pinned_state_def)
qed

end
