(* ===== verification/Probe.thy ===== *)
theory Probe
  imports Core
begin

text \<open>
  The kernel probes (\<^verbatim>\<open>aivisor-runtime/src/probe.rs\<close>, and \<^verbatim>\<open>probe_landlock_abi\<close> of
  \<^verbatim>\<open>landlock.rs\<close>). What the host answers is a parameter; the overlay probe, which mounts, also returns what it did.
\<close>

section \<open>The host\<close>

text \<open>
  The output of \<^verbatim>\<open>uname -r\<close>, the files under \<^verbatim>\<open>/sys\<close> and \<^verbatim>\<open>/proc\<close>, the entries of a directory (an
  unreadable one is \<^const>\<open>None\<close>), the error number of the empty \<^verbatim>\<open>clone3\<close> call, whether a directory can be made and
  an overlay mounted, the scratch directory, and the answer of the Landlock version query.
\<close>

record probe_env =
  uname_r :: "string option"
  path_exists :: "string \<Rightarrow> bool"
  list_dir :: "string \<Rightarrow> string option list option"
  read_text :: "string \<Rightarrow> string option"
  clone3_errno :: "nat option"
  can_mkdir :: "string \<Rightarrow> bool"
  can_mount :: "string \<Rightarrow> string \<Rightarrow> bool"
  scratch_dir :: string
  landlock_version :: int

record KernelCaps =
  kernel_version :: "nat \<times> nat"
  cgroup_v2 :: bool
  clone3 :: bool
  clone_into_cgroup :: bool
  cgroup_kill :: bool
  overlayfs :: bool
  overlayfs_in_userns :: bool
  unprivileged_userns :: bool
  controllers :: "string list"

section \<open>The probes\<close>

text \<open>\<^verbatim>\<open>str::splitn\<close> with a character.\<close>

fun splitn :: "nat \<Rightarrow> char \<Rightarrow> string \<Rightarrow> string list" where
  "splitn 0 c s = []"
| "splitn (Suc 0) c s = [s]"
| "splitn (Suc (Suc n)) c s = (case split_once c s of None \<Rightarrow> [s] | Some (a, b) \<Rightarrow> a # splitn (Suc n) c b)"

definition number_or_zero :: "string \<Rightarrow> nat" where
  "number_or_zero s = (case parse_uint 32 s of None \<Rightarrow> 0 | Some n \<Rightarrow> n)"

definition probe_kernel_version :: "probe_env \<Rightarrow> nat \<times> nat" where
  "probe_kernel_version E =
     (case uname_r E of
        None \<Rightarrow> (0, 0)
      | Some out \<Rightarrow>
          (case splitn 3 CHR ''.'' (trim out) of
             major # minor # _ \<Rightarrow> (number_or_zero major, number_or_zero minor)
           | _ \<Rightarrow> (0, 0)))"

definition replace_char :: "char \<Rightarrow> char \<Rightarrow> string \<Rightarrow> string" where
  "replace_char a b = map (\<lambda>c. if c = a then b else c)"

definition read_sysctl :: "probe_env \<Rightarrow> string \<Rightarrow> string option" where
  "read_sysctl E name = map_option trim (read_text E (''/proc/sys/'' @ replace_char CHR ''.'' CHR ''/'' name))"

definition probe_cgroup_v2 :: "probe_env \<Rightarrow> bool" where
  "probe_cgroup_v2 E = path_exists E ''/sys/fs/cgroup/cgroup.controllers''"

definition ENOSYS :: nat where "ENOSYS = 38"

definition probe_clone3 :: "probe_env \<Rightarrow> bool" where
  "probe_clone3 E = (clone3_errno E \<noteq> Some ENOSYS)"

definition probe_clone_into_cgroup :: "probe_env \<Rightarrow> bool" where
  "probe_clone_into_cgroup E = (let ver = probe_kernel_version E in fst ver > 5 \<or> (fst ver = 5 \<and> snd ver \<ge> 7))"

definition probe_cgroup_kill :: "probe_env \<Rightarrow> bool" where
  "probe_cgroup_kill E \<longleftrightarrow>
     path_exists E ''/sys/fs/cgroup'' \<and>
     (case list_dir E ''/sys/fs/cgroup'' of
        None \<Rightarrow> False
      | Some entries \<Rightarrow> list_ex (\<lambda>e. case e of None \<Rightarrow> False | Some path \<Rightarrow> path_exists E (path @ ''/cgroup.kill'')) entries)"

text \<open>What the overlay probe does to the host.\<close>

datatype probe_action = MakeDirs string | MountOverlay string string | Unmount string | RemoveAll string

definition has_nul :: "string \<Rightarrow> bool" where
  "has_nul s \<longleftrightarrow> CHR 0x00 \<in> set s"

definition try_mount_overlay :: "probe_env \<Rightarrow> string \<Rightarrow> string \<Rightarrow> string \<Rightarrow> string \<Rightarrow> bool \<times> probe_action list" where
  "try_mount_overlay E lower upper work merged =
     (if has_nul merged then (False, [])
      else let data = ''lowerdir='' @ lower @ '',upperdir='' @ upper @ '',workdir='' @ work
           in if has_nul data then (False, [])
              else (can_mount E merged data, if can_mount E merged data then [MountOverlay merged data] else []))"

text \<open>Directories are made until one cannot be.\<close>

fun make_dirs :: "probe_env \<Rightarrow> string list \<Rightarrow> bool \<times> probe_action list" where
  "make_dirs E [] = (True, [])"
| "make_dirs E (d # ds) =
     (if can_mkdir E d then (let (ok, acts) = make_dirs E ds in (ok, MakeDirs d # acts)) else (False, []))"

definition probe_overlayfs :: "probe_env \<Rightarrow> bool \<times> probe_action list" where
  "probe_overlayfs E =
     (let base = scratch_dir E; lower = base @ ''/lower''; upper = base @ ''/upper''; work = base @ ''/work''; merged = base @ ''/merged'';
          (created, acts) = make_dirs E [lower, upper, work, merged]
      in if \<not> created then (False, acts @ [RemoveAll base])
         else let (result, acts2) = try_mount_overlay E lower upper work merged
              in if result
                 then (if has_nul merged then (result, acts @ acts2 @ [RemoveAll base])
                       else (result, acts @ acts2 @ [Unmount merged, RemoveAll base]))
                 else (result, acts @ acts2 @ [RemoveAll base]))"

definition probe_overlayfs_in_userns :: "probe_env \<Rightarrow> bool" where
  "probe_overlayfs_in_userns E = (let ver = probe_kernel_version E in fst ver > 5 \<or> (fst ver = 5 \<and> snd ver \<ge> 11))"

definition probe_unprivileged_userns :: "probe_env \<Rightarrow> bool" where
  "probe_unprivileged_userns E = (case read_sysctl E ''kernel.unprivileged_userns_clone'' of None \<Rightarrow> True | Some v \<Rightarrow> v = ''1'')"

definition probe_controllers :: "probe_env \<Rightarrow> string list" where
  "probe_controllers E = (case read_text E ''/sys/fs/cgroup/cgroup.controllers'' of None \<Rightarrow> [] | Some s \<Rightarrow> split_whitespace s)"

definition probe_all :: "probe_env \<Rightarrow> KernelCaps" where
  "probe_all E =
     \<lparr>kernel_version = probe_kernel_version E, cgroup_v2 = probe_cgroup_v2 E, clone3 = probe_clone3 E,
      clone_into_cgroup = probe_clone_into_cgroup E, cgroup_kill = probe_cgroup_kill E, overlayfs = fst (probe_overlayfs E),
      overlayfs_in_userns = probe_overlayfs_in_userns E, unprivileged_userns = probe_unprivileged_userns E,
      controllers = probe_controllers E\<rparr>"

definition check_hard_requirements :: "KernelCaps \<Rightarrow> string + unit" where
  "check_hard_requirements caps =
     (if \<not> cgroup_v2 caps then Inl ''cgroup v2 not detected. Boot with systemd.unified_cgroup_hierarchy=1''
      else if controllers caps = [] then Inl ''No cgroup controllers found. Check /sys/fs/cgroup/cgroup.controllers''
      else if \<not> overlayfs caps then Inl ''overlay filesystem not available. Ensure CONFIG_OVERLAY_FS=y''
      else Inr ())"

definition probe_landlock_abi :: "probe_env \<Rightarrow> u32 \<Rightarrow> error + u32" where
  "probe_landlock_abi E min_abi =
     (let ret = landlock_version E
      in if ret < 0 then Inl (KernelFeatureMissing ''Landlock LSM'' ''5.13'')
         else let abi_version = word_of_int ret
              in if abi_version < min_abi then Inl (KernelFeatureMissing ''Landlock ABI (see min_abi in error context)'' ''5.13+'')
                 else Inr abi_version)"

section \<open>What the probes tell\<close>

text \<open>A release string is read back: the first two numbers, whatever follows the second dot.\<close>

lemma trim_append_lf: "s \<noteq> [] \<Longrightarrow> \<not> is_ws (hd s) \<Longrightarrow> \<not> is_ws (last s) \<Longrightarrow> trim (s @ [char_lf]) = s"
proof -
  assume s: "s \<noteq> []" "\<not> is_ws (hd s)" "\<not> is_ws (last s)"
  have "dropWhile is_ws (s @ [char_lf]) = s @ [char_lf]" using s by (cases s) auto
  moreover have "dropWhile is_ws (rev s) = rev s" using s(3) by (cases s rule: rev_cases) auto
  moreover have "is_ws char_lf" by (simp add: is_ws_def char_lf_def)
  ultimately show ?thesis by (simp add: trim_def)
qed

lemma splitn_release:
  assumes "CHR ''.'' \<notin> set a" "CHR ''.'' \<notin> set b"
  shows "splitn 3 CHR ''.'' (a @ CHR ''.'' # b @ CHR ''.'' # c) = [a, b, c]"
proof -
  have "split_once CHR ''.'' (a @ CHR ''.'' # b @ CHR ''.'' # c) = Some (a, b @ CHR ''.'' # c)"
    "split_once CHR ''.'' (b @ CHR ''.'' # c) = Some (b, c)"
    using assms by (simp_all add: split_once_Some_iff)
  then show ?thesis by (simp add: numeral_3_eq_3)
qed

lemma show_uint_edges: "\<not> is_ws (hd (show_uint n))"
proof -
  obtain d where d: "d < 10" "hd (show_uint n) = digit_char d" using show_uint_digits [of "hd (show_uint n)" n] by auto
  then show ?thesis by (simp add: is_ws_def)
qed

lemma kernel_version_read:
  assumes "major < 2 ^ 32" "minor < 2 ^ 32" "rest \<noteq> []" "\<not> is_ws (last rest)"
    "uname_r E = Some (show_uint major @ ''.'' @ show_uint minor @ ''.'' @ rest @ [char_lf])"
  shows "probe_kernel_version E = (major, minor)"
proof -
  let ?s = "show_uint major @ CHR ''.'' # show_uint minor @ CHR ''.'' # rest"
  have "hd ?s = hd (show_uint major)" by simp
  then have "trim (?s @ [char_lf]) = ?s" using assms(3,4) show_uint_edges by (intro trim_append_lf) simp_all
  moreover have "CHR ''.'' \<notin> set (show_uint n)" for n by (rule show_uint_not_in) simp
  ultimately show ?thesis
    using assms(1,2) by (simp add: probe_kernel_version_def assms(5) splitn_release number_or_zero_def parse_show_uint)
qed

text \<open>The version tests are the lexicographic order.\<close>

lemma version_tests:
  "probe_clone_into_cgroup E \<longleftrightarrow> (fst (probe_kernel_version E), snd (probe_kernel_version E)) \<notin> {(a, b). a < 5 \<or> a = 5 \<and> b < 7}"
  "probe_overlayfs_in_userns E \<Longrightarrow> probe_clone_into_cgroup E"
  by (auto simp: probe_clone_into_cgroup_def probe_overlayfs_in_userns_def Let_def)

text \<open>
  The overlay probe cleans up after itself: whatever the host answers, the last thing it does is to remove its scratch directory, and
  an overlay it mounted is unmounted right before that. It reports an overlay exactly when it mounted one.
\<close>

definition overlay_actions :: "string \<Rightarrow> string \<Rightarrow> probe_action list" where
  "overlay_actions base data = [MountOverlay (base @ ''/merged'') data, Unmount (base @ ''/merged'')]"

lemma make_dirs_actions: "\<exists>dirs. snd (make_dirs E ds) = map MakeDirs dirs"
proof (induction ds)
  case (Cons d ds)
  then obtain dirs where "snd (make_dirs E ds) = map MakeDirs dirs" by blast
  then have "snd (make_dirs E (d # ds)) = map MakeDirs (if can_mkdir E d then d # dirs else [])" by (simp add: split_def Let_def)
  then show ?case by blast
qed simp

theorem overlay_probe_cleans_up:
  "\<exists>dirs mounted. snd (probe_overlayfs E) = map MakeDirs dirs @ mounted @ [RemoveAll (scratch_dir E)] \<and>
     (if fst (probe_overlayfs E) then \<exists>data. mounted = overlay_actions (scratch_dir E) data else mounted = [])"
proof -
  let ?b = "scratch_dir E"
  obtain ok acts where m: "make_dirs E [?b @ ''/lower'', ?b @ ''/upper'', ?b @ ''/work'', ?b @ ''/merged''] = (ok, acts)" by force
  then obtain dirs where acts: "acts = map MakeDirs dirs" using make_dirs_actions by (metis snd_conv)
  show ?thesis
  proof (cases "ok \<and> fst (try_mount_overlay E (?b @ ''/lower'') (?b @ ''/upper'') (?b @ ''/work'') (?b @ ''/merged''))")
    case False
    then have "probe_overlayfs E = (False, acts @ [RemoveAll ?b])"
      using m by (auto simp: probe_overlayfs_def Let_def try_mount_overlay_def split: if_splits)
    then show ?thesis using acts by (intro exI [of _ dirs] exI [of _ "[]"]) simp
  next
    case True
    then obtain data where "probe_overlayfs E = (True, acts @ overlay_actions ?b data @ [RemoveAll ?b])"
      using m by (auto simp: probe_overlayfs_def Let_def try_mount_overlay_def overlay_actions_def split: if_splits)
    then show ?thesis using acts by (intro exI [of _ dirs] exI [of _ "overlay_actions ?b data"]) auto
  qed
qed

end
