(* ===== verification/Daemon.thy ===== *)
theory Daemon
  imports Sandbox_Safe Bpf_Loader Probe
begin

text \<open>
  The daemon: how the sandbox manager is brought up (\<^verbatim>\<open>SandboxManager::new\<close> of \<^verbatim>\<open>manager.rs\<close>), the pool of
  sandboxes provisioned ahead of demand (\<^verbatim>\<open>aivisord/src/warmpool.rs\<close>) and their composition
  (\<^verbatim>\<open>aivisord/src/daemon.rs\<close>). The pool's operations interleave with every other use of the manager.
\<close>

section \<open>Bringing up the manager\<close>

text \<open>
  The probes come first, then the Landlock version, then the enforcement handle; each failure refuses to start. \<open>contents\<close> is what
  the opened maps hold, possibly left by an earlier daemon. The result is the Landlock version and the manager, with the orphan
  cgroups that are removed.
\<close>

definition sandbox_manager_new ::
    "probe_env \<Rightarrow> libbpf \<Rightarrow> (BpfMaps \<Rightarrow> 't bpf_maps) \<Rightarrow> cgroup_fs \<Rightarrow> cgroup_entry list option \<Rightarrow> process
       \<Rightarrow> (error + u32 \<times> 't Manager \<times> string list) \<times> process" where
  "sandbox_manager_new E L contents c cgroups p =
     (case check_hard_requirements (probe_all E) of
        Inl _ \<Rightarrow> (Inl (KernelFeatureMissing ''hardware requirements'' ''6.1''), p)
      | Inr _ \<Rightarrow>
          (case probe_landlock_abi E 1 of
             Inl e \<Rightarrow> (Inl e, p)
           | Inr abi \<Rightarrow>
               (case enforcement L p of
                  (Inl e, p) \<Rightarrow> (Inl e, p)
                | (Inr m, p) \<Rightarrow> (Inr (abi, mgr_new (contents m) c, clean_orphan_cgroups cgroups), p))))"

section \<open>The warm pool\<close>

record PoolEntry =
  pe_id :: SandboxId
  pe_created :: nat

record WarmPool =
  pool_template :: string
  target_depth :: nat
  max_age :: nat
  pool_entries :: "PoolEntry list"
  cold_fallback_count :: u64

definition warm_pool_new :: "string \<Rightarrow> nat \<Rightarrow> WarmPool" where
  "warm_pool_new tmpl depth =
     \<lparr>pool_template = tmpl, target_depth = depth, max_age = 300 * 10 ^ 9, pool_entries = [], cold_fallback_count = 0\<rparr>"

text \<open>The identifiers the process draws, their text, and the readings of the monotonic clock, in nanoseconds.\<close>

record pool_env =
  new_id :: "nat \<Rightarrow> SandboxId"
  id_text :: "SandboxId \<Rightarrow> string"
  now :: "nat \<Rightarrow> nat"

record 't Daemon =
  dmgr :: "'t Manager"
  warm_pool :: WarmPool
  drawn :: nat
  readings :: nat

definition pool_spec :: "string \<Rightarrow> SandboxId \<Rightarrow> SandboxSpec" where
  "pool_spec tmpl i =
     \<lparr>spec_id = i, template = tmpl, limits = ResourceLimits_default, workspace = Tmpfs 268435456, env = [], spec_timeout = Some 1800,
      policy_name = None\<rparr>"

definition push_entry :: "PoolEntry \<Rightarrow> WarmPool \<Rightarrow> WarmPool" where
  "push_entry e p = p\<lparr>pool_entries := pool_entries p @ [e]\<rparr>"

text \<open>One turn of the loop of \<^verbatim>\<open>refill\<close>: the lock on the pool is not held while the sandbox is created.\<close>

definition provision :: "'t world \<Rightarrow> pool_env \<Rightarrow> 't Daemon \<Rightarrow> (error + unit) \<times> 't Daemon" where
  "provision W E d =
     (let i = new_id E (drawn d);
          (r, m) = create W (id_text E i) (pool_spec (pool_template (warm_pool d)) i) (dmgr d);
          d = d\<lparr>dmgr := m, drawn := drawn d + 1\<rparr>
      in case r of
           Inl e \<Rightarrow> (Inl e, d)
         | Inr _ \<Rightarrow> (Inr (), d\<lparr>warm_pool := push_entry \<lparr>pe_id = i, pe_created = now E (readings d)\<rparr> (warm_pool d), readings := readings d + 1\<rparr>))"

fun refill_loop :: "'t world \<Rightarrow> pool_env \<Rightarrow> nat \<Rightarrow> nat \<Rightarrow> 't Daemon \<Rightarrow> (error + nat) \<times> 't Daemon" where
  "refill_loop W E 0 provisioned = sreturn provisioned"
| "refill_loop W E (Suc n) provisioned = sbind (provision W E) (\<lambda>_. refill_loop W E n (provisioned + 1))"

definition refill :: "'t world \<Rightarrow> pool_env \<Rightarrow> 't Daemon \<Rightarrow> (error + nat) \<times> 't Daemon" where
  "refill W E d = refill_loop W E (target_depth (warm_pool d) - length (pool_entries (warm_pool d))) 0 d"

text \<open>\<^verbatim>\<open>duration_since\<close> is zero for a later instant, as subtraction of natural numbers is. \<^verbatim>\<open>pop\<close> takes the newest entry.\<close>

definition fresh_entries :: "nat \<Rightarrow> WarmPool \<Rightarrow> PoolEntry list" where
  "fresh_entries t p = filter (\<lambda>e. t - pe_created e < max_age p) (pool_entries p)"

definition acquire :: "pool_env \<Rightarrow> 't Daemon \<Rightarrow> SandboxId option \<times> 't Daemon" where
  "acquire E d =
     (let es = fresh_entries (now E (readings d)) (warm_pool d);
          d = d\<lparr>readings := readings d + 1\<rparr>
      in if es = [] then (None, d\<lparr>warm_pool := (warm_pool d)\<lparr>pool_entries := [], cold_fallback_count := cold_fallback_count (warm_pool d) + 1\<rparr>\<rparr>)
         else (Some (pe_id (last es)), d\<lparr>warm_pool := (warm_pool d)\<lparr>pool_entries := butlast es\<rparr>\<rparr>))"

definition pool_depth :: "WarmPool \<Rightarrow> nat" where
  "pool_depth p = length (pool_entries p)"

definition WARM_POOL_TEMPLATE :: string where "WARM_POOL_TEMPLATE = ''base''"
definition WARM_POOL_TARGET_DEPTH :: nat where "WARM_POOL_TARGET_DEPTH = 4"

definition daemon_new :: "'t Manager \<Rightarrow> nat \<Rightarrow> nat \<Rightarrow> 't Daemon" where
  "daemon_new m ids t = \<lparr>dmgr = m, warm_pool = warm_pool_new WARM_POOL_TEMPLATE WARM_POOL_TARGET_DEPTH, drawn = ids, readings = t\<rparr>"

section \<open>Histories of the daemon\<close>

text \<open>The sandbox a call names.\<close>

fun call_target :: "mgr_call \<Rightarrow> string option" where
  "call_target (Create sid _) = Some sid"
| "call_target (RegisterPolicy _ _) = None"
| "call_target (ExecBegin sid _) = Some sid"
| "call_target (ExecInstall _ _) = None"
| "call_target (ExecFailed sid) = Some sid"
| "call_target (ExecRecord sid _ _) = Some sid"
| "call_target (ExecFinish sid) = Some sid"
| "call_target (BeginTurn sid _) = Some sid"
| "call_target (EndTurn sid) = Some sid"
| "call_target (ApplyCapability sid _ _) = Some sid"
| "call_target (Pause sid) = Some sid"
| "call_target (Resume sid) = Some sid"
| "call_target (Destroy sid) = Some sid"

text \<open>
  Refills go on one sandbox at a time, interleaved with acquisitions, with identifiers drawn for other purposes, with the hooks of
  sandboxed tasks, and with any call of the manager that names no sandbox still in the pool: a client has only the identifiers
  that were given to it. The list is of the sandboxes handed out.
\<close>

inductive daemon_run :: "'t world \<Rightarrow> pool_env \<Rightarrow> 't Daemon \<Rightarrow> SandboxId list \<Rightarrow> bool" for W E where
  start: "manager_run W m \<Longrightarrow> daemon_run W E (daemon_new m ids t) []"
| provision: "daemon_run W E d out \<Longrightarrow> daemon_run W E (snd (provision W E d)) out"
| acquire: "daemon_run W E d out \<Longrightarrow> acquire E d = (r, d') \<Longrightarrow> daemon_run W E d' (out @ (case r of None \<Rightarrow> [] | Some i \<Rightarrow> [i]))"
| draw: "daemon_run W E d out \<Longrightarrow> daemon_run W E (d\<lparr>drawn := drawn d + 1\<rparr>) out"
| call: "daemon_run W E d out \<Longrightarrow> \<forall>e\<in>set (pool_entries (warm_pool d)). call_target c \<noteq> Some (id_text E (pe_id e)) \<Longrightarrow>
    daemon_run W E (d\<lparr>dmgr := run_call W c (dmgr d)\<rparr>) out"
| task: "daemon_run W E d out \<Longrightarrow> run_hook (w_kernel W) ret (maps (bpf (dmgr d))) cg hk = (v, k', ev) \<Longrightarrow>
    daemon_run W E (d\<lparr>dmgr := (dmgr d)\<lparr>bpf := (bpf (dmgr d))\<lparr>maps := k'\<rparr>\<rparr>\<rparr>) out"

section \<open>Calls that name another sandbox\<close>

lemma frame_steps [keeping]:
  "keeps (\<lambda>m. registry m s = v) (on_bpf f)" "keeps (\<lambda>m. registry m s = v) (on_cgfs g)"
  "s \<noteq> sid \<Longrightarrow> keeps (\<lambda>m. registry m s = v) (mmodify (upd_handle sid u))"
  "s \<noteq> sid \<Longrightarrow> keeps (\<lambda>m. registry m s = v) (mmodify (\<lambda>m. m\<lparr>registry := (registry m)(sid := x)\<rparr>))"
  "keeps (\<lambda>m. registry m s = v) (mmodify (\<lambda>m. m\<lparr>policy_store := ps (policy_store m)\<rparr>))"
  "keeps (\<lambda>m. registry m s = v) fetch_turn_id"
  by (simp_all add: keeps_def on_bpf_def on_cgfs_def mmodify_def upd_handle_def fetch_turn_id_def split_def Let_def)

lemma frame_create: "s \<noteq> sid \<Longrightarrow> keeps (\<lambda>m. registry m s = v) (create W sid spec)"
  unfolding create_def by (auto intro!: keeping split: sum.splits)

lemma frame_exec_ids [keeping]: "keeps (\<lambda>m. registry m s = v) (exec_ids_after W h p cap change)"
  unfolding exec_ids_after_def by (cases cap) (auto intro!: keeping)

lemma frame_ops:
  "s \<noteq> sid \<Longrightarrow> keeps (\<lambda>m. registry m s = v) (exec_begin W sid cmd)" "keeps (\<lambda>m. registry m s = v) (exec_install W x ids)"
  "s \<noteq> sid \<Longrightarrow> keeps (\<lambda>m. registry m s = v) (exec_failed sid)" "s \<noteq> sid \<Longrightarrow> keeps (\<lambda>m. registry m s = v) (exec_record sid x ids)"
  "s \<noteq> sid \<Longrightarrow> keeps (\<lambda>m. registry m s = v) (exec_finish sid)" "s \<noteq> sid \<Longrightarrow> keeps (\<lambda>m. registry m s = v) (begin_turn W sid label)"
  "s \<noteq> sid \<Longrightarrow> keeps (\<lambda>m. registry m s = v) (end_turn W sid)" "s \<noteq> sid \<Longrightarrow> keeps (\<lambda>m. registry m s = v) (apply_capability W sid cap change)"
  "s \<noteq> sid \<Longrightarrow> keeps (\<lambda>m. registry m s = v) (pause W sid)" "s \<noteq> sid \<Longrightarrow> keeps (\<lambda>m. registry m s = v) (resume W sid)"
  "s \<noteq> sid \<Longrightarrow> keeps (\<lambda>m. registry m s = v) (destroy W sid)" "keeps (\<lambda>m. registry m s = v) (register_policy n q)"
  unfolding exec_begin_def exec_install_def exec_failed_def exec_record_def exec_finish_def begin_turn_def end_turn_def apply_capability_def
    pause_def resume_def destroy_def register_policy_def
  by (auto intro!: keeping)

lemma call_frame: "call_target c \<noteq> Some s \<Longrightarrow> registry (run_call W c m) s = registry m s"
  by (cases c) (simp_all add: frame_ops [unfolded keeps_def, rule_format] frame_create [unfolded keeps_def, rule_format])

lemma create_result:
  assumes "create W sid spec m = (r, m')"
  shows "case r of Inl _ \<Rightarrow> registry m' = registry m
    | Inr _ \<Rightarrow> \<exists>cg rootfs. registry m' = (registry m)(sid \<mapsto> new_handle spec cg rootfs)"
  using assms unfolding create_def
  by (auto simp: sbind_def on_cgfs_def on_bpf_def mdiscard_def mmodify_def Let_def split: prod.splits sum.splits) blast

section \<open>The invariant of the pool\<close>

text \<open>Entries and handed-out sandboxes are different, all drawn by this process, and the sandbox of an entry is as it was created.\<close>

definition untouched :: "'t Manager \<Rightarrow> string \<Rightarrow> bool" where
  "untouched m sid \<longleftrightarrow> (\<exists>spec cg rootfs. registry m sid = Some (new_handle spec cg rootfs))"

lemma untouchedI: "registry m sid = Some (new_handle spec cg rootfs) \<Longrightarrow> untouched m sid"
  unfolding untouched_def by blast

definition pool_ids :: "'t Daemon \<Rightarrow> SandboxId list" where
  "pool_ids d = map pe_id (pool_entries (warm_pool d))"

definition pool_inv :: "'t world \<Rightarrow> pool_env \<Rightarrow> 't Daemon \<Rightarrow> SandboxId list \<Rightarrow> bool" where
  "pool_inv W E d out \<longleftrightarrow> manager_run W (dmgr d) \<and> distinct (out @ pool_ids d) \<and> set (out @ pool_ids d) \<subseteq> new_id E ` {..<drawn d} \<and>
     (\<forall>i\<in>set (pool_ids d). untouched (dmgr d) (id_text E i))"

lemma provision_inv:
  assumes inv: "pool_inv W E d out" and ids: "inj (id_text E)" "inj_on (new_id E) {..<drawn (snd (provision W E d))}"
  shows "pool_inv W E (snd (provision W E d)) out"
proof -
  let ?i = "new_id E (drawn d)" and ?t = "pool_template (warm_pool d)"
  obtain r m where c: "create W (id_text E ?i) (pool_spec ?t ?i) (dmgr d) = (r, m)" by force
  have "drawn (snd (provision W E d)) = drawn d + 1" by (auto simp: provision_def Let_def c split: sum.splits)
  then have inj: "inj_on (new_id E) {..<Suc (drawn d)}" using ids(2) by simp
  then have "?i \<notin> new_id E ` {..<drawn d}" by (auto dest!: inj_onD)
  then have new: "?i \<notin> set (out @ pool_ids d)" using inv unfolding pool_inv_def by blast
  have run: "manager_run W m"
    using manager_run.call [of W "dmgr d" "Create (id_text E ?i) (pool_spec ?t ?i)"] inv by (simp add: pool_inv_def c)
  have sub: "set (out @ pool_ids d) \<subseteq> new_id E ` {..<Suc (drawn d)}" using inv by (force simp: pool_inv_def)
  have keep: "untouched m (id_text E j)" if "j \<in> set (pool_ids d)" for j
  proof -
    have "id_text E j \<noteq> id_text E ?i" using that new ids(1) by (auto dest: injD)
    from frame_create [OF this, unfolded keeps_def, rule_format, of "dmgr d"] c
    have "registry m (id_text E j) = registry (dmgr d) (id_text E j)" by (metis snd_conv)
    then show ?thesis using inv that by (simp add: pool_inv_def untouched_def)
  qed
  show ?thesis
  proof (cases r)
    case (Inl e)
    then have "snd (provision W E d) = d\<lparr>dmgr := m, drawn := drawn d + 1\<rparr>" by (simp add: provision_def Let_def c)
    then show ?thesis using inv run sub keep by (simp add: pool_inv_def pool_ids_def)
  next
    case (Inr u)
    have "untouched m (id_text E ?i)" using create_result [OF c] Inr by (auto intro: untouchedI)
    moreover have "pool_ids (snd (provision W E d)) = pool_ids d @ [?i]" "drawn (snd (provision W E d)) = Suc (drawn d)"
      "dmgr (snd (provision W E d)) = m"
      using Inr by (simp_all add: provision_def Let_def c pool_ids_def push_entry_def)
    ultimately show ?thesis using inv run sub keep new by (auto simp: pool_inv_def)
  qed
qed

lemma acquire_effect:
  assumes "acquire E d = (r, d')"
  shows "dmgr d' = dmgr d" "drawn d' = drawn d"
    "(case r of None \<Rightarrow> [] | Some i \<Rightarrow> [i]) @ rev (pool_ids d') = rev (map pe_id (fresh_entries (now E (readings d)) (warm_pool d)))"
proof -
  let ?es = "fresh_entries (now E (readings d)) (warm_pool d)"
  show "dmgr d' = dmgr d" "drawn d' = drawn d" using assms by (auto simp: acquire_def Let_def split: if_splits)
  show "(case r of None \<Rightarrow> [] | Some i \<Rightarrow> [i]) @ rev (pool_ids d') = rev (map pe_id ?es)"
    using assms by (cases ?es rule: rev_cases) (auto simp: acquire_def Let_def pool_ids_def)
qed

lemma acquire_inv:
  assumes "pool_inv W E d out" "acquire E d = (r, d')"
  shows "pool_inv W E d' (out @ (case r of None \<Rightarrow> [] | Some i \<Rightarrow> [i]))"
proof -
  let ?es = "fresh_entries (now E (readings d)) (warm_pool d)" and ?o = "case r of None \<Rightarrow> [] | Some i \<Rightarrow> [i]"
  have split: "?o @ rev (pool_ids d') = rev (map pe_id ?es)" by (rule acquire_effect(3) [OF assms(2)])
  have es: "set (map pe_id ?es) \<subseteq> set (pool_ids d)" "distinct (pool_ids d) \<Longrightarrow> distinct (map pe_id ?es)"
    by (auto simp: pool_ids_def fresh_entries_def distinct_map inj_on_def)
  have "set ?o \<union> set (pool_ids d') = set (map pe_id ?es)" using arg_cong [OF split, of set] by simp
  with es(1) have sub: "set ?o \<union> set (pool_ids d') \<subseteq> set (pool_ids d)" by blast
  have "distinct (?o @ pool_ids d') = distinct (map pe_id ?es)" using arg_cong [OF split, of distinct] by auto
  then have "distinct (?o @ pool_ids d')" using es(2) assms(1) by (simp add: pool_inv_def)
  moreover have "distinct out" "set out \<inter> set (pool_ids d) = {}" using assms(1) by (simp_all add: pool_inv_def)
  ultimately have "distinct (out @ ?o @ pool_ids d')"
    using sub distinct_append [of out "?o @ pool_ids d'"] set_append [of ?o "pool_ids d'"] by blast
  then have "distinct ((out @ ?o) @ pool_ids d')" by (simp only: append_assoc)
  moreover have "set ((out @ ?o) @ pool_ids d') \<subseteq> set (out @ pool_ids d)" "set (pool_ids d') \<subseteq> set (pool_ids d)" using sub by auto
  ultimately show ?thesis
    using assms(1) acquire_effect(1,2) [OF assms(2)] unfolding pool_inv_def by (intro conjI) (simp_all only:, blast+)
qed

lemma daemon_run_inv:
  "daemon_run W E d out \<Longrightarrow> inj (id_text E) \<Longrightarrow> inj_on (new_id E) {..<drawn d} \<Longrightarrow> pool_inv W E d out"
proof (induction rule: daemon_run.induct)
  case (start m ids t)
  then show ?case by (simp add: pool_inv_def daemon_new_def warm_pool_new_def pool_ids_def)
next
  case (provision d out)
  have "drawn d \<le> drawn (snd (provision W E d))" by (auto simp: provision_def Let_def split: sum.splits prod.splits)
  then have "inj_on (new_id E) {..<drawn d}" using provision.prems(2) by (rule_tac inj_on_subset) auto
  then show ?case by (intro provision_inv provision.IH provision.prems)
next
  case (acquire d out r d')
  then show ?case using acquire_inv acquire_effect(2) by metis
next
  case (draw d out)
  have "inj_on (new_id E) {..<drawn d}" using draw.prems(2) by (rule_tac inj_on_subset) auto
  then show ?case using draw by (force simp: pool_inv_def pool_ids_def)
next
  case (call d out c)
  have "untouched (run_call W c (dmgr d)) (id_text E i)" if "i \<in> set (pool_ids d)" "untouched (dmgr d) (id_text E i)" for i
  proof -
    have "call_target c \<noteq> Some (id_text E i)" using that(1) call.hyps(2) by (auto simp: pool_ids_def)
    then show ?thesis using that(2) by (simp add: untouched_def call_frame)
  qed
  then show ?case using call.IH call.prems by (simp add: pool_inv_def pool_ids_def manager_run.call)
next
  case (task d out ret cg hk v k' ev)
  then show ?case by (simp add: pool_inv_def pool_ids_def untouched_def manager_run.task)
qed

section \<open>What the pool promises\<close>


text \<open>A refill that returns has filled the pool, and reports how many sandboxes it made.\<close>

lemma refill_loop_fills:
  "refill_loop W E n k d = (Inr p, d') \<Longrightarrow>
     p = k + n \<and> length (pool_entries (warm_pool d')) = length (pool_entries (warm_pool d)) + n \<and>
     target_depth (warm_pool d') = target_depth (warm_pool d)"
proof (induction n arbitrary: k d)
  case (Suc n)
  then obtain u d1 where 1: "provision W E d = (Inr u, d1)" "refill_loop W E n (k + 1) d1 = (Inr p, d')" by (auto simp: sbind_Inr_iff)
  have "length (pool_entries (warm_pool d1)) = Suc (length (pool_entries (warm_pool d)))" "target_depth (warm_pool d1) = target_depth (warm_pool d)"
    using 1(1) by (auto simp: provision_def Let_def push_entry_def split: sum.splits prod.splits)
  then show ?case using Suc.IH [OF 1(2)] by simp
qed simp

theorem refill_fills:
  assumes "refill W E d = (Inr n, d')"
  shows "pool_depth (warm_pool d') = max (target_depth (warm_pool d)) (pool_depth (warm_pool d)) \<and>
    n = target_depth (warm_pool d) - pool_depth (warm_pool d)"
  using refill_loop_fills [OF assms [unfolded refill_def]] by (simp add: pool_depth_def max_def)

lemma refill_loop_run: "daemon_run W E d out \<Longrightarrow> daemon_run W E (snd (refill_loop W E n k d)) out"
proof (induction n arbitrary: k d)
  case (Suc n)
  obtain r d1 where p: "provision W E d = (r, d1)" by force
  then have "daemon_run W E d1 out" using daemon_run.provision [OF Suc.prems] by simp
  then show ?case using p Suc.IH by (cases r) (simp_all add: sbind_def)
qed (simp add: sreturn_def)

text \<open>
  A whole refill is one of the histories. An entry that is too old leaves the pool but its sandbox stays with the manager: nothing destroys
  it, and nobody holds its identifier.
\<close>

lemma refill_run: "daemon_run W E d out \<Longrightarrow> daemon_run W E (snd (refill W E d)) out"
  by (simp add: refill_def refill_loop_run)

theorem expired_entry_leaks:
  assumes "acquire E d = (r, d')" "e \<in> set (pool_entries (warm_pool d))" "max_age (warm_pool d) \<le> now E (readings d) - pe_created e"
    "distinct (pool_ids d)"
  shows "pe_id e \<notin> set (pool_ids d') \<and> r \<noteq> Some (pe_id e) \<and> dmgr d' = dmgr d"
proof -
  let ?es = "fresh_entries (now E (readings d)) (warm_pool d)"
  have "pe_id e \<notin> pe_id ` set ?es"
  proof
    assume "pe_id e \<in> pe_id ` set ?es"
    then obtain e' where "e' \<in> set ?es" "pe_id e' = pe_id e" by auto
    moreover from this have "e' \<in> set (pool_entries (warm_pool d))" by (simp add: fresh_entries_def)
    ultimately have "e' = e" using assms(2,4) by (auto simp: pool_ids_def distinct_map dest: inj_onD)
    then show False using \<open>e' \<in> set ?es\<close> assms(3) by (simp add: fresh_entries_def)
  qed
  then show ?thesis using arg_cong [OF acquire_effect(3) [OF assms(1)], of set] acquire_effect(1) [OF assms(1)] by auto
qed

section \<open>Starting only enforced\<close>

text \<open>
  C27. The manager starts only on a host that can enforce. When \<^verbatim>\<open>SandboxManager::new\<close> succeeds on a fresh process, cgroup v2 and at
  least one controller are there, an overlay was mounted, Landlock has a version of at least 1, all BPF objects are loaded with every LSM program
  attached, and the maps the manager writes are the maps the hooks read. The manager starts with no sandbox and its first turn is 1;
  only old, empty cgroups with a name of the form of a sandbox identifier are removed.
\<close>
theorem manager_starts_enforced:
  assumes "libbpf_api L" "once p = None" "sandbox_manager_new E L contents c cgroups p = (Inr (abi, m, removed), p')"
  shows "probe_cgroup_v2 E \<and> probe_controllers E \<noteq> [] \<and> fst (probe_overlayfs E) \<and> 0 \<le> landlock_version E \<and> 1 \<le> abi \<and>
    registry m = Map.empty \<and> next_turn_id m = 1 \<and>
    (\<forall>name\<in>set removed. length name = 36 \<and> CHR ''-'' \<in> set name) \<and>
    (\<exists>P mm. programs p' = Some P \<and> length (objects P) = length OBJECTS \<and> bpf m = manager_new (contents mm) \<and>
      (\<forall>obj\<in>set (objects P). (\<forall>n i. (n, OtherType, i) \<in> set (obj_progs obj) \<longrightarrow> 0 < lsm_count (kstate p') i) \<and>
        (\<forall>i. ((''sandboxes'', i) \<in> set (obj_maps obj) \<longrightarrow> i = bm_sandboxes mm) \<and> ((''fs_rules'', i) \<in> set (obj_maps obj) \<longrightarrow> i = bm_fs_rules mm) \<and>
          ((''exec_rules'', i) \<in> set (obj_maps obj) \<longrightarrow> i = bm_exec_rules mm) \<and> ((''net_rules'', i) \<in> set (obj_maps obj) \<longrightarrow> i = bm_net_rules mm))))"
proof -
  from assms(3) obtain mm where s: "check_hard_requirements (probe_all E) = Inr ()" "probe_landlock_abi E 1 = Inr abi"
    "enforcement L p = (Inr mm, p')" "m = mgr_new (contents mm) c" "removed = clean_orphan_cgroups cgroups"
    by (auto simp: sandbox_manager_new_def split: sum.splits prod.splits)
  have "probe_cgroup_v2 E \<and> probe_controllers E \<noteq> [] \<and> fst (probe_overlayfs E)"
    using s(1) by (auto simp: check_hard_requirements_def probe_all_def split: if_splits)
  moreover have "0 \<le> landlock_version E" "\<not> abi < 1" using s(2) by (auto simp: probe_landlock_abi_def Let_def split: if_splits)
  moreover have "\<forall>name\<in>set removed. length name = 36 \<and> CHR ''-'' \<in> set name"
    using s(5) by (auto simp: clean_orphan_cgroups_def is_orphan_def split: option.splits)
  moreover obtain P where "programs p' = Some P" "length (objects P) = length OBJECTS"
    "\<forall>obj\<in>set (objects P). \<forall>n i. (n, OtherType, i) \<in> set (obj_progs obj) \<longrightarrow> 0 < lsm_count (kstate p') i"
    "\<forall>obj\<in>set (objects P). \<forall>i.
       ((''sandboxes'', i) \<in> set (obj_maps obj) \<longrightarrow> i = bm_sandboxes mm) \<and> ((''fs_rules'', i) \<in> set (obj_maps obj) \<longrightarrow> i = bm_fs_rules mm) \<and>
       ((''exec_rules'', i) \<in> set (obj_maps obj) \<longrightarrow> i = bm_exec_rules mm) \<and> ((''net_rules'', i) \<in> set (obj_maps obj) \<longrightarrow> i = bm_net_rules mm)"
    using enforced_maps [OF assms(1,2) s(3)] by blast
  ultimately show ?thesis
    using s(4) not_less [of abi 1] by (intro conjI exI [of _ P] exI [of _ mm]) (simp_all add: mgr_new_def)
qed

section \<open>A concrete daemon\<close>

definition witness_probe :: probe_env where
  "witness_probe =
     \<lparr>uname_r = Some ''6.1.0'', path_exists = (\<lambda>_. True), list_dir = (\<lambda>_. Some []), read_text = (\<lambda>_. Some ''cpu memory pids''),
      clone3_errno = Some 22, can_mkdir = (\<lambda>_. True), can_mount = (\<lambda>_ _. True), scratch_dir = ''/tmp/p'', landlock_version = 4\<rparr>"

lemma witness_probe_ok: "check_hard_requirements (probe_all witness_probe) = Inr ()" "probe_landlock_abi witness_probe 1 = Inr 4"
  by (simp_all add: check_hard_requirements_def probe_all_def probe_cgroup_v2_def probe_controllers_def split_whitespace_def is_ws_def
      probe_overlayfs_def Let_def try_mount_overlay_def has_nul_def probe_landlock_abi_def witness_probe_def)

theorem manager_starts_enforced_witness:
  "\<exists>abi m removed p' P. sandbox_manager_new witness_probe sample_libbpf (\<lambda>_. empty_maps) \<lparr>c_clock = 0, c_millis = 0, c_ops = []\<rparr> None sample_process =
       (Inr (abi, m, removed), p') \<and> 1 \<le> abi \<and> registry m = Map.empty \<and> programs p' = Some P \<and> length (objects P) = 5"
proof -
  obtain mm p' where e: "enforcement sample_libbpf sample_process = (Inr mm, p')" using sample_enforced by (metis prod.collapse)
  define m where "m = mgr_new empty_maps \<lparr>c_clock = 0, c_millis = 0, c_ops = []\<rparr>"
  have s: "sandbox_manager_new witness_probe sample_libbpf (\<lambda>_. empty_maps) \<lparr>c_clock = 0, c_millis = 0, c_ops = []\<rparr> None sample_process =
      (Inr (4, m, []), p')"
    by (simp add: sandbox_manager_new_def witness_probe_ok e m_def clean_orphan_cgroups_def)
  have "once sample_process = None" by (simp add: sample_process_def)
  from manager_starts_enforced [OF sample.libbpf_api_axioms this s] s show ?thesis by (auto simp: OBJECTS_def)
qed

definition witness_env :: pool_env where
  "witness_env = \<lparr>new_id = of_nat, id_text = (\<lambda>i. CHR ''s'' # replicate (unat i) CHR ''x''), now = (\<lambda>n. n)\<rparr>"

definition witness_d0 :: "bit_trie Daemon" where
  "witness_d0 = daemon_new witness_m0 0 0"

definition witness_d1 :: "bit_trie Daemon" where
  "witness_d1 = snd (provision witness_world witness_env witness_d0)"

lemma witness_d1_run: "daemon_run witness_world witness_env witness_d1 []"
  unfolding witness_d1_def witness_d0_def witness_m0_def by (intro daemon_run.provision daemon_run.start manager_run.new)

lemma witness_pool_limits: "\<exists>c'. apply_limits witness_cgroup_kernel witness_cg ResourceLimits_default c = (Inr (), c')"
  by (simp add: apply_limits_def limit_writes_def memory_high_of_def ResourceLimits_default_def sbind_def write_file_def c_access_def
      witness_cgroup_kernel_def sreturn_def)

lemma witness_provisioned: "pool_entries (warm_pool witness_d1) = [\<lparr>pe_id = 0, pe_created = 0\<rparr>]" "drawn witness_d1 = 1" "readings witness_d1 = 1"
    "max_age (warm_pool witness_d1) = 300000000000"
proof -
  let ?c0 = "\<lparr>c_clock = 0, c_millis = 0, c_ops = []\<rparr>"
  obtain c where c: "cgroup_create witness_cgroup_kernel CGROUP_ROOT ''s'' ?c0 = (Inr witness_cg, c)" using witness_cgroup_create [of ?c0] by auto
  obtain c' where l: "apply_limits witness_cgroup_kernel witness_cg ResourceLimits_default c = (Inr (), c')" using witness_pool_limits by blast
  obtain b where reg: "register_sandbox sample_kernel 2 (manager_new empty_maps) = (Inr (), b)"
    using witness_register by (metis prod.collapse)
  have "\<exists>m. create witness_world ''s'' (pool_spec ''base'' 0) witness_m0 = (Inr ''s'', m)"
    by (simp add: create_def sbind_def on_cgfs_def on_bpf_def witness_world_def witness_m0_def mgr_new_def c pool_spec_def l
        l [unfolded witness_cg_def] witness_cg_def reg rootfs_prepare_def Let_def mmodify_def sreturn_def)
  then show "pool_entries (warm_pool witness_d1) = [\<lparr>pe_id = 0, pe_created = 0\<rparr>]" "drawn witness_d1 = 1" "readings witness_d1 = 1"
      "max_age (warm_pool witness_d1) = 300000000000"
    by (auto simp: witness_d1_def provision_def witness_d0_def daemon_new_def warm_pool_new_def witness_env_def WARM_POOL_TEMPLATE_def Let_def
        push_entry_def)
qed


end
