(* ===== verification/Float64.thy ===== *)
theory Float64
  imports Prelude Complex_Main "HOL-Library.Log_Nat"
begin

text \<open>
  The arithmetic of \<^verbatim>\<open>f64\<close> that the command line uses: reading decimal text, multiplication, and conversion from and to
  \<^verbatim>\<open>u64\<close>. A finite number is the rational it stands for, and every operation rounds the exact result to the nearest binary64 number,
  ties to even. The sign of zero is left out: no conversion to an integer shows it.
\<close>

section \<open>Rounding\<close>

datatype f64 = Fin rat | Inf bool | NaN

definition pow2 :: "int \<Rightarrow> rat" where
  "pow2 e = (if 0 \<le> e then 2 ^ nat e else 1 / 2 ^ nat (- e))"

text \<open>The exponent of a positive rational: the bit lengths of numerator and denominator give it up to one.\<close>

definition exp_of :: "rat \<Rightarrow> int" where
  "exp_of x =
     (let (n, d) = quotient_of x; k = int (floorlog 2 (nat n)) - int (floorlog 2 (nat d))
      in if pow2 k \<le> x then k else k - 1)"

definition round_half_even :: "rat \<Rightarrow> int" where
  "round_half_even x =
     (let f = \<lfloor>x\<rfloor>; r = x - of_int f
      in if r < 1 / 2 then f else if r > 1 / 2 then f + 1 else if even f then f else f + 1)"

text \<open>53 bits of precision, exponents from \<open>-1074\<close>, overflow at \<open>2 ^ 1024\<close>.\<close>

definition round64 :: "rat \<Rightarrow> f64" where
  "round64 x =
     (if x = 0 then Fin 0
      else let e = max (- 1074) (exp_of \<bar>x\<bar> - 52);
               v = of_int (round_half_even (\<bar>x\<bar> / pow2 e)) * pow2 e
           in if v \<ge> 2 ^ 1024 then Inf (x < 0) else Fin (sgn x * v))"

section \<open>Operations\<close>

fun f64_neg :: "f64 \<Rightarrow> bool" where
  "f64_neg (Fin q) = (q < 0)"
| "f64_neg (Inf s) = s"
| "f64_neg NaN = False"

fun f64_mul :: "f64 \<Rightarrow> f64 \<Rightarrow> f64" where
  "f64_mul NaN y = NaN"
| "f64_mul x NaN = NaN"
| "f64_mul (Fin a) (Fin b) = round64 (a * b)"
| "f64_mul (Inf s) (Fin b) = (if b = 0 then NaN else Inf (s \<noteq> (b < 0)))"
| "f64_mul (Fin a) (Inf s) = (if a = 0 then NaN else Inf (s \<noteq> (a < 0)))"
| "f64_mul (Inf s) (Inf t) = Inf (s \<noteq> t)"

definition u64_as_f64 :: "u64 \<Rightarrow> f64" where
  "u64_as_f64 n = round64 (of_nat (unat n))"

text \<open>\<^verbatim>\<open>as u64\<close> truncates and saturates; a NaN becomes zero.\<close>

fun f64_as_u64 :: "f64 \<Rightarrow> u64" where
  "f64_as_u64 (Fin q) = (if q < 1 then 0 else if q \<ge> 2 ^ 64 then - 1 else of_int \<lfloor>q\<rfloor>)"
| "f64_as_u64 (Inf neg) = (if neg then 0 else - 1)"
| "f64_as_u64 NaN = 0"

section \<open>Reading\<close>

definition is_digit :: "char \<Rightarrow> bool" where
  "is_digit c \<longleftrightarrow> to_digit 10 c \<noteq> None"

definition digits_nat :: "string \<Rightarrow> nat" where
  "digits_nat s = the (digits_value 10 0 s)"

text \<open>An optional sign, and the rest.\<close>

definition take_sign :: "string \<Rightarrow> bool \<times> string" where
  "take_sign s = (case s of c # r \<Rightarrow> if c = CHR ''-'' then (True, r) else if c = CHR ''+'' then (False, r) else (False, s) | [] \<Rightarrow> (False, []))"

definition parse_exponent :: "string \<Rightarrow> int option" where
  "parse_exponent s =
     (case s of
        [] \<Rightarrow> Some 0
      | c # r \<Rightarrow>
          if c = CHR ''e'' \<or> c = CHR ''E'' then
            (let (neg, ds) = take_sign r
             in if ds = [] \<or> \<not> list_all is_digit ds then None
                else Some (if neg then - int (digits_nat ds) else int (digits_nat ds)))
          else None)"

definition pow10 :: "int \<Rightarrow> rat" where
  "pow10 e = (if 0 \<le> e then 10 ^ nat e else 1 / 10 ^ nat (- e))"

text \<open>\<^verbatim>\<open>f64::from_str\<close>: the special names in any case, or digits with an optional point and exponent.\<close>

definition parse_f64 :: "string \<Rightarrow> f64 option" where
  "parse_f64 s =
     (let (neg, r) = take_sign s; l = to_ascii_lowercase r
      in if l = ''inf'' \<or> l = ''infinity'' then Some (Inf neg)
         else if l = ''nan'' then Some NaN
         else
           (let ip = takeWhile is_digit r; r1 = dropWhile is_digit r;
                (fp, r2) = (case r1 of c # t \<Rightarrow> if c = CHR ''.'' then (takeWhile is_digit t, dropWhile is_digit t) else ([], r1) | [] \<Rightarrow> ([], []))
            in if ip = [] \<and> fp = [] then None
               else case parse_exponent r2 of
                      None \<Rightarrow> None
                    | Some e \<Rightarrow>
                        (let q = of_nat (digits_nat (ip @ fp)) * pow10 (e - int (length fp))
                         in Some (round64 (if neg then - q else q)))))"

section \<open>Exactness\<close>

lemma pow2_pos [simp]: "0 < pow2 e"
  by (simp add: pow2_def)

lemma pow2_nonzero [simp]: "pow2 e \<noteq> 0"
  using pow2_pos [of e] by (simp del: pow2_pos)

lemma pow2_int [simp]: "pow2 (int n) = 2 ^ n"
  by (simp add: pow2_def)

lemma pow2_Suc: "pow2 (e + 1) = 2 * pow2 e"
proof (cases "0 \<le> e")
  case True
  then show ?thesis by (simp add: pow2_def nat_add_distrib)
next
  case False
  define k where "k = nat (- e - 1)"
  have "e = - int k - 1" "nat (- e) = Suc k" using False by (auto simp: k_def)
  then show ?thesis by (auto simp: pow2_def)
qed

lemma pow2_add_nat: "pow2 (e + int n) = pow2 e * 2 ^ n"
proof (induction n)
  case (Suc n)
  have "pow2 (e + int (Suc n)) = pow2 (e + int n + 1)" by (simp add: algebra_simps)
  then show ?case using Suc by (simp add: pow2_Suc)
qed simp

lemma pow2_mono: "a \<le> b \<Longrightarrow> pow2 a \<le> pow2 b"
proof -
  assume "a \<le> b"
  then obtain n where "b = a + int n" using zle_iff_zadd by blast
  then show ?thesis by (simp add: pow2_add_nat)
qed

lemma pow2_less_cancel: "pow2 a < pow2 b \<Longrightarrow> a < b"
  using pow2_mono by (meson linorder_not_less)

lemma pow2_diff: "pow2 (int a - int b) = 2 ^ a / 2 ^ b"
proof (cases "b \<le> a")
  case True
  then have "pow2 (int a - int b) = 2 ^ (a - b)" by (simp add: pow2_def nat_diff_distrib)
  then show ?thesis using True by (simp add: power_diff)
next
  case False
  then have "pow2 (int a - int b) = 1 / 2 ^ (b - a)" by (simp add: pow2_def nat_diff_distrib)
  then show ?thesis using False by (simp add: power_diff)
qed

lemma exp_of_bounds:
  assumes "0 < x"
  shows "pow2 (exp_of x) \<le> x" "x < pow2 (exp_of x + 1)"
proof -
  obtain n d where q: "quotient_of x = (n, d)" by force
  have d: "0 < d" and x: "x = of_int n / of_int d" using q quotient_of_denom_pos quotient_of_div by auto
  have n: "0 < n" using assms d by (simp add: x zero_less_divide_iff)
  define a where "a = floorlog 2 (nat n)"
  define b where "b = floorlog 2 (nat d)"
  have na: "2 ^ (a - 1) \<le> nat n" "nat n < 2 ^ a" and db: "2 ^ (b - 1) \<le> nat d" "nat d < 2 ^ b"
    using n d floorlog_bounds [of "nat n" 2] floorlog_bounds [of "nat d" 2] by (simp_all add: a_def b_def)
  have pos: "0 < a" "0 < b" using n d by (auto simp: a_def b_def floorlog_def)
  have na': "2 ^ (a - 1) \<le> (of_int n :: rat)" "(of_int n :: rat) < 2 ^ a" and db': "2 ^ (b - 1) \<le> (of_int d :: rat)" "(of_int d :: rat) < 2 ^ b"
    using na db n d
    by (metis (mono_tags) int_nat_eq of_int_of_nat_eq of_nat_le_iff of_nat_less_iff of_nat_numeral of_nat_power order_less_imp_le)+
  let ?k = "int a - int b"
  have "x < 2 ^ a / 2 ^ (b - 1)"
    unfolding x using na'(2) db'(1) n d by (intro frac_less) simp_all
  also have "\<dots> = pow2 (?k + 1)"
    using pos(2) pow2_diff [of a "b - 1"] by (simp add: of_nat_diff algebra_simps)
  finally have up: "x < pow2 (?k + 1)" .
  have "pow2 (?k - 1) = 2 ^ (a - 1) / 2 ^ b"
    using pos(1) pow2_diff [of "a - 1" b] by (simp add: of_nat_diff algebra_simps)
  also have "\<dots> \<le> x" unfolding x using na'(1) db'(2) n d by (intro frac_le) simp_all
  finally have low: "pow2 (?k - 1) \<le> x" .
  have "exp_of x = (if pow2 ?k \<le> x then ?k else ?k - 1)" by (simp add: exp_of_def q a_def b_def)
  then show "pow2 (exp_of x) \<le> x" "x < pow2 (exp_of x + 1)" using up low by (auto split: if_splits)
qed

lemma exp_of_unique:
  assumes "pow2 k \<le> x" "x < pow2 (k + 1)"
  shows "exp_of x = k"
proof -
  have "0 < x" using assms(1) pow2_pos [of k] by (rule less_le_trans [rotated])
  note b = exp_of_bounds [OF this]
  have "k < exp_of x + 1" "exp_of x < k + 1" using pow2_less_cancel [OF le_less_trans [OF assms(1) b(2)]] pow2_less_cancel [OF le_less_trans [OF b(1) assms(2)]] .
  then show ?thesis by simp
qed

lemma round_half_even_int [simp]: "round_half_even (of_int k) = k"
  by (simp add: round_half_even_def)

lemma round_half_even_near: "\<bar>of_int (round_half_even x) - x\<bar> \<le> 1 / 2"
proof -
  have "of_int \<lfloor>x\<rfloor> \<le> x" "x < of_int \<lfloor>x\<rfloor> + 1" by linarith+
  then show ?thesis unfolding round_half_even_def Let_def abs_le_iff by (simp split: if_split; linarith)
qed

text \<open>The result of rounding is within half a unit in the last place.\<close>

lemma round64_near:
  assumes "round64 x = Fin y" "x \<noteq> 0"
  shows "\<bar>y - x\<bar> \<le> pow2 (max (- 1074) (exp_of \<bar>x\<bar> - 52)) / 2"
proof -
  let ?e = "max (- 1074) (exp_of \<bar>x\<bar> - 52)"
  let ?r = "of_int (round_half_even (\<bar>x\<bar> / pow2 ?e)) :: rat"
  have y: "y = sgn x * (?r * pow2 ?e)" using assms by (auto simp: round64_def Let_def split: if_splits)
  have "y - x = sgn x * (?r * pow2 ?e - \<bar>x\<bar>)" by (simp add: y right_diff_distrib sgn_mult_abs)
  then have "\<bar>y - x\<bar> = \<bar>?r * pow2 ?e - \<bar>x\<bar>\<bar>" using assms(2) by (simp add: abs_mult abs_sgn_eq)
  also have "\<dots> = \<bar>(?r - \<bar>x\<bar> / pow2 ?e) * pow2 ?e\<bar>" by (simp add: left_diff_distrib)
  also have "\<dots> = \<bar>?r - \<bar>x\<bar> / pow2 ?e\<bar> * pow2 ?e" by (simp add: abs_mult abs_of_pos [OF pow2_pos])
  also have "\<dots> \<le> 1 / 2 * pow2 ?e" by (intro mult_right_mono round_half_even_near) (simp add: less_imp_le)
  finally show ?thesis by simp
qed

text \<open>A number of at most 53 bits, scaled by a power of two, is kept.\<close>

lemma round64_exact:
  assumes "n < 2 ^ 53" "(of_nat n :: rat) * 2 ^ j < 2 ^ 1024"
  shows "round64 (of_nat n * 2 ^ j) = Fin (of_nat n * 2 ^ j)"
proof (cases "n = 0")
  case True
  then show ?thesis by (simp add: round64_def)
next
  case False
  define x where "x = (of_nat n * 2 ^ j :: rat)"
  have x: "0 < x" using False by (simp add: x_def)
  have "(of_nat n :: rat) < 2 ^ 53" using assms(1) by (metis of_nat_less_iff of_nat_numeral of_nat_power)
  then have "x < 2 ^ 53 * 2 ^ j" by (simp add: x_def)
  also have "\<dots> = pow2 (int (53 + j))" by (simp only: pow2_int power_add)
  finally have "pow2 (exp_of x) < pow2 (int (53 + j))" using exp_of_bounds(1) [OF x] by linarith
  then have "exp_of x - 52 \<le> int j" by (auto dest!: pow2_less_cancel)
  define e where "e = max (- 1074) (exp_of x - 52)"
  have "e \<le> int j" using \<open>exp_of x - 52 \<le> int j\<close> by (simp add: e_def)
  then obtain k where k: "int j = e + int k" using zle_iff_zadd by blast
  have "x = of_nat n * (pow2 e * 2 ^ k)" using pow2_add_nat [of e k] by (simp add: x_def flip: k)
  then have "x / pow2 e = of_int (int n * 2 ^ k)" by simp
  then have "of_int (round_half_even (x / pow2 e)) * pow2 e = x" by (metis nonzero_eq_divide_eq pow2_nonzero round_half_even_int)
  then show ?thesis using x assms(2) by (simp add: round64_def Let_def flip: x_def e_def)
qed

lemma is_digit_digit_char: "d < 10 \<Longrightarrow> is_digit (digit_char d)"
  by (simp add: is_digit_def)

lemma show_uint_is_digit: "c \<in> set (show_uint n) \<Longrightarrow> is_digit c"
  using show_uint_digits is_digit_digit_char by blast

lemma not_digit_head: "\<not> is_digit c \<Longrightarrow> show_uint n \<noteq> c # r"
  by (metis list.set_intros(1) show_uint_is_digit)

lemma take_sign_show_uint [simp]: "take_sign (show_uint n) = (False, show_uint n)"
proof -
  obtain c r where c: "show_uint n = c # r" by (cases "show_uint n") simp_all
  moreover have "is_digit c" using c show_uint_is_digit [of c n] by simp
  ultimately show ?thesis by (auto simp: take_sign_def is_digit_def to_digit_def)
qed

lemma lower_digits: "to_ascii_lowercase (show_uint n) = show_uint n"
proof -
  have "ascii_lower_char c = c" if "c \<in> set (show_uint n)" for c
  proof -
    from that obtain d where "d < 10" "c = digit_char d" using show_uint_digits by blast
    then show ?thesis by (simp add: ascii_lower_char_def)
  qed
  then show ?thesis by (simp add: to_ascii_lowercase_def map_idI)
qed

lemma parse_f64_show_uint: "parse_f64 (show_uint n) = Some (round64 (of_nat n))"
proof -
  have t: "takeWhile is_digit (show_uint n) = show_uint n" "dropWhile is_digit (show_uint n) = []"
    using show_uint_is_digit by (auto simp: takeWhile_eq_all_conv)
  have "show_uint n \<noteq> ''inf''" "show_uint n \<noteq> ''infinity''" "show_uint n \<noteq> ''nan''"
    by (intro not_digit_head; simp add: is_digit_def to_digit_def)+
  then show ?thesis
    by (simp add: parse_f64_def lower_digits t parse_exponent_def pow10_def digits_nat_def digits_value_show_uint)
qed

lemma f64_as_u64_nat: "f64_as_u64 (Fin (of_nat m)) = of_nat (min m (2 ^ 64 - 1))"
proof (cases "m < 2 ^ 64")
  case True
  then have "(of_nat m :: rat) < 2 ^ 64" by (metis of_nat_less_iff of_nat_numeral of_nat_power)
  then show ?thesis using True by (cases "m = 0") (auto simp: min_def not_le)
next
  case False
  then have "(2 :: rat) ^ 64 \<le> of_nat m" by (metis of_nat_le_iff of_nat_numeral of_nat_power not_less)
  moreover have "\<not> (of_nat m :: rat) < 1" using False by (cases m) simp_all
  moreover have "min m (2 ^ 64 - 1) = 2 ^ 64 - 1" using False by (simp add: min_def)
  ultimately show ?thesis by simp
qed

end
