(* ===== verification/Cli.thy ===== *)
theory Cli
  imports Daemon Float64
begin

text \<open>
  The command line (\<^verbatim>\<open>aivisor-cli/src/main.rs\<close>). Every invocation builds a manager of its own, so the commands are functions
  of a fresh one. The text of identifiers is read by the \<^verbatim>\<open>uuid\<close> crate, a parameter; the policy file is read and parsed
  before (see the policy parser). What is only printed is left out, but for the line that reports an outcome.
\<close>

section \<open>Durations\<close>

text \<open>Durations in milliseconds. Multiplication of \<^verbatim>\<open>u64\<close> wraps, as in a release build.\<close>

definition duration_number :: "string \<Rightarrow> string \<Rightarrow> string + u64" where
  "duration_number s digits = ok_or (''invalid duration: '' @ s) (map_option of_nat (parse_uint 64 digits))"

definition parse_duration :: "string \<Rightarrow> string + nat" where
  "parse_duration s0 =
     (let s = trim s0
      in case strip_suffix s ''s'' of
           Some stripped \<Rightarrow> rbind (duration_number s stripped) (\<lambda>secs. Inr (unat secs * 1000))
         | None \<Rightarrow>
       (case strip_suffix s ''ms'' of
           Some stripped \<Rightarrow> rbind (duration_number s stripped) (\<lambda>ms. Inr (unat ms))
         | None \<Rightarrow>
       (case strip_suffix s ''m'' of
           Some stripped \<Rightarrow> rbind (duration_number s stripped) (\<lambda>mins. Inr (unat (mins * 60) * 1000))
         | None \<Rightarrow>
       (case strip_suffix s ''h'' of
           Some stripped \<Rightarrow> rbind (duration_number s stripped) (\<lambda>hrs. Inr (unat (hrs * 3600) * 1000))
         | None \<Rightarrow> Inl (''invalid duration: '' @ s)))))"

section \<open>Sizes and processors\<close>

definition size_unit :: "string \<Rightarrow> string \<times> u64" where
  "size_unit s =
     (case strip_suffix s ''Gi'' of Some t \<Rightarrow> (t, 1073741824) | None \<Rightarrow>
     (case strip_suffix s ''Mi'' of Some t \<Rightarrow> (t, 1048576) | None \<Rightarrow>
     (case strip_suffix s ''Ki'' of Some t \<Rightarrow> (t, 1024) | None \<Rightarrow>
     (case strip_suffix s ''G'' of Some t \<Rightarrow> (t, 1000000000) | None \<Rightarrow>
     (case strip_suffix s ''M'' of Some t \<Rightarrow> (t, 1000000) | None \<Rightarrow>
     (case strip_suffix s ''K'' of Some t \<Rightarrow> (t, 1000) | None \<Rightarrow> (s, 1)))))))"

definition parse_size :: "string \<Rightarrow> string + u64" where
  "parse_size s0 =
     (let s = trim s0; (num_str, unit) = size_unit s
      in rbind (ok_or (''invalid size: '' @ s) (parse_f64 num_str)) (\<lambda>num. Inr (f64_as_u64 (f64_mul num (u64_as_f64 unit)))))"

definition from_cpus :: "f64 \<Rightarrow> CpuQuota" where
  "from_cpus cpus = \<lparr>quota_us = f64_as_u64 (f64_mul cpus (u64_as_f64 100000)), period_us = 100000\<rparr>"

section \<open>Commands\<close>

text \<open>The arguments of \<^verbatim>\<open>run\<close>, as given but for the policy, which is read and parsed.\<close>

record run_args =
  ra_template :: string
  ra_cpu :: "string option"
  ra_memory :: "string option"
  ra_pids :: "u64 option"
  ra_workspace_size :: "string option"
  ra_timeout :: "string option"
  ra_policy :: "(string + Policy) option"
  ra_cmd :: "string list"

datatype cli_error = Bail string | FromManager error

definition CLI_POLICY_NAME :: string where "CLI_POLICY_NAME = ''cli-policy''"

definition run_policy :: "run_args \<Rightarrow> 't Manager \<Rightarrow> (cli_error + string option) \<times> 't Manager" where
  "run_policy a m =
     (case ra_policy a of
        None \<Rightarrow> (Inr None, m)
      | Some (Inl e) \<Rightarrow> (Inl (Bail e), m)
      | Some (Inr p) \<Rightarrow> (Inr (Some CLI_POLICY_NAME), snd (register_policy CLI_POLICY_NAME p m)))"

text \<open>\<^verbatim>\<open>mem_max * 9 / 10\<close> wraps in a release build.\<close>

definition run_limits :: "run_args \<Rightarrow> cli_error + ResourceLimits" where
  "run_limits a =
     rbind (case ra_cpu a of
              None \<Rightarrow> Inr None
            | Some t \<Rightarrow> rbind (ok_or (Bail ''invalid float literal'') (parse_f64 t)) (\<lambda>cpus. Inr (Some (from_cpus cpus)))) (\<lambda>cpu.
     rbind (case ra_memory a of
              None \<Rightarrow> Inr None
            | Some t \<Rightarrow> (case parse_size t of Inl e \<Rightarrow> Inl (Bail e) | Inr n \<Rightarrow> Inr (Some n))) (\<lambda>mem.
       let l = ResourceLimits_default\<lparr>cpu_max := cpu\<rparr>;
           l = (case mem of None \<Rightarrow> l | Some n \<Rightarrow> l\<lparr>memory_max := Some n, memory_high := Some (n * 9 div 10)\<rparr>)
       in Inr (case ra_pids a of None \<Rightarrow> l | Some p \<Rightarrow> l\<lparr>pids_max := Some p\<rparr>)))"

definition run_workspace :: "run_args \<Rightarrow> u64" where
  "run_workspace a =
     (case ra_workspace_size a of
        None \<Rightarrow> 1073741824
      | Some t \<Rightarrow> (case parse_size t of Inl _ \<Rightarrow> 1073741824 | Inr n \<Rightarrow> n))"

definition run_timeout :: "run_args \<Rightarrow> u64 option" where
  "run_timeout a =
     (case ra_timeout a of
        None \<Rightarrow> None
      | Some t \<Rightarrow> (case parse_duration t of Inl _ \<Rightarrow> None | Inr ms \<Rightarrow> Some (of_nat (ms div 1000))))"

text \<open>
  Checks the command, registers the policy, reads the limits, creates the sandbox, runs the command and destroys the sandbox whatever came of
  the command; the exit code is the command's, or \<open>-1\<close>. \<open>run\<close> stands for \<^verbatim>\<open>SandboxManager::exec\<close> with its launch.
\<close>

definition cmd_run :: "'t world \<Rightarrow> SandboxId \<Rightarrow> string \<Rightarrow> run_args \<Rightarrow> ('t, int) mop \<Rightarrow> 't Manager \<Rightarrow> (cli_error + int) \<times> 't Manager" where
  "cmd_run W i sid a run m =
     (if (case ra_cmd a of [] \<Rightarrow> True | c # _ \<Rightarrow> \<not> starts_with c ''/'')
      then (Inl (Bail ''cmd must be an absolute path inside the sandbox''), m)
      else case run_policy a m of
             (Inl e, m) \<Rightarrow> (Inl e, m)
           | (Inr policy_ref, m) \<Rightarrow>
      (case run_limits a of
         Inl e \<Rightarrow> (Inl e, m)
       | Inr l \<Rightarrow>
      (case create W sid
              \<lparr>spec_id = i, template = ra_template a, limits = l, workspace = Tmpfs (run_workspace a), env = [], spec_timeout = run_timeout a,
               policy_name = policy_ref\<rparr> m of
         (Inl e, m) \<Rightarrow> (Inl (FromManager e), m)
       | (Inr _, m) \<Rightarrow>
           (let (r, m) = run m;
                exit_code = (case r of Inl _ \<Rightarrow> - 1 | Inr c \<Rightarrow> c)
            in (Inr exit_code, snd (destroy W sid m))))))"

text \<open>The commands that name a sandbox, on the text the user gave; the result is what is printed.\<close>

definition cmd_on :: "(string \<Rightarrow> string option) \<Rightarrow> string \<Rightarrow> (string \<Rightarrow> ('t, 'a) mop) \<Rightarrow> string \<Rightarrow> ('t, string) mop" where
  "cmd_on parse_uuid verb f arg =
     sbind (slift (ok_or (Io ''invalid uuid'') (parse_uuid arg))) (\<lambda>sid.
     sbind (f sid) (\<lambda>_. sreturn (verb @ arg)))"

definition cmd_pause :: "'t world \<Rightarrow> (string \<Rightarrow> string option) \<Rightarrow> string \<Rightarrow> ('t, string) mop" where
  "cmd_pause W parse_uuid = cmd_on parse_uuid ''Paused '' (pause W)"

definition cmd_resume :: "'t world \<Rightarrow> (string \<Rightarrow> string option) \<Rightarrow> string \<Rightarrow> ('t, string) mop" where
  "cmd_resume W parse_uuid = cmd_on parse_uuid ''Resumed '' (resume W)"

definition cmd_destroy :: "'t world \<Rightarrow> (string \<Rightarrow> string option) \<Rightarrow> string \<Rightarrow> ('t, string) mop" where
  "cmd_destroy W parse_uuid = cmd_on parse_uuid ''Destroyed '' (destroy W)"

text \<open>\<^verbatim>\<open>exec\<close> ends with the exit code of the command; \<open>run\<close> stands for \<^verbatim>\<open>SandboxManager::exec\<close> with its launch, as above.\<close>

definition cmd_exec :: "(string \<Rightarrow> string option) \<Rightarrow> (string \<Rightarrow> ('t, int) mop) \<Rightarrow> string \<Rightarrow> ('t, int) mop" where
  "cmd_exec parse_uuid run arg = sbind (slift (ok_or (Io ''invalid uuid'') (parse_uuid arg))) run"

section \<open>What the commands do\<close>

text \<open>The suffix \<^verbatim>\<open>s\<close> is tried before \<^verbatim>\<open>ms\<close>, so a duration in milliseconds is never accepted; and \<^verbatim>\<open>run\<close> turns the refusal
  into no time limit at all.\<close>

lemma parse_uint_last_digit:
  assumes "parse_uint w s = Some n"
  shows "to_digit 10 (last s) \<noteq> None"
proof -
  have d: "digits_value 10 acc t = Some k \<Longrightarrow> t \<noteq> [] \<Longrightarrow> to_digit 10 (last t) \<noteq> None" for acc t k
    by (induction t arbitrary: acc) (auto split: option.splits if_splits)
  show ?thesis using assms
    by (cases s) (auto simp: parse_uint_def from_str_radix_def Let_def split: option.splits if_splits dest!: d)
qed

lemma milliseconds_refused:
  assumes "trim s = n @ ''ms''"
  shows "parse_duration s = Inl (''invalid duration: '' @ trim s)"
proof -
  have "strip_suffix (n @ ''ms'') ''s'' = Some (n @ ''m'')" by (simp add: strip_suffix_Some_iff)
  moreover have "parse_uint 64 (n @ ''m'') = None"
    using parse_uint_last_digit [of 64 "n @ ''m''"] by (cases "parse_uint 64 (n @ ''m'')") (auto simp: to_digit_def)
  ultimately show ?thesis by (simp add: parse_duration_def assms duration_number_def)
qed

theorem millisecond_timeout_is_no_timeout:
  assumes "ra_timeout a = Some t" "trim t = n @ ''ms''"
  shows "run_timeout a = None"
  using assms milliseconds_refused [OF assms(2)] by (simp add: run_timeout_def)

text \<open>Seconds, minutes and hours are read exactly.\<close>

lemma trim_show_uint: "\<forall>c\<in>set u. \<not> is_ws c \<Longrightarrow> trim (show_uint n @ u) = show_uint n @ u"
proof (rule trim_no_ws)
  assume u: "\<forall>c\<in>set u. \<not> is_ws c"
  have "\<not> is_ws c" if "c \<in> set (show_uint n)" for c
    using show_uint_digits [OF that] by (auto simp: is_ws_def)
  then show "\<forall>c\<in>set (show_uint n @ u). \<not> is_ws c" using u by auto
qed

lemma strip_suffix_append: "strip_suffix (s @ p) p = Some s"
  by (simp add: strip_suffix_Some_iff)

lemma strip_suffix_last: "s \<noteq> [] \<Longrightarrow> p \<noteq> [] \<Longrightarrow> last s \<noteq> last p \<Longrightarrow> strip_suffix s p = None"
  by (auto simp: strip_suffix_def ends_with_iff)

lemma duration_exact:
  assumes "n * 3600 < 2 ^ 64"
  shows "parse_duration (show_uint n @ ''s'') = Inr (n * 1000)" "parse_duration (show_uint n @ ''m'') = Inr (n * 60000)"
    "parse_duration (show_uint n @ ''h'') = Inr (n * 3600000)"
proof -
  have n: "n < 2 ^ 64" "n * 60 < 2 ^ 64" using assms by simp_all
  have d: "duration_number s (show_uint n) = Inr (of_nat n)" for s using n by (simp add: duration_number_def parse_show_uint)
  have u: "unat (of_nat n :: u64) = n" "unat (of_nat n * 60 :: u64) = n * 60" "unat (of_nat n * 3600 :: u64) = n * 3600"
    using n assms by (simp_all add: unat_of_nat unat_word_ariths)
  have m: "strip_suffix (show_uint n @ ''m'') ''s'' = None" "strip_suffix (show_uint n @ ''m'') ''ms'' = None"
    "strip_suffix (show_uint n @ ''h'') ''s'' = None" "strip_suffix (show_uint n @ ''h'') ''ms'' = None" "strip_suffix (show_uint n @ ''h'') ''m'' = None"
    by (simp_all add: strip_suffix_last)
  have t: "trim (show_uint n @ ''s'') = show_uint n @ ''s''" "trim (show_uint n @ ''m'') = show_uint n @ ''m''"
    "trim (show_uint n @ ''h'') = show_uint n @ ''h''"
    by (intro trim_show_uint; simp add: is_ws_def)+
  show "parse_duration (show_uint n @ ''s'') = Inr (n * 1000)" "parse_duration (show_uint n @ ''m'') = Inr (n * 60000)"
    "parse_duration (show_uint n @ ''h'') = Inr (n * 3600000)"
    unfolding parse_duration_def t by (simp_all add: Let_def strip_suffix_append m d u)
qed

text \<open>A run leaves no sandbox behind in the registry, whatever the command did.\<close>

lemma destroy_unregisters: "registry (snd (destroy W sid m)) sid = None"
proof (cases "registry m sid")
  case None
  then show ?thesis by (simp add: destroy_def mget_def sbind_def sreturn_def)
next
  case (Some h)
  have "keeps (\<lambda>m. registry m sid = None)
      (case h_cgroup h of None \<Rightarrow> sreturn ()
       | Some cg \<Rightarrow> sbind (on_cgfs (cgroup_destroy (w_cgroups W) cg)) (\<lambda>_. on_bpf (deregister_sandbox (w_kernel W) (cg_id cg))))"
    by (intro keeping)
  from this [unfolded keeps_def, rule_format, of "m\<lparr>registry := (registry m)(sid := None)\<rparr>"] show ?thesis
    by (simp add: destroy_def mget_def mmodify_def sbind_def Some)
qed

theorem run_leaves_no_sandbox:
  assumes "registry m sid = None"
  shows "registry (snd (cmd_run W i sid a run m)) sid = None"
proof -
  obtain r0 m0 where p: "run_policy a m = (r0, m0)" by force
  then have m0: "registry m0 = registry m"
    by (auto simp: run_policy_def register_policy_def mmodify_def split: option.splits sum.splits)
  show ?thesis
  proof (cases "(\<exists>e. r0 = Inl e) \<or> (\<exists>e. run_limits a = Inl e)")
    case True
    then show ?thesis using p m0 assms by (auto simp: cmd_run_def split: list.splits sum.splits)
  next
    case False
    then obtain ref l where l: "r0 = Inr ref" "run_limits a = Inr l" by (cases r0; cases "run_limits a") auto
    define spec where "spec = \<lparr>spec_id = i, template = ra_template a, limits = l, workspace = Tmpfs (run_workspace a), env = [],
      spec_timeout = run_timeout a, policy_name = ref\<rparr>"
    obtain r m1 where c: "create W sid spec m0 = (r, m1)" by force
    show ?thesis using create_result [OF c] assms c p m0 l
      by (cases r) (auto simp: cmd_run_def Let_def destroy_unregisters split: list.splits prod.splits simp flip: spec_def)
  qed
qed

text \<open>
  The registry of a fresh manager is empty, so pausing and resuming a sandbox of an earlier invocation fail; destroying one is
  reported as done although nothing was.
\<close>

theorem destroy_reports_success_without_effect:
  assumes "parse_uuid arg = Some sid"
  shows "cmd_destroy W parse_uuid arg (mgr_new maps0 c) = (Inr (''Destroyed '' @ arg), mgr_new maps0 c)"
    "cmd_pause W parse_uuid arg (mgr_new maps0 c) = (Inl AlreadyTerminated, mgr_new maps0 c)"
    "cmd_resume W parse_uuid arg (mgr_new maps0 c) = (Inl AlreadyTerminated, mgr_new maps0 c)"
  using assms
  by (simp_all add: cmd_destroy_def cmd_pause_def cmd_resume_def cmd_on_def sbind_def slift_def destroy_def pause_def resume_def get_handle_def
      mget_def mgr_new_def sreturn_def)

text \<open>So is running a command in one refused, before anything is launched and with nothing changed, whatever follows the checks of \<^verbatim>\<open>exec\<close>.\<close>

lemma exec_of_earlier_invocation_refused:
  "\<exists>e. cmd_exec parse_uuid (\<lambda>sid. sbind (exec_begin W sid c) (k sid)) arg (mgr_new maps0 fs) = (Inl e, mgr_new maps0 fs)"
  by (cases "parse_uuid arg")
    (auto simp: cmd_exec_def exec_begin_def resolve_policy_locked_def get_handle_def mget_def mgr_new_def sbind_def slift_def sfail_def)

section \<open>Processor shares\<close>

text \<open>
  A share of the processor is multiplied in floating point and truncated, so a decimal fraction can lose a microsecond of its quota:
  \<^verbatim>\<open>--cpu 0.29\<close> gives 28999 of 100000, not 29000.
\<close>

theorem cpu_share_truncated:
  "parse_f64 ''0.29'' = Some (round64 (29 / 100))"
  "from_cpus (round64 (29 / 100)) = \<lparr>quota_us = 28999, period_us = 100000\<rparr>"
proof -
  show "parse_f64 ''0.29'' = Some (round64 (29 / 100))"
    by (simp add: parse_f64_def take_sign_def to_ascii_lowercase_def is_digit_def to_digit_def parse_exponent_def digits_nat_def pow10_def Let_def)
  have "exp_of (29 / 100) = - 2" by (rule exp_of_unique) (simp_all add: pow2_def)
  moreover have "\<lfloor>(29 / 100 :: rat) * 2 ^ 54\<rfloor> = 5224175567749775" by (simp add: floor_eq_iff)
  ultimately have r: "round64 (29 / 100) = Fin (5224175567749775 / 2 ^ 54)"
    by (simp add: round64_def pow2_def round_half_even_def Let_def)
  let ?x = "5224175567749775 / 2 ^ 54 * 100000 :: rat"
  have "exp_of ?x = 14" by (rule exp_of_unique) (simp_all add: pow2_def)
  moreover have "\<lfloor>?x * 2 ^ 38\<rfloor> = 7971459301375999" by (simp add: floor_eq_iff)
  ultimately have "round64 ?x = Fin (7971459301375999 / 2 ^ 38)"
    by (simp add: round64_def pow2_def round_half_even_def Let_def)
  moreover have "u64_as_f64 100000 = Fin 100000" using round64_exact [of 100000 0] by (simp add: u64_as_f64_def)
  moreover have "\<lfloor>7971459301375999 / 2 ^ 38 :: rat\<rfloor> = 28999" by (simp add: floor_eq_iff)
  ultimately show "from_cpus (round64 (29 / 100)) = \<lparr>quota_us = 28999, period_us = 100000\<rparr>" by (simp add: from_cpus_def r)
qed

section \<open>Sizes are exact\<close>

lemma mul_exact:
  assumes "n < 2 ^ 53" "j \<le> 30" "u = 2 ^ j"
  shows "f64_as_u64 (f64_mul (round64 (of_nat n)) (u64_as_f64 u)) = of_nat (min (n * 2 ^ j) (2 ^ 64 - 1))"
proof -
  have small: "(of_nat n :: rat) * 2 ^ k < 2 ^ 1024" if "k \<le> 30" for k
  proof -
    have "(of_nat n :: rat) < 2 ^ 53" using assms(1) by (metis of_nat_less_iff of_nat_numeral of_nat_power)
    moreover have "(2 :: rat) ^ k \<le> 2 ^ 30" using that by (intro power_increasing) simp_all
    ultimately have "(of_nat n :: rat) * 2 ^ k < 2 ^ 53 * 2 ^ 30" by (intro mult_less_le_imp_less) simp_all
    then show ?thesis by simp
  qed
  have "round64 (of_nat n) = Fin (of_nat n)" using round64_exact [OF assms(1) small [of 0]] by simp
  moreover have "u64_as_f64 u = Fin (2 ^ j)"
  proof -
    have "(2 :: nat) ^ j < 2 ^ 64" using assms(2) by (intro power_strict_increasing) simp_all
    moreover have "u = of_nat (2 ^ j)" by (simp add: assms(3))
    ultimately have "unat u = 2 ^ j" by (simp only: unat_of_nat len_bit0 len_num1) simp
    moreover have "(2 :: rat) ^ j < 2 ^ 1024" using assms(2) by (intro power_strict_increasing) simp_all
    ultimately show ?thesis using round64_exact [of 1 j] by (simp add: u64_as_f64_def)
  qed
  ultimately have "f64_mul (round64 (of_nat n)) (u64_as_f64 u) = Fin (of_nat (n * 2 ^ j))"
    using round64_exact [OF assms(1) small [OF assms(2)]] by simp
  then show ?thesis using f64_as_u64_nat by metis
qed

text \<open>
  C39. A memory or workspace size given in bytes or in binary units is what was asked for: a whole number of bytes, Ki, Mi or Gi below \<open>2 ^ 53\<close> is
  converted through floating point without loss, and a size beyond 64 bits becomes the largest one.
\<close>
theorem size_arguments_exact:
  assumes "n < 2 ^ 53"
  shows "parse_size (show_uint n) = Inr (of_nat n) \<and>
    parse_size (show_uint n @ ''Ki'') = Inr (of_nat (min (n * 2 ^ 10) (2 ^ 64 - 1))) \<and>
    parse_size (show_uint n @ ''Mi'') = Inr (of_nat (min (n * 2 ^ 20) (2 ^ 64 - 1))) \<and>
    parse_size (show_uint n @ ''Gi'') = Inr (of_nat (min (n * 2 ^ 30) (2 ^ 64 - 1)))"
proof -
  have t: "trim (show_uint n) = show_uint n" "trim (show_uint n @ ''Ki'') = show_uint n @ ''Ki''" "trim (show_uint n @ ''Mi'') = show_uint n @ ''Mi''"
    "trim (show_uint n @ ''Gi'') = show_uint n @ ''Gi''"
    using trim_show_uint [of "[]" n] trim_show_uint [of "''Ki''" n] trim_show_uint [of "''Mi''" n] trim_show_uint [of "''Gi''" n]
    by (simp_all add: is_ws_def)
  have digit: "is_digit (last (show_uint n))" by (rule show_uint_is_digit [of _ n]) simp
  then have l: "last (show_uint n) \<noteq> CHR ''i''" "last (show_uint n) \<noteq> CHR ''G''" "last (show_uint n) \<noteq> CHR ''M''" "last (show_uint n) \<noteq> CHR ''K''"
    by (auto simp: is_digit_def to_digit_def)
  have "size_unit (show_uint n) = (show_uint n, 1)" using l by (simp add: size_unit_def strip_suffix_last)
  moreover have "size_unit (show_uint n @ ''Gi'') = (show_uint n, 1073741824)" by (simp add: size_unit_def strip_suffix_append)
  moreover have "size_unit (show_uint n @ ''Mi'') = (show_uint n, 1048576)" "size_unit (show_uint n @ ''Ki'') = (show_uint n, 1024)"
    by (simp_all add: size_unit_def strip_suffix_append) (simp_all add: strip_suffix_def ends_with_def)
  moreover have "n \<le> 2 ^ 64 - 1" using assms by simp
  then have "min (n * 2 ^ 0) (2 ^ 64 - 1) = n" by (simp add: min_def)
  ultimately show ?thesis
    using mul_exact [OF assms, of 0 1] mul_exact [OF assms, of 10 1024] mul_exact [OF assms, of 20 1048576] mul_exact [OF assms, of 30 1073741824]
    by (simp add: parse_size_def t parse_f64_show_uint Let_def)
qed

theorem size_arguments_exact_witness:
  "parse_size (show_uint 512 @ ''Mi'') = Inr 536870912 \<and> parse_size (show_uint 17179869184 @ ''Gi'') = Inr (- 1)"
proof -
  have "(512 :: nat) < 2 ^ 53" "(17179869184 :: nat) < 2 ^ 53" by simp_all
  from this [THEN size_arguments_exact] show ?thesis by simp
qed

end
