(* ===== verification/Escape_Suite.thy ===== *)
theory Escape_Suite
  imports Cli
begin

text \<open>
  The escape suite (\<^verbatim>\<open>bench/escape\<close>): the outcome classifier and the four scenario programs, as functions of what the system calls they make
  answer, and the harness that stages each program into a fresh sandbox, runs it there and counts. The last section shows what the
  programs meet in a sandbox under the default policy.
\<close>

section \<open>Outcomes\<close>

text \<open>\<^verbatim>\<open>io::Error\<close>: the error number, when it came from the system, its kind and its text.\<close>

datatype ErrorKind = PermissionDenied | NetworkUnreachable | HostUnreachable | ConnectionRefused | OtherKind

record io_error =
  raw_os_error :: "int option"
  err_kind :: ErrorKind
  err_text :: string

definition from_raw_os_error :: "int \<Rightarrow> io_error" where
  "from_raw_os_error n =
     \<lparr>raw_os_error = Some n,
      err_kind = (if n = 1 \<or> n = 13 then PermissionDenied else if n = 101 then NetworkUnreachable else if n = 113 then HostUnreachable
        else if n = 111 then ConnectionRefused else OtherKind),
      err_text = ''os error '' @ show_uint (nat n)\<rparr>"

datatype Outcome = Blocked | Escaped | Unverified string

text \<open>The line printed and the exit code.\<close>

fun print_and_exit :: "Outcome \<Rightarrow> string \<Rightarrow> string \<times> int" where
  "print_and_exit Blocked scenario = (''BLOCKED: '' @ scenario, 0)"
| "print_and_exit Escaped scenario = (''ESCAPED: '' @ scenario, 1)"
| "print_and_exit (Unverified detail) scenario = (''UNVERIFIED: '' @ scenario @ '' ('' @ detail @ '')'', 2)"

definition is_permission_denied :: "io_error \<Rightarrow> bool" where
  "is_permission_denied e \<longleftrightarrow> raw_os_error e = Some 1 \<or> raw_os_error e = Some 13 \<or> err_kind e = PermissionDenied"

definition is_denied_or_unreachable :: "io_error \<Rightarrow> bool" where
  "is_denied_or_unreachable e \<longleftrightarrow>
     is_permission_denied e \<or>
     raw_os_error e = Some 101 \<or> raw_os_error e = Some 113 \<or> raw_os_error e = Some 111 \<or>
     err_kind e = NetworkUnreachable \<or> err_kind e = HostUnreachable \<or> err_kind e = ConnectionRefused"

section \<open>Scenarios\<close>

definition read_shadow :: "io_error + string \<Rightarrow> string \<times> int" where
  "read_shadow answer =
     (case answer of
        Inr _ \<Rightarrow> print_and_exit Escaped ''read /etc/shadow''
      | Inl e \<Rightarrow> if is_permission_denied e then print_and_exit Blocked ''read /etc/shadow''
                else print_and_exit (Unverified (err_text e)) ''read /etc/shadow'')"

definition exec_denied :: "io_error + unit \<Rightarrow> string \<times> int" where
  "exec_denied spawned =
     (case spawned of
        Inr _ \<Rightarrow> print_and_exit Escaped ''exec /usr/bin/perl''
      | Inl e \<Rightarrow> if is_permission_denied e then print_and_exit Blocked ''exec /usr/bin/perl''
                else print_and_exit (Unverified (err_text e)) ''exec /usr/bin/perl'')"

definition connect_denied :: "io_error + 'a list \<Rightarrow> ('a \<Rightarrow> io_error + unit) \<Rightarrow> string \<times> int" where
  "connect_denied resolved connect =
     (case resolved of
        Inl e \<Rightarrow> print_and_exit (Unverified (''address parse failed: '' @ err_text e)) ''connect to denied IP''
      | Inr [] \<Rightarrow> print_and_exit (Unverified ''could not resolve 1.1.1.1:80'') ''connect to denied IP''
      | Inr (a # _) \<Rightarrow>
          (case connect a of
             Inr _ \<Rightarrow> print_and_exit Escaped ''connect to denied IP''
           | Inl e \<Rightarrow> if is_denied_or_unreachable e then print_and_exit Blocked ''connect to denied IP''
                     else print_and_exit (Unverified (err_text e)) ''connect to denied IP''))"

text \<open>The value of the raw system call and, behind it, \<^verbatim>\<open>last_os_error\<close>.\<close>

definition mount_inside :: "int \<Rightarrow> io_error \<Rightarrow> string \<times> int" where
  "mount_inside ret e =
     (if ret = 0 then print_and_exit Escaped ''mount tmpfs on /tmp''
      else if is_permission_denied e then print_and_exit Blocked ''mount tmpfs on /tmp''
      else print_and_exit (Unverified (err_text e)) ''mount tmpfs on /tmp'')"

section \<open>The harness\<close>

record Scenario =
  category :: string
  sc_name :: string
  bin_name :: string
  xfail_phase :: "u32 option"

definition scenarios :: "Scenario list" where
  "scenarios =
     [\<lparr>category = ''fs'', sc_name = ''read_shadow'', bin_name = ''aivisor-escape-fs-read-shadow'', xfail_phase = None\<rparr>,
      \<lparr>category = ''exec'', sc_name = ''exec_denied'', bin_name = ''aivisor-escape-exec-denied'', xfail_phase = None\<rparr>,
      \<lparr>category = ''net'', sc_name = ''connect_denied'', bin_name = ''aivisor-escape-net-connect-denied'', xfail_phase = None\<rparr>,
      \<lparr>category = ''priv'', sc_name = ''mount_inside'', bin_name = ''aivisor-escape-priv-mount-inside'', xfail_phase = None\<rparr>]"

datatype ScenarioResult = SBlocked | SEscaped | SUnverified | HarnessError string

text \<open>The host of the harness: its own executable and that one's directory, the files that exist, and whether each staging step succeeds.\<close>

record bench_host =
  bh_current_exe :: "string option"
  bh_parent :: "string \<Rightarrow> string option"
  bh_exists :: "string \<Rightarrow> bool"
  bh_mkdir :: "string \<Rightarrow> bool"
  bh_copy :: "string \<Rightarrow> string \<Rightarrow> bool"
  bh_stat :: "string \<Rightarrow> bool"
  bh_chmod :: "string \<Rightarrow> bool"

definition sibling_bin_path :: "bench_host \<Rightarrow> string \<Rightarrow> string + string" where
  "sibling_bin_path B name =
     rbind (ok_or ''current_exe'' (bh_current_exe B)) (\<lambda>exe.
     rbind (ok_or ''current_exe has no parent directory'' (bh_parent B exe)) (\<lambda>dir.
       let candidate = pjoin dir name
       in if bh_exists B candidate then Inr candidate else Inl ''expected sibling binary''))"

definition stage :: "bench_host \<Rightarrow> Scenario \<Rightarrow> string \<Rightarrow> string + unit" where
  "stage B sc ws =
     (if \<not> bh_mkdir B ws then Inl ''mkdir workspace''
      else rbind (sibling_bin_path B (bin_name sc)) (\<lambda>host_bin.
        let staged = pjoin ws ''scenario''
        in if \<not> bh_copy B host_bin staged then Inl ''stage scenario binary''
           else if \<not> bh_stat B staged then Inl ''stat staged binary''
           else if \<not> bh_chmod B staged then Inl ''chmod staged binary''
           else Inr ()))"

definition code_result :: "int \<Rightarrow> ScenarioResult" where
  "code_result code =
     (if code = 0 then SBlocked else if code = 1 then SEscaped else if code = 2 then SUnverified
      else HarnessError ''unexpected exit code'')"

definition bench_spec :: "SandboxId \<Rightarrow> SandboxSpec" where
  "bench_spec i =
     \<lparr>spec_id = i, template = ''base'', limits = ResourceLimits_default, workspace = Tmpfs 268435456, env = [], spec_timeout = Some 30,
      policy_name = None\<rparr>"

text \<open>\<open>run\<close> stands for \<^verbatim>\<open>SandboxManager::exec\<close> of \<^verbatim>\<open>/workspace/scenario\<close> with its launch.\<close>

definition run_one ::
    "'t world \<Rightarrow> bench_host \<Rightarrow> SandboxId \<Rightarrow> string \<Rightarrow> ('t, int) mop \<Rightarrow> Scenario \<Rightarrow> 't Manager \<Rightarrow> ScenarioResult \<times> 't Manager" where
  "run_one W B i sid run sc m =
     (case create W sid (bench_spec i) m of
        (Inl e, m) \<Rightarrow> (HarnessError ''create'', m)
      | (Inr _, m) \<Rightarrow>
          (let (result, m) =
             (case workspace_upper_dir sid m of
                (Inl e, m) \<Rightarrow> (HarnessError ''workspace_upper_dir'', m)
              | (Inr ws, m) \<Rightarrow>
                  (case stage B sc ws of
                     Inl reason \<Rightarrow> (HarnessError reason, m)
                   | Inr _ \<Rightarrow>
                       (case run m of
                          (Inl e, m) \<Rightarrow> (HarnessError ''exec'', m)
                        | (Inr code, m) \<Rightarrow> (code_result code, m))))
           in (result, snd (destroy W sid m))))"

record tally =
  passed :: u32
  failed :: u32
  xfail :: u32

definition count_result :: "Scenario \<Rightarrow> ScenarioResult \<Rightarrow> tally \<Rightarrow> tally" where
  "count_result sc r n =
     (case r of
        SBlocked \<Rightarrow> n\<lparr>passed := passed n + 1\<rparr>
      | SEscaped \<Rightarrow> if xfail_phase sc \<noteq> None then n\<lparr>xfail := xfail n + 1\<rparr> else n\<lparr>failed := failed n + 1\<rparr>
      | SUnverified \<Rightarrow> n\<lparr>failed := failed n + 1\<rparr>
      | HarnessError _ \<Rightarrow> n\<lparr>failed := failed n + 1\<rparr>)"

text \<open>One identifier and one run per scenario, in order; the identifiers are drawn as the scenarios come.\<close>

fun run_suite ::
    "'t world \<Rightarrow> bench_host \<Rightarrow> (SandboxId \<times> string \<times> ('t, int) mop \<times> Scenario) list \<Rightarrow> tally \<Rightarrow> 't Manager \<Rightarrow> tally \<times> 't Manager" where
  "run_suite W B [] n m = (n, m)"
| "run_suite W B ((i, sid, run, sc) # rest) n m =
     (let (r, m) = run_one W B i sid run sc m in run_suite W B rest (count_result sc r n) m)"

definition suite_plan :: "(nat \<Rightarrow> SandboxId \<times> string \<times> ('t, int) mop) \<Rightarrow> (SandboxId \<times> string \<times> ('t, int) mop \<times> Scenario) list" where
  "suite_plan draw = map2 (\<lambda>k sc. case draw k of (i, sid, run) \<Rightarrow> (i, sid, run, sc)) [0..<length scenarios] scenarios"

definition harness_main ::
    "'t world \<Rightarrow> bench_host \<Rightarrow> (nat \<Rightarrow> SandboxId \<times> string \<times> ('t, int) mop) \<Rightarrow> string + 't Manager \<Rightarrow> int" where
  "harness_main W B draw manager =
     (case manager of
        Inl _ \<Rightarrow> 1
      | Inr m \<Rightarrow> if failed (fst (run_suite W B (suite_plan draw) \<lparr>passed = 0, failed = 0, xfail = 0\<rparr> m)) > 0 then 1 else 0)"

section \<open>The verdict of the harness\<close>

fun suite_results ::
    "'t world \<Rightarrow> bench_host \<Rightarrow> (SandboxId \<times> string \<times> ('t, int) mop \<times> Scenario) list \<Rightarrow> 't Manager \<Rightarrow> ScenarioResult list" where
  "suite_results W B [] m = []"
| "suite_results W B ((i, sid, run, sc) # rest) m =
     (let (r, m) = run_one W B i sid run sc m in r # suite_results W B rest m)"

definition counts_as_failure :: "Scenario \<Rightarrow> ScenarioResult \<Rightarrow> bool" where
  "counts_as_failure sc r \<longleftrightarrow> r \<noteq> SBlocked \<and> \<not> (r = SEscaped \<and> xfail_phase sc \<noteq> None)"

lemma failed_count_result: "failed (count_result sc r n) = failed n + (if counts_as_failure sc r then 1 else 0)"
  by (auto simp: count_result_def counts_as_failure_def split: ScenarioResult.split)

lemma failed_run_suite:
  "failed (fst (run_suite W B plan n m)) =
     failed n + of_nat (length (filter (\<lambda>(p, r). counts_as_failure (snd (snd (snd p))) r) (zip plan (suite_results W B plan m))))"
  by (induction plan arbitrary: n m) (auto simp: failed_count_result split: prod.splits)

lemma length_suite_results [simp]: "length (suite_results W B plan m) = length plan"
  by (induction plan arbitrary: m) (auto split: prod.splits)

lemma list_of_four: "length xs = 4 \<Longrightarrow> \<exists>a b c d. xs = [a, b, c, d]"
  by (auto simp: numeral_eq_Suc length_Suc_conv)

lemma of_nat_u32_eq_0: "n < 2 ^ 32 \<Longrightarrow> (of_nat n :: u32) = 0 \<longleftrightarrow> n = 0"
  by (auto simp: word_of_nat_eq_0_iff dest: dvd_imp_le)

text \<open>A scenario counts as blocked only when its program ran to the end in a sandbox and reported it.\<close>

lemma workspace_upper_dir_state: "workspace_upper_dir sid m = (r, m') \<Longrightarrow> m' = m"
  by (auto simp: workspace_upper_dir_def sbind_def get_handle_def mget_def slift_def sreturn_def split: prod.splits sum.splits)

lemma run_one_blocked:
  assumes "run_one W B i sid run sc m = (SBlocked, m')"
  shows "\<exists>u m1 m2. create W sid (bench_spec i) m = (Inr u, m1) \<and> run m1 = (Inr 0, m2) \<and> m' = snd (destroy W sid m2)"
proof -
  obtain r m1 where c: "create W sid (bench_spec i) m = (r, m1)" by force
  obtain d m1' where d: "workspace_upper_dir sid m1 = (d, m1')" by force
  obtain x m2 where x: "run m1 = (x, m2)" by force
  show ?thesis
    using assms c d x workspace_upper_dir_state [OF d]
    by (cases r; cases d; cases x) (auto simp: run_one_def code_result_def Let_def split: sum.splits if_splits)
qed

text \<open>No run leaves its sandbox in the registry.\<close>

lemma run_one_leaves_no_sandbox:
  assumes "registry m sid = None"
  shows "registry (snd (run_one W B i sid run sc m)) sid = None"
proof -
  obtain r m1 where c: "create W sid (bench_spec i) m = (r, m1)" by force
  show ?thesis using create_result [OF c] c assms
    by (cases r) (auto simp: run_one_def destroy_unregisters Let_def split: prod.splits)
qed

text \<open>
  The suite passes only on evidence. It exits with success exactly when every one of its scenarios was run to the end in a sandbox of its
  own and reported that its attempt was blocked; an escape, a scenario that proved nothing, and any failure to set up or run one fail
  the whole run.
\<close>
theorem escape_suite_verdict:
  "harness_main W B draw (Inr m) = 0 \<longleftrightarrow> suite_results W B (suite_plan draw) m = [SBlocked, SBlocked, SBlocked, SBlocked]"
proof -
  let ?plan = "suite_plan draw" and ?bad = "\<lambda>(p, r). counts_as_failure (snd (snd (snd p))) r"
  have four: "length scenarios = 4" by (simp add: scenarios_def)
  have x: "xfail_phase (snd (snd (snd q))) = None" if "q \<in> set ?plan" for q
  proof -
    have "snd (snd (snd q)) \<in> set scenarios" using that by (auto simp: suite_plan_def dest: set_zip_rightD split: prod.splits)
    moreover have "\<forall>sc\<in>set scenarios. xfail_phase sc = None" by (simp add: scenarios_def)
    ultimately show ?thesis by blast
  qed
  have "length ?plan = 4" by (simp add: suite_plan_def four)
  then obtain p1 p2 p3 p4 r1 r2 r3 r4 where p: "?plan = [p1, p2, p3, p4]" and r: "suite_results W B ?plan m = [r1, r2, r3, r4]"
    using list_of_four [of ?plan] list_of_four [of "suite_results W B ?plan m"] length_suite_results [of W B ?plan m]
    by (auto simp del: length_suite_results)
  have "harness_main W B draw (Inr m) = 0 \<longleftrightarrow> filter ?bad (zip ?plan (suite_results W B ?plan m)) = []"
    using length_filter_le [of ?bad "zip ?plan (suite_results W B ?plan m)"]
    by (simp add: harness_main_def failed_run_suite of_nat_u32_eq_0 word_gt_0 p)
  also have "\<dots> \<longleftrightarrow> suite_results W B ?plan m = [SBlocked, SBlocked, SBlocked, SBlocked]"
    using x unfolding r by (auto simp: p counts_as_failure_def)
  finally show ?thesis .
qed

section \<open>A launch by the manager\<close>

lemma launch_installed:
  assumes "manager_run W m" "launches A (exec_install W x) t m s" "l_child s = CExecd" "task_caps_ok (la_kernel A) t"
  obtains ids where
    "collect_exec_identities (la_host A) (la_mountinfo A) (lp_exec_paths (la_policy A)) (lp_exec_prefixes (la_policy A)) = Inr ids"
    "confined (la_kernel A) (la_rootfs A) (la_policy A) (l_task s)" "set_up s" "system_run (w_kernel W) (w_host W) (bpf m)"
    "update_policy (w_kernel W) (w_host W) (ls_cgid x) (compile_bpf (ls_policy x)) (Resolved ids) (bpf m) = (Inr (), bpf (l_install s))"
proof -
  have "l_parent s = POk"
    using launches_inv [OF assms(2)] assms(3) by (auto simp: launch_inv_simps split: parent_pc.splits)
  with launches_inv [OF assms(2)] assms(3) obtain ids t1 where
    s: "set_up s" "prepare_of A t = (Inr ids, t1)" "exec_install W x ids m = (Inr (), l_install s)" "exec_of A t1 = (Inr (), l_task s)"
    by (auto simp: launch_inv_def)
  obtain n e where "l_task s = t1\<lparr>t_clock := n, t_exec := e\<rparr>" using exec_of_effect [OF s(4)] by blast
  then have "confined (la_kernel A) (la_rootfs A) (la_policy A) (l_task s)"
    "collect_exec_identities (la_host A) (la_mountinfo A) (lp_exec_paths (la_policy A)) (lp_exec_prefixes (la_policy A)) = Inr ids"
    using child_confined [OF s(2) [unfolded prepare_of_def] assms(4)] by (simp_all add: confined_exec)
  moreover have "update_policy (w_kernel W) (w_host W) (ls_cgid x) (compile_bpf (ls_policy x)) (Resolved ids) (bpf m) = (Inr (), bpf (l_install s))"
    using s(3) by (auto simp: exec_install_def on_bpf_Inr)
  moreover have "system_run (w_kernel W) (w_host W) (bpf m)" using manager_run_inv [OF assms(1)] by (simp add: run_inv_def)
  ultimately show thesis using that s(1) by blast
qed

section \<open>The scenarios under the default policy\<close>

text \<open>
  A system call fails with the error number of a hook that refuses it, and otherwise answers what the rest of the kernel answers. Landlock
  refuses a right that the ruleset of the task handles and that no rule on the path or above it grants, with \<^verbatim>\<open>EACCES\<close>.
\<close>

definition answer :: "int \<Rightarrow> io_error + 'a \<Rightarrow> io_error + 'a" where
  "answer verdict rest = (if verdict < 0 then Inl (from_raw_os_error (- verdict)) else rest)"

definition landlock_verdict :: "(u64 \<times> (string \<times> u64) list) option \<Rightarrow> string \<Rightarrow> u64 \<Rightarrow> int" where
  "landlock_verdict domain path right =
     (case domain of
        None \<Rightarrow> 0
      | Some (handled, rules) \<Rightarrow>
          if right AND handled = 0 \<or> list_ex (\<lambda>(p, mask). path_starts_with path p \<and> mask AND right \<noteq> 0) rules then 0 else - 13)"

text \<open>The mount system call as the raw interface shows it.\<close>

definition mount_result :: "int \<Rightarrow> int \<times> io_error \<Rightarrow> int \<times> io_error" where
  "mount_result verdict rest = (if verdict < 0 then (- 1, from_raw_os_error (- verdict)) else rest)"

definition one_one_one_one :: sockaddr where
  "one_one_one_one = \<lparr>sa_family = AF_INET, sin_addr = octets_be [1, 1, 1, 1], sin_port = to_be16 80\<rparr>"

lemma default_rules_not_shadow:
  "list_all (\<lambda>r. \<not> path_starts_with ''/etc/shadow'' (ll_path r))
     (ll_rules (lp_landlock (build_launch_policy abi default_policy ''/workspace/scenario'')))"
  by (simp add: build_launch_policy_def default_policy_def compile_landlock_def fs_rule_def path_starts_with_def path_components_def
      starts_with_def Let_def)

lemma build_launch_abi: "ll_abi (lp_landlock (build_launch_policy abi p cmd)) = abi"
  by (simp add: build_launch_policy_def compile_landlock_def Let_def split: option.split)

lemma shadow_refused:
  assumes "t_landlock t = Some (known_at_abi abi, landlock_rules (known_at_abi abi) (ll_rules (lp_landlock (build_launch_policy abi default_policy ''/workspace/scenario''))))"
  shows "landlock_verdict (t_landlock t) ''/etc/shadow'' READ_FILE = - 13"
proof -
  let ?rules = "ll_rules (lp_landlock (build_launch_policy abi default_policy ''/workspace/scenario''))"
  have "bit (READ_FILE AND known_at_abi abi) 2"
    by (simp add: known_at_abi_def READ_FILE_def bit_and_iff bit_or_iff bit_push_bit_iff Let_def)
  then have "READ_FILE AND known_at_abi abi \<noteq> 0" by (metis bit_0_eq bot_apply bot_bool_def)
  moreover have "\<forall>r\<in>set ?rules. \<not> path_starts_with ''/etc/shadow'' (ll_path r)"
    using default_rules_not_shadow by (simp only: list_all_iff)
  ultimately show ?thesis unfolding assms by (auto simp: landlock_verdict_def landlock_rules_def list_ex_iff)
qed

lemma connect_refused:
  assumes "lpm_trie K stored" "kfault K = (\<lambda>_. False)" "system_run K H mgr" "net_clean stored mgr"
    and "update_policy K H cg plan src mgr = (Inr u, mgr')" "bp_net_rules plan = []"
  shows "fst (socket_connect K 0 (maps mgr') cg (Some \<lparr>sa_family = AF_INET, sin_addr = dst, sin_port = port\<rparr>)) = - EPERM"
  using connect_installed [OF assms(1-5), of "[]" dst port] assms(6)
  by (simp add: resolve_net_rules_def no_alias_def distinct_prefixes_def net_allows_def)

text \<open>
  C3. In a sandbox under the default policy the escape attempts of the suite are blocked. For a launch of a scenario by the manager with the
  default policy, after any history of it and in every interleaving of parent and child: if the child executes the program, then reading \<^verbatim>\<open>/etc/shadow\<close>,
  executing a file that is not the program itself, connecting to 1.1.1.1:80 and mounting a file system are each refused by the Landlock
  ruleset of the task or by the kernel hooks as the installation left them, so that every one of the four programs ends with exit code 0,
  whatever the rest of the kernel would have answered. (No kernel map fails, and the network map holds entries of registered sandboxes
  only.)
\<close>
theorem escape_scenarios_blocked:
  assumes "lpm_trie (w_kernel W) stored" "kfault (w_kernel W) = (\<lambda>_. False)" "manager_run W m" "net_clean stored (bpf m)"
    and "ls_policy x = default_policy" "la_policy A = build_launch_policy abi default_policy ''/workspace/scenario''"
    and "launches A (exec_install W x) t m s" "l_child s = CExecd" "task_caps_ok (la_kernel A) t"
    and "\<And>ids i. collect_exec_identities (la_host A) (la_mountinfo A) [''/workspace/scenario''] [] = Inr ids \<Longrightarrow> i \<in> set ids \<Longrightarrow>
      \<not> (ei_inode i = ino \<and> ei_dev i = ucast dev)"
  shows "let k = maps (bpf (l_install s)); c = ls_cgid x
    in snd (read_shadow (answer (landlock_verdict (t_landlock (l_task s)) ''/etc/shadow'' READ_FILE) r1)) = 0 \<and>
       snd (exec_denied (answer (fst (bprm_check_security 0 k c (Some (ino, dev)))) r2)) = 0 \<and>
       snd (connect_denied (Inr [one_one_one_one]) (\<lambda>a. answer (fst (socket_connect (w_kernel W) 0 k c (Some a))) r3)) = 0 \<and>
       snd (case_prod mount_inside (mount_result (fst (sb_mount 0 k c)) r4)) = 0"
proof -
  obtain ids where ids: "collect_exec_identities (la_host A) (la_mountinfo A) (lp_exec_paths (la_policy A)) (lp_exec_prefixes (la_policy A)) = Inr ids"
    and conf: "confined (la_kernel A) (la_rootfs A) (la_policy A) (l_task s)" and run: "system_run (w_kernel W) (w_host W) (bpf m)"
    and up: "update_policy (w_kernel W) (w_host W) (ls_cgid x) (compile_bpf (ls_policy x)) (Resolved ids) (bpf m) = (Inr (), bpf (l_install s))"
    by (rule launch_installed [OF assms(3,7-9)])
  have "landlock_verdict (t_landlock (l_task s)) ''/etc/shadow'' READ_FILE = - 13"
    using conf unfolding assms(6) by (intro shadow_refused [where abi = abi]) (simp add: confined_def Let_def build_launch_abi)
  moreover have "fst (bprm_check_security 0 (maps (bpf (l_install s))) (ls_cgid x) (Some (ino, dev))) = - 1 \<and>
      fst (sb_mount 0 (maps (bpf (l_install s))) (ls_cgid x)) = - 1"
  proof -
    obtain ex where ex: "exec_entries_of (w_host W) (compile_bpf (ls_policy x)) (Resolved ids) = Inr ex"
      "installed (bp_fs_rules (compile_bpf (ls_policy x))) ex (ls_cgid x) (maps (bpf (l_install s)))"
      by (rule update_installed [OF assms(1) run up])
    have "lp_exec_paths (la_policy A) = [''/workspace/scenario'']" "lp_exec_prefixes (la_policy A) = []"
      by (simp_all add: assms(6) build_launch_policy_def default_policy_def Let_def)
    with ids have "\<not> (ei_inode i = ino \<and> ei_dev i = ucast dev)" if "i \<in> set ids" for i using assms(10) that by simp
    then have "\<not> (\<exists>e\<in>set ex. er_inode e = ino \<and> er_dev e = ucast dev)" using ex(1) by (force simp: exec_entries_of_def)
    with exec_verdict_installed [OF ex(2)] deny_hooks_installed [OF ex(2)] show ?thesis by (simp add: EPERM_def)
  qed
  moreover have "fst (socket_connect (w_kernel W) 0 (maps (bpf (l_install s))) (ls_cgid x) (Some one_one_one_one)) = - 1"
    using connect_refused [OF assms(1,2) run assms(4) up]
    by (simp add: assms(5) one_one_one_one_def EPERM_def compile_bpf_def default_policy_def)
  ultimately show ?thesis
    by (simp add: read_shadow_def exec_denied_def connect_denied_def mount_inside_def mount_result_def answer_def from_raw_os_error_def
        is_permission_denied_def is_denied_or_unreachable_def)
qed

section \<open>A concrete escape attempt\<close>

definition scenario_host :: host where
  "scenario_host = witness_host\<lparr>stat := (\<lambda>_. Some \<lparr>md_is_file = True, md_mode = 493, md_dev = 5, md_ino = 42\<rparr>)\<rparr>"

definition scenario_launch :: LaunchPolicy where
  "scenario_launch = build_launch_policy 1 default_policy ''/workspace/scenario''"

definition scenario_snapshot :: launch_snapshot where
  "scenario_snapshot = (witness_snapshot witness_rootfs)\<lparr>ls_policy := default_policy, ls_launch := scenario_launch\<rparr>"

abbreviation scenario_args :: launch_args where
  "scenario_args \<equiv> witness_args_for scenario_host (Some ''1 0 0:5 / / rw'') scenario_launch"

lemma scenario_identities:
  "collect_exec_identities scenario_host (Some ''1 0 0:5 / / rw'') [''/workspace/scenario''] [] = Inr [\<lparr>ei_dev = 5, ei_inode = 42\<rparr>]"
proof -
  have "parse_mount_devices ''1 0 0:5 / / rw'' = [(''/'', 5)]"
    by (simp add: parse_mount_devices_def mount_entries_def parse_mount_line_def str_lines_def split_whitespace_def is_ws_def split_once_def
        parse_uint_def from_str_radix_def to_digit_def List.map_filter_def char_lf_def char_cr_def strip_cr_def ends_with_def)
  then show ?thesis
    by (simp add: collect_exec_identities_def path_identity_def scenario_host_def device_for_path_def starts_with_def rbind_def)
qed

lemma scenario_install:
  "\<exists>m'. exec_install witness_world scenario_snapshot [\<lparr>ei_dev = 5, ei_inode = 42\<rparr>] witness_m1 = (Inr (), m')" "net_clean bt_get (bpf witness_m1)"
proof -
  obtain rootfs c b where m1: "witness_m1 = witness_m0\<lparr>registry := [''s'' \<mapsto> new_handle witness_spec witness_cg rootfs], bpf := b, cgfs := c\<rparr>"
    "register_sandbox sample_kernel 2 (manager_new empty_maps) = (Inr (), b)" by (rule witness_created)
  have b: "bpf witness_m1 = b" unfolding m1(1) by simp
  have a: "fs_alloc b = allocator_new ''fs_rules'' 65536" "exec_alloc b = allocator_new ''exec_rules'' 8192"
    using m1(2) by (auto simp: register_sandbox_def write_ctx_def map_update_def manager_new_def trie_kernel_def Let_def FS_RULES_CAPACITY_def EXEC_RULES_CAPACITY_def)
  obtain st where reg: "registered b 2 = Some st" using witness_bpf(2) b by blast
  let ?ex = "[\<lparr>er_dev = 5, er_inode = 42, er_hash = replicate 32 0\<rparr>]" and ?fs = "bp_fs_rules (compile_bpf default_policy)"
  have n: "len_u32 ?fs = 6" "len_u32 ?ex = 1" by (simp_all add: len_u32_def compile_bpf_def default_policy_def)
  have "fst (install_policy sample_kernel 2 ?fs ?ex [] b) = Inr ()"
    by (rule bt.install_policy_succeeds [OF _ bt.system_run_inv [OF witness_bpf(1) [unfolded b]] reg])
      (simp_all add: n a trie_kernel_def keys_ok_def alloc_def allocator_new_def word_le_nat_alt)
  then have "fst (update_policy sample_kernel sample_host 2 (compile_bpf default_policy) (Resolved [\<lparr>ei_dev = 5, ei_inode = 42\<rparr>]) b) = Inr ()"
    by (simp add: update_policy_def n check_rule_count_def MAX_RULES_PER_SANDBOX_def exec_entries_of_def)
       (simp add: compile_bpf_def default_policy_def resolve_net_rules_def)
  then show "\<exists>m'. exec_install witness_world scenario_snapshot [\<lparr>ei_dev = 5, ei_inode = 42\<rparr>] witness_m1 = (Inr (), m')"
    by (simp add: exec_install_def on_bpf_def b witness_world_def scenario_snapshot_def witness_snapshot_def) (auto split: prod.splits)
  show "net_clean bt_get (bpf witness_m1)" unfolding b
    using m1(2) by (auto simp: net_clean_def register_sandbox_def write_ctx_def map_update_def manager_new_def trie_kernel_def empty_maps_def Let_def)
qed

theorem escape_scenarios_blocked_witness:
  "\<exists>s. launches scenario_args (exec_install witness_world scenario_snapshot) witness_task witness_m1 s \<and> l_child s = CExecd \<and>
     snd (read_shadow (answer (landlock_verdict (t_landlock (l_task s)) ''/etc/shadow'' READ_FILE) (Inr ''root:x:0:0''))) = 0 \<and>
     snd (exec_denied (answer (fst (bprm_check_security 0 (maps (bpf (l_install s))) 2 (Some (7, 8)))) (Inr ()))) = 0"
proof -
  obtain m' where "exec_install witness_world scenario_snapshot [\<lparr>ei_dev = 5, ei_inode = 42\<rparr>] witness_m1 = (Inr (), m')"
    using scenario_install(1) by blast
  moreover have p: "lp_seccomp_profile scenario_launch = PROFILE_DEFAULT" "lp_exec_paths scenario_launch = [''/workspace/scenario'']"
    "lp_exec_prefixes scenario_launch = []"
    by (simp_all add: scenario_launch_def build_launch_policy_def default_policy_def compile_seccomp_def PROFILE_DEFAULT_def Let_def)
  ultimately obtain s where
    s: "launches scenario_args (exec_install witness_world scenario_snapshot) witness_task witness_m1 s" "l_child s = CExecd"
    using witness_run [where lp = scenario_launch and H = scenario_host and mi = "Some ''1 0 0:5 / / rw''" and
        inst = "exec_install witness_world scenario_snapshot" and ids = "[\<lparr>ei_dev = 5, ei_inode = 42\<rparr>]" and b = witness_m1] scenario_identities
    by auto
  have w: "lpm_trie (w_kernel witness_world) bt_get" "kfault (w_kernel witness_world) = (\<lambda>_. False)"
    by (simp_all add: witness_world_def trie_kernel_lpm) (simp add: trie_kernel_def)
  have x: "ls_policy scenario_snapshot = default_policy" "ls_cgid scenario_snapshot = 2" by (simp_all add: scenario_snapshot_def witness_snapshot_def)
  have A: "la_policy scenario_args = build_launch_policy 1 default_policy ''/workspace/scenario''" "task_caps_ok (la_kernel scenario_args) witness_task"
    by (simp_all add: scenario_launch_def witness_args_def witness_kernel_ok(7))
  have ids: "\<not> (ei_inode i = 7 \<and> ei_dev i = ucast (8 :: u32))"
    if "collect_exec_identities (la_host scenario_args) (la_mountinfo scenario_args) [''/workspace/scenario''] [] = Inr ids" "i \<in> set ids" for ids i
    using that scenario_identities by auto
  note escape_scenarios_blocked [where ino = 7 and dev = 8 and ?r1.0 = "Inr ''root:x:0:0''" and ?r2.0 = "Inr ()",
      OF w witness_m1_run scenario_install(2) x(1) A(1) s A(2) ids]
  with s
  show ?thesis by (auto simp: Let_def x(2))
qed

end
