(* ===== verification/Build_Script.thy ===== *)
theory Build_Script
  imports Bpf_Loader
begin

text \<open>
  The build script of the BPF programs (\<^verbatim>\<open>aivisor-bpf/build.rs\<close>) and what the loader makes of its result. The environment of the
  build and the compiler are parameters. Of the lines printed for cargo the outcome keeps the warning and the exported directory, which decide what
  the loader sees; the \<^verbatim>\<open>rerun-if-changed\<close> lines only say when to run the script again.
\<close>

section \<open>The script\<close>

text \<open>A command gives its success, or nothing when it cannot be run at all.\<close>

record build_env =
  env_clang :: "string option"
  env_out_dir :: "string option"
  cfg_target_arch :: "string option"
  bpf_src_dir :: string
  file_exists :: "string \<Rightarrow> bool"
  run_command :: "string \<Rightarrow> string list \<Rightarrow> bool option"

text \<open>The script ends with a warning, by a panic, or with the directory of the objects exported.\<close>

datatype build_outcome = Warned string | Panicked string | Exported string

definition SCRIPT_OBJECTS :: "string list" where
  "SCRIPT_OBJECTS = [''fs'', ''exec'', ''net'', ''priv'', ''task'']"

definition find_clang :: "build_env \<Rightarrow> string option" where
  "find_clang E =
     (let candidate = (case env_clang E of Some c \<Rightarrow> c | None \<Rightarrow> ''clang'')
      in if run_command E candidate [''--print-targets''] = Some True then Some candidate else None)"

definition target_arch_define :: "build_env \<Rightarrow> string + string" where
  "target_arch_define E =
     (case cfg_target_arch E of
        None \<Rightarrow> Inr ''__TARGET_ARCH_x86''
      | Some arch \<Rightarrow>
          if arch = ''x86_64'' then Inr ''__TARGET_ARCH_x86''
          else if arch = ''aarch64'' then Inr ''__TARGET_ARCH_arm64''
          else Inl ''no __TARGET_ARCH_* mapping'')"

definition clang_args :: "string \<Rightarrow> string \<Rightarrow> string \<Rightarrow> string \<Rightarrow> string list" where
  "clang_args arch src dst inc =
     [''-target'', ''bpf'', ''-D'' @ arch, ''-g'', ''-O2'', ''-Wall'', ''-Wno-unused-value'', ''-Wno-pointer-sign'',
      ''-Wno-compare-distinct-pointer-types'', ''-c'', ''-I'', inc, src, ''-o'', dst]"

definition compile_one :: "build_env \<Rightarrow> string \<Rightarrow> string \<Rightarrow> string \<Rightarrow> string \<Rightarrow> string + unit" where
  "compile_one E clang src dst inc =
     rbind (target_arch_define E) (\<lambda>arch.
       case run_command E clang (clang_args arch src dst inc) of
         None \<Rightarrow> Inl ''failed to invoke clang''
       | Some ok \<Rightarrow> if ok then Inr () else Inl ''clang failed compiling'')"

definition object_source :: "build_env \<Rightarrow> string \<Rightarrow> string" where
  "object_source E name = bpf_src_dir E @ ''/'' @ name @ ''.bpf.c''"

definition object_file :: "string \<Rightarrow> string \<Rightarrow> string" where
  "object_file dir name = dir @ ''/'' @ name @ ''.bpf.o''"

fun compile_all :: "build_env \<Rightarrow> string \<Rightarrow> string \<Rightarrow> string list \<Rightarrow> string + unit" where
  "compile_all E clang out_dir [] = Inr ()"
| "compile_all E clang out_dir (name # names) =
     rbind (compile_one E clang (object_source E name) (object_file out_dir name) (bpf_src_dir E)) (\<lambda>_. compile_all E clang out_dir names)"

definition build_main :: "build_env \<Rightarrow> build_outcome" where
  "build_main E =
     (case find_clang E of
        None \<Rightarrow> Warned ''clang not found''
      | Some clang \<Rightarrow>
          if \<not> file_exists E (bpf_src_dir E @ ''/vmlinux.h'') then Warned ''src/bpf/vmlinux.h not found''
          else (case env_out_dir E of
                  None \<Rightarrow> Panicked ''OUT_DIR set by cargo''
                | Some out_dir \<Rightarrow>
                    (case compile_all E clang out_dir SCRIPT_OBJECTS of
                       Inl e \<Rightarrow> Panicked e
                     | Inr _ \<Rightarrow> Exported out_dir)))"

text \<open>A crate whose build script panics is not built; otherwise the loader sees the exported directory, if any.\<close>

definition built_with :: "build_outcome \<Rightarrow> libbpf \<Rightarrow> bool" where
  "built_with r L \<longleftrightarrow> (case r of Warned _ \<Rightarrow> object_dir L = None | Panicked _ \<Rightarrow> False | Exported d \<Rightarrow> object_dir L = Some d)"

section \<open>From the script to the loader\<close>

text \<open>An object was compiled: clang ran on its source with the loader's file as its output, and succeeded.\<close>

definition compiled :: "build_env \<Rightarrow> string \<Rightarrow> string \<Rightarrow> bool" where
  "compiled E dir name \<longleftrightarrow>
     (\<exists>clang arch. find_clang E = Some clang \<and> target_arch_define E = Inr arch \<and>
        run_command E clang (clang_args arch (object_source E name) (object_file dir name) (bpf_src_dir E)) = Some True)"

lemma compile_all_Inr:
  "compile_all E clang out_dir names = Inr u \<Longrightarrow> name \<in> set names \<Longrightarrow>
   \<exists>arch. target_arch_define E = Inr arch \<and>
     run_command E clang (clang_args arch (object_source E name) (object_file out_dir name) (bpf_src_dir E)) = Some True"
  by (induction names) (auto simp: rbind_def compile_one_def split: sum.splits option.splits if_splits)

lemma load_and_attach_opens:
  assumes "load_and_attach L s = (Inr P, s')" "name \<in> set OBJECTS"
  shows "\<exists>dir ob. object_dir L = Some dir \<and> open_file L (object_file dir name) = Some ob"
proof -
  obtain dir where dir: "object_dir L = Some dir"
    using assms(1) by (auto simp: load_and_attach_def compiled_object_dir_def ok_or_def split: option.splits)
  have "siter (load_one L dir) names st = (Inr u, st') \<Longrightarrow> name \<in> set names \<Longrightarrow> \<exists>ob. open_file L (object_file dir name) = Some ob" for names st st' u
    by (induction names arbitrary: st) (auto simp: sbind_Inr_iff load_one_def object_file_def split: prod.splits option.splits)
  then show ?thesis
    using assms dir by (fastforce simp: load_and_attach_def compiled_object_dir_def ok_or_def split: prod.splits sum.splits if_splits)
qed

text \<open>
  C26. Programs are loaded only from a complete build. When the daemon, built with the outcome of the script, loads its programs, then every object it
  opened is one that clang compiled from its source in this build; a build without a compiler or without the kernel's type
  definitions leaves a loader that refuses to start and changes nothing.
\<close>
theorem loaded_objects_were_compiled:
  assumes "built_with (build_main E) L"
  shows "(case load_and_attach L s of
      (Inr _, _) \<Rightarrow> (\<exists>dir. object_dir L = Some dir \<and> list_all (\<lambda>name. open_file L (object_file dir name) \<noteq> None \<and> compiled E dir name) OBJECTS)
    | (Inl _, _) \<Rightarrow> True) \<and>
    (case build_main E of
       Warned _ \<Rightarrow> load_and_attach L s = (Inl (LaunchFailed ''AIVISOR_BPF_OUT_DIR not set at compile time''), s)
     | _ \<Rightarrow> True)"
proof -
  have objs: "set OBJECTS = set SCRIPT_OBJECTS" by (simp add: OBJECTS_def SCRIPT_OBJECTS_def)
  have "\<exists>dir. object_dir L = Some dir \<and> list_all (\<lambda>name. open_file L (object_file dir name) \<noteq> None \<and> compiled E dir name) OBJECTS"
    if l: "load_and_attach L s = (Inr P, s')" for P s'
  proof -
    obtain dir where dir: "object_dir L = Some dir" using load_and_attach_opens [OF l, of "''fs''"] by (auto simp: OBJECTS_def)
    with assms have "build_main E = Exported dir" by (auto simp: built_with_def split: build_outcome.splits)
    then have "compiled E dir name" if "name \<in> set OBJECTS" for name
      using that compile_all_Inr by (auto simp: build_main_def compiled_def objs split: option.splits sum.splits if_splits)
    with load_and_attach_opens [OF l] dir show ?thesis by (fastforce simp: list_all_iff)
  qed
  moreover have "load_and_attach L s = (Inl (LaunchFailed ''AIVISOR_BPF_OUT_DIR not set at compile time''), s)" if "build_main E = Warned w" for w
    using assms that by (simp add: built_with_def load_and_attach_def compiled_object_dir_def ok_or_def)
  ultimately show ?thesis by (auto split: prod.split sum.split build_outcome.split)
qed

definition sample_build :: build_env where
  "sample_build =
     \<lparr>env_clang = Some ''clang-18'', env_out_dir = Some ''/out'', cfg_target_arch = Some ''aarch64'', bpf_src_dir = ''/bpf'',
      file_exists = (\<lambda>f. f = ''/bpf/vmlinux.h''), run_command = (\<lambda>c _. if c = ''clang-18'' then Some True else None)\<rparr>"

theorem loaded_objects_were_compiled_witness:
  "build_main sample_build = Exported ''/out'' \<and> compiled sample_build ''/out'' ''net'' \<and>
   build_main (sample_build\<lparr>env_clang := None\<rparr>) = Warned ''clang not found'' \<and>
   load_and_attach (sample_libbpf\<lparr>object_dir := None\<rparr>) (kstate sample_process) =
     (Inl (LaunchFailed ''AIVISOR_BPF_OUT_DIR not set at compile time''), kstate sample_process)"
proof -
  have b: "build_main sample_build = Exported ''/out''" "build_main (sample_build\<lparr>env_clang := None\<rparr>) = Warned ''clang not found''"
    by (simp_all add: build_main_def find_clang_def sample_build_def SCRIPT_OBJECTS_def compile_one_def target_arch_define_def)
  have d: "object_dir sample_libbpf = Some ''/out''" by (simp add: sample_libbpf_def)
  obtain P s' where l: "load_and_attach sample_libbpf (kstate sample_process) = (Inr P, s')"
    using sample_enforced by (auto simp: enforcement_def init_enforcement_def Let_def sample_process_def split: sum.splits prod.splits)
  have "compiled sample_build ''/out'' ''net''"
    using loaded_objects_were_compiled [of sample_build sample_libbpf "kstate sample_process"]
    by (simp add: built_with_def b d l OBJECTS_def)
  with loaded_objects_were_compiled [of "sample_build\<lparr>env_clang := None\<rparr>" "sample_libbpf\<lparr>object_dir := None\<rparr>" "kstate sample_process"] b
  show ?thesis by (simp add: built_with_def)
qed

end
