(* ===== verification/Kernel_Abi.thy ===== *)
theory Kernel_Abi
  imports Launch Bpf_Wire
begin

text \<open>
  The system calls at the level of registers and memory (\<^verbatim>\<open>aivisor-runtime/src/abi.rs\<close>): the structures as the bytes the kernel
  reads, the wrappers with their arguments, and the code of \<^verbatim>\<open>caps.rs\<close> and \<^verbatim>\<open>landlock.rs\<close> over them. What the kernel does with
  a call is a locale with the documented behaviour of each; the main theorem shows that the calls, as made, have the effects the child's
  set-up is modelled with.
\<close>

section \<open>Structures in memory\<close>

text \<open>
  \<^verbatim>\<open>repr(C)\<close>: each field at the next multiple of its size, the whole a multiple of the largest; \<^verbatim>\<open>packed\<close>: without gaps. A gap is
  written as zeros here; none of the structures below has one.
\<close>

definition align_up :: "nat \<Rightarrow> nat \<Rightarrow> nat" where
  "align_up off a = (off + a - 1) div a * a"

definition pad_to :: "nat \<Rightarrow> bytes \<Rightarrow> bytes" where
  "pad_to a b = b @ replicate (align_up (length b) a - length b) 0"

definition repr_c :: "bytes list \<Rightarrow> bytes" where
  "repr_c fs = pad_to (foldr (max \<circ> length) fs 1) (fold (\<lambda>f acc. pad_to (length f) acc @ f) fs [])"

definition repr_packed :: "bytes list \<Rightarrow> bytes" where
  "repr_packed fs = concat fs"

record CapUserHeader =
  ch_version :: u32
  ch_pid :: u32

record CapUserData =
  cd_effective :: u32
  cd_permitted :: u32
  cd_inheritable :: u32

record LandlockRulesetAttr =
  handled_access_fs :: u64
  handled_access_net :: u64

record LandlockPathBeneathAttr =
  allowed_access :: u64
  parent_fd :: u32

record CloneArgs =
  ca_flags :: u64
  ca_pidfd :: u64
  ca_child_tid :: u64
  ca_parent_tid :: u64
  ca_exit_signal :: u64
  ca_stack :: u64
  ca_stack_size :: u64
  ca_tls :: u64
  ca_set_tid :: u64
  ca_set_tid_size :: u64
  ca_cgroup :: u64

definition header_bytes :: "CapUserHeader \<Rightarrow> bytes" where
  "header_bytes h = repr_c [le_bytes 4 (ch_version h), le_bytes 4 (ch_pid h)]"

definition data_bytes :: "CapUserData \<Rightarrow> bytes" where
  "data_bytes d = repr_c [le_bytes 4 (cd_effective d), le_bytes 4 (cd_permitted d), le_bytes 4 (cd_inheritable d)]"

definition ruleset_bytes :: "LandlockRulesetAttr \<Rightarrow> bytes" where
  "ruleset_bytes a = repr_packed [le_bytes 8 (handled_access_fs a), le_bytes 8 (handled_access_net a)]"

definition path_beneath_bytes :: "LandlockPathBeneathAttr \<Rightarrow> bytes" where
  "path_beneath_bytes a = repr_packed [le_bytes 8 (allowed_access a), le_bytes 4 (parent_fd a)]"

definition clone_bytes :: "CloneArgs \<Rightarrow> bytes" where
  "clone_bytes a = repr_c (map (le_bytes 8)
     [ca_flags a, ca_pidfd a, ca_child_tid a, ca_parent_tid a, ca_exit_signal a, ca_stack a, ca_stack_size a, ca_tls a, ca_set_tid a,
      ca_set_tid_size a, ca_cgroup a])"

definition CapUserData_default :: CapUserData where
  "CapUserData_default = \<lparr>cd_effective = 0, cd_permitted = 0, cd_inheritable = 0\<rparr>"

definition CloneArgs_default :: CloneArgs where
  "CloneArgs_default = \<lparr>ca_flags = 0, ca_pidfd = 0, ca_child_tid = 0, ca_parent_tid = 0, ca_exit_signal = 0, ca_stack = 0, ca_stack_size = 0,
     ca_tls = 0, ca_set_tid = 0, ca_set_tid_size = 0, ca_cgroup = 0\<rparr>"

text \<open>A C string: its bytes and the terminating zero.\<close>

definition c_string :: "string \<Rightarrow> bytes" where
  "c_string s = map of_char s @ [0]"

definition read_c_string :: "bytes \<Rightarrow> string" where
  "read_c_string b = map (\<lambda>x. char_of (unat x)) (takeWhile (\<lambda>x. x \<noteq> 0) b)"

section \<open>The wrappers\<close>

text \<open>An argument is a number or the memory a pointer leads to.\<close>

datatype sysarg = Num u64 | Ptr bytes | Null

type_synonym kernel_call = "string \<times> sysarg list"

definition PR_SET_NO_NEW_PRIVS :: u32 where "PR_SET_NO_NEW_PRIVS = 38"
definition PR_CAPBSET_DROP :: u32 where "PR_CAPBSET_DROP = 24"
definition PR_CAP_AMBIENT :: u32 where "PR_CAP_AMBIENT = 47"
definition PR_CAP_AMBIENT_CLEAR_ALL :: u32 where "PR_CAP_AMBIENT_CLEAR_ALL = 4"
definition LINUX_CAPABILITY_VERSION_3 :: u32 where "LINUX_CAPABILITY_VERSION_3 = 0x20080522"
definition LANDLOCK_CREATE_RULESET_VERSION :: u32 where "LANDLOCK_CREATE_RULESET_VERSION = push_bit 0 1"
definition LANDLOCK_RULE_PATH_BENEATH :: u32 where "LANDLOCK_RULE_PATH_BENEATH = 1"
definition MNT_DETACH :: u32 where "MNT_DETACH = 2"

text \<open>A \<^verbatim>\<open>c_int\<close> is sign-extended in its register, an unsigned number is not.\<close>

definition int_arg :: "u32 \<Rightarrow> sysarg" where "int_arg i = Num (scast i)"
definition uint_arg :: "u32 \<Rightarrow> sysarg" where "uint_arg i = Num (ucast i)"

definition str_arg :: "string option \<Rightarrow> sysarg" where
  "str_arg p = (case p of None \<Rightarrow> Null | Some s \<Rightarrow> Ptr (c_string s))"

definition abi_capset :: "CapUserHeader \<Rightarrow> CapUserData list \<Rightarrow> kernel_call" where
  "abi_capset hdr ds = (''capset'', [Ptr (header_bytes hdr), Ptr (concat (map data_bytes ds))])"

definition abi_capget :: "CapUserHeader \<Rightarrow> CapUserData list \<Rightarrow> kernel_call" where
  "abi_capget hdr ds = (''capget'', [Ptr (header_bytes hdr), Ptr (concat (map data_bytes ds))])"

definition abi_prctl :: "u32 \<Rightarrow> u64 \<Rightarrow> u64 \<Rightarrow> u64 \<Rightarrow> u64 \<Rightarrow> kernel_call" where
  "abi_prctl opt a2 a3 a4 a5 = (''prctl'', [int_arg opt, Num a2, Num a3, Num a4, Num a5])"

definition abi_landlock_create_ruleset :: "LandlockRulesetAttr option \<Rightarrow> u64 \<Rightarrow> u32 \<Rightarrow> kernel_call" where
  "abi_landlock_create_ruleset a sz fl =
     (''landlock_create_ruleset'', [case a of None \<Rightarrow> Null | Some a \<Rightarrow> Ptr (ruleset_bytes a), Num sz, uint_arg fl])"

definition abi_landlock_add_rule :: "u32 \<Rightarrow> u32 \<Rightarrow> LandlockPathBeneathAttr \<Rightarrow> u32 \<Rightarrow> kernel_call" where
  "abi_landlock_add_rule fd ty a fl = (''landlock_add_rule'', [int_arg fd, int_arg ty, Ptr (path_beneath_bytes a), uint_arg fl])"

definition abi_landlock_restrict_self :: "u32 \<Rightarrow> u32 \<Rightarrow> kernel_call" where
  "abi_landlock_restrict_self fd fl = (''landlock_restrict_self'', [int_arg fd, uint_arg fl])"

definition abi_clone3 :: "CloneArgs \<Rightarrow> kernel_call" where
  "abi_clone3 a = (''clone3'', [Ptr (clone_bytes a), Num (of_nat (length (clone_bytes a)))])"

definition abi_mount :: "string option \<Rightarrow> string option \<Rightarrow> string option \<Rightarrow> u64 \<Rightarrow> string option \<Rightarrow> kernel_call" where
  "abi_mount source target fstype fl data = (''mount'', [str_arg source, str_arg target, str_arg fstype, Num fl, str_arg data])"

definition abi_umount2 :: "string \<Rightarrow> u32 \<Rightarrow> kernel_call" where
  "abi_umount2 target fl = (''umount2'', [str_arg (Some target), int_arg fl])"

definition abi_pivot_root :: "string \<Rightarrow> string \<Rightarrow> kernel_call" where
  "abi_pivot_root new_root put_old = (''pivot_root'', [str_arg (Some new_root), str_arg (Some put_old)])"

section \<open>The kernel\<close>

text \<open>Two 32-bit slots make a 64-bit set: capabilities 0 to 31 in the first, 32 to 63 in the second.\<close>

definition join_slots :: "u32 \<Rightarrow> u32 \<Rightarrow> u64" where
  "join_slots lo hi = ucast lo OR push_bit 32 (ucast hi)"

definition low_slot :: "u64 \<Rightarrow> u32" where "low_slot w = ucast w"
definition high_slot :: "u64 \<Rightarrow> u32" where "high_slot w = ucast (drop_bit 32 w)"

lemma join_slots_split [simp]: "join_slots (low_slot w) (high_slot w) = w"
  by (rule bit_word_eqI) (auto simp: join_slots_def low_slot_def high_slot_def bit_simps)

lemma join_slots_0 [simp]: "join_slots 0 0 = 0"
  by (simp add: join_slots_def)

definition subset_mask :: "u64 \<Rightarrow> u64 \<Rightarrow> bool" where
  "subset_mask a b \<longleftrightarrow> a AND NOT b = 0"

text \<open>
  A call of a task with a table of open descriptors gives what it writes back through its second pointer and the task after it. The
  laws are those of \<^verbatim>\<open>prctl(2)\<close>, \<^verbatim>\<open>capset(2)\<close> and \<^verbatim>\<open>landlock(7)\<close> for the calls that succeed: a capability set may only shrink,
  the effective set stays within the permitted one.
\<close>

locale linux_abi =
  fixes kcall :: "(u32 \<Rightarrow> string option) \<Rightarrow> kernel_call \<Rightarrow> task \<Rightarrow> bytes \<times> task"
  assumes no_new_privs_law: "kcall F (''prctl'', [Num 38, Num 1, Num 0, Num 0, Num 0]) t = ([], t\<lparr>t_nnp := True\<rparr>)"
    and ambient_law: "kcall F (''prctl'', [Num 47, Num 4, Num 0, Num 0, Num 0]) t = ([], t\<lparr>t_ambient := 0\<rparr>)"
    and bounding_law: "c < 64 \<Longrightarrow> kcall F (''prctl'', [Num 24, Num c, Num 0, Num 0, Num 0]) t =
        ([], t\<lparr>t_bounding := t_bounding t AND NOT (push_bit (unat c) 1)\<rparr>)"
    and capget_law: "length h = 8 \<Longrightarrow> u32_at h 0 = 0x20080522 \<Longrightarrow> u32_at h 4 = 0 \<Longrightarrow> length d = 24 \<Longrightarrow>
        kcall F (''capget'', [Ptr h, Ptr d]) t =
          (concat (map (le_bytes 4)
             [low_slot (t_effective t), low_slot (t_permitted t), low_slot (t_inheritable t),
              high_slot (t_effective t), high_slot (t_permitted t), high_slot (t_inheritable t)]), t)"
    and capset_law: "length h = 8 \<Longrightarrow> u32_at h 0 = 0x20080522 \<Longrightarrow> u32_at h 4 = 0 \<Longrightarrow> length d = 24 \<Longrightarrow>
        eff = join_slots (u32_at d 0) (u32_at d 12) \<Longrightarrow> per = join_slots (u32_at d 4) (u32_at d 16) \<Longrightarrow>
        inh = join_slots (u32_at d 8) (u32_at d 20) \<Longrightarrow>
        subset_mask per (t_permitted t) \<Longrightarrow> subset_mask eff per \<Longrightarrow> subset_mask inh (t_inheritable t) \<Longrightarrow>
        kcall F (''capset'', [Ptr h, Ptr d]) t = ([], t\<lparr>t_effective := eff, t_permitted := per, t_inheritable := inh\<rparr>)"
    and create_law: "length a = 16 \<Longrightarrow> u64_at a 8 = 0 \<Longrightarrow>
        kcall F (''landlock_create_ruleset'', [Ptr a, Num 16, Num 0]) t = ([], t\<lparr>t_ruleset := Some (u64_at a 0, [])\<rparr>)"
    and add_law: "length a = 12 \<Longrightarrow> F (u32_at a 8) = Some p \<Longrightarrow>
        kcall F (''landlock_add_rule'', [Num fd, Num 1, Ptr a, Num 0]) t =
          ([], t\<lparr>t_ruleset := map_option (\<lambda>(h, rs). (h, rs @ [(p, u64_at a 0)])) (t_ruleset t)\<rparr>)"
    and restrict_law: "kcall F (''landlock_restrict_self'', [Num fd, Num 0]) t = ([], t\<lparr>t_landlock := t_ruleset t\<rparr>)"
    and close_law: "kcall F (''close'', [Num fd]) t = ([], t\<lparr>t_ruleset := None\<rparr>)"

section \<open>The code over the calls\<close>

definition invoke :: "((u32 \<Rightarrow> string option) \<Rightarrow> kernel_call \<Rightarrow> task \<Rightarrow> bytes \<times> task) \<Rightarrow> kernel_call \<Rightarrow> task \<Rightarrow> task" where
  "invoke kcall c t = snd (kcall Map.empty c t)"

definition cap_header :: CapUserHeader where
  "cap_header = \<lparr>ch_version = LINUX_CAPABILITY_VERSION_3, ch_pid = 0\<rparr>"

definition abi_set_no_new_privs :: kernel_call where
  "abi_set_no_new_privs = abi_prctl PR_SET_NO_NEW_PRIVS 1 0 0 0"

definition abi_clear_ambient :: kernel_call where
  "abi_clear_ambient = abi_prctl PR_CAP_AMBIENT (ucast PR_CAP_AMBIENT_CLEAR_ALL) 0 0 0"

definition abi_capbset_drop :: "nat \<Rightarrow> kernel_call" where
  "abi_capbset_drop cap = abi_prctl PR_CAPBSET_DROP (of_nat cap) 0 0 0"

definition abi_clear_all_sets :: kernel_call where
  "abi_clear_all_sets = abi_capset cap_header [CapUserData_default, CapUserData_default]"

text \<open>\<^verbatim>\<open>capget\<close> fills the two slots.\<close>

definition read_slots :: "bytes \<Rightarrow> CapUserData list" where
  "read_slots b = map (\<lambda>i. \<lparr>cd_effective = u32_at b (12 * i), cd_permitted = u32_at b (12 * i + 4), cd_inheritable = u32_at b (12 * i + 8)\<rparr>) [0, 1]"

definition abi_clear_inheritable :: "((u32 \<Rightarrow> string option) \<Rightarrow> kernel_call \<Rightarrow> task \<Rightarrow> bytes \<times> task) \<Rightarrow> task \<Rightarrow> task" where
  "abi_clear_inheritable kcall t =
     (let (b, t) = kcall Map.empty (abi_capget cap_header [CapUserData_default, CapUserData_default]) t;
          data = map (\<lambda>slot. slot\<lparr>cd_inheritable := 0\<rparr>) (read_slots b)
      in invoke kcall (abi_capset cap_header data) t)"

text \<open>The descriptor of a rule's directory is open while its rule is added; the descriptors are the kernel's choice.\<close>

definition abi_landlock_rule ::
    "((u32 \<Rightarrow> string option) \<Rightarrow> kernel_call \<Rightarrow> task \<Rightarrow> bytes \<times> task) \<Rightarrow> u32 \<Rightarrow> (string \<Rightarrow> u32) \<Rightarrow> u64 \<Rightarrow> LandlockRule \<Rightarrow> task \<Rightarrow> task" where
  "abi_landlock_rule kcall ruleset_fd open_dir_fd handled rule t =
     (let access_mask = ll_access_mask rule AND handled; target_fd = open_dir_fd (ll_path rule)
      in if access_mask = 0 then t
         else snd (kcall [target_fd \<mapsto> ll_path rule]
                (abi_landlock_add_rule ruleset_fd LANDLOCK_RULE_PATH_BENEATH \<lparr>allowed_access = access_mask, parent_fd = target_fd\<rparr> 0) t))"

definition abi_apply_landlock ::
    "((u32 \<Rightarrow> string option) \<Rightarrow> kernel_call \<Rightarrow> task \<Rightarrow> bytes \<times> task) \<Rightarrow> u32 \<Rightarrow> (string \<Rightarrow> u32) \<Rightarrow> LandlockPlan \<Rightarrow> task \<Rightarrow> task" where
  "abi_apply_landlock kcall ruleset_fd open_dir_fd plan t =
     (let handled = known_at_abi (ll_abi plan);
          attr = \<lparr>handled_access_fs = handled, handled_access_net = 0\<rparr>;
          t = invoke kcall (abi_landlock_create_ruleset (Some attr) (of_nat (length (ruleset_bytes attr))) 0) t;
          t = fold (abi_landlock_rule kcall ruleset_fd open_dir_fd handled) (ll_rules plan) t
      in invoke kcall (''close'', [int_arg ruleset_fd]) (invoke kcall (abi_landlock_restrict_self ruleset_fd 0) t))"

definition SIGCHLD :: u32 where "SIGCHLD = 17"

definition clone_args :: "bool \<Rightarrow> u32 \<Rightarrow> u64 \<Rightarrow> CloneArgs" where
  "clone_args use_clone_into_cgroup cg_fd pidfd_slot =
     CloneArgs_default\<lparr>ca_flags := clone_flags use_clone_into_cgroup, ca_exit_signal := ucast SIGCHLD,
       ca_cgroup := if use_clone_into_cgroup then scast cg_fd else 0, ca_pidfd := pidfd_slot\<rparr>"

section \<open>Layout\<close>

lemma pad_to_fits [simp]:
  assumes "length b mod a = 0" "0 < a"
  shows "pad_to a b = b"
proof -
  obtain k where k: "length b = a * k" using assms(1) by auto
  have "a * k + a - 1 = a - 1 + a * k" using assms(2) by linarith
  then have "(a * k + a - 1) div a = (a - 1) div a + k" using assms(2) by (metis div_mult_self2 add.commute less_not_refl)
  then show ?thesis using assms(2) by (simp add: pad_to_def align_up_def k)
qed

text \<open>The sizes the kernel's headers give; unpacked, the rule of a path would be four bytes longer.\<close>

lemma structure_sizes [simp]:
  "length (header_bytes h) = 8" "length (data_bytes d) = 12" "length (ruleset_bytes r) = 16" "length (path_beneath_bytes p) = 12"
  "length (clone_bytes a) = 88"
  by (simp_all add: header_bytes_def data_bytes_def ruleset_bytes_def path_beneath_bytes_def clone_bytes_def repr_c_def repr_packed_def)

lemma unpacked_rule_size: "length (repr_c [le_bytes 8 (allowed_access p), le_bytes 4 (parent_fd p)]) = 16"
  by (simp add: repr_c_def pad_to_def align_up_def)

text \<open>The fields at the offsets the kernel reads them from.\<close>

lemma structure_fields [simp]:
  "u32_at (header_bytes h) 0 = ch_version h" "u32_at (header_bytes h) 4 = ch_pid h"
  "u32_at (data_bytes d @ b) 0 = cd_effective d" "u32_at (data_bytes d @ b) 4 = cd_permitted d" "u32_at (data_bytes d @ b) 8 = cd_inheritable d"
  "u64_at (ruleset_bytes r) 0 = handled_access_fs r" "u64_at (ruleset_bytes r) 8 = handled_access_net r"
  "u64_at (path_beneath_bytes p) 0 = allowed_access p" "u32_at (path_beneath_bytes p) 8 = parent_fd p"
  "u64_at (clone_bytes a) 0 = ca_flags a" "u64_at (clone_bytes a) 8 = ca_pidfd a" "u64_at (clone_bytes a) 32 = ca_exit_signal a"
  "u64_at (clone_bytes a) 40 = ca_stack a" "u64_at (clone_bytes a) 48 = ca_stack_size a" "u64_at (clone_bytes a) 80 = ca_cgroup a"
  by (simp_all add: header_bytes_def data_bytes_def ruleset_bytes_def path_beneath_bytes_def clone_bytes_def repr_c_def repr_packed_def u32_at_def u64_at_def)

text \<open>The child is cloned into its namespaces and, where the kernel can, its cgroup; it has no stack of its own, as after a fork.\<close>

lemma clone_call:
  obtains b where "abi_clone3 (clone_args use_cg cg_fd slot) = (''clone3'', [Ptr b, Num 88])" "length b = 88" "u64_at b 0 = clone_flags use_cg"
    "u64_at b 8 = slot" "u64_at b 32 = 17" "u64_at b 40 = 0" "u64_at b 48 = 0" "u64_at b 80 = (if use_cg then scast cg_fd else 0)"
  by (rule that [of "clone_bytes (clone_args use_cg cg_fd slot)"])
     (simp_all add: abi_clone3_def clone_args_def CloneArgs_default_def SIGCHLD_def)

lemma second_slot [simp]: "u32_at (data_bytes d @ b) (12 + n) = u32_at b n"
  by (simp add: u32_at_def)

section \<open>The calls have the modelled effects\<close>

text \<open>A step of the child's set-up is realised by calls when they leave the task as the step does, but for the count of calls.\<close>

definition unclocked :: "task \<Rightarrow> task" where
  "unclocked t = t\<lparr>t_clock := 0\<rparr>"

definition realises :: "launch_kernel \<Rightarrow> (task \<Rightarrow> task) \<Rightarrow> (launch_kernel \<Rightarrow> task \<Rightarrow> (string + unit) \<times> task) \<Rightarrow> task \<Rightarrow> bool" where
  "realises K f op t \<longleftrightarrow> (case op K t of (Inr _, t') \<Rightarrow> unclocked t' = unclocked (f t) | (Inl _, _) \<Rightarrow> True)"

lemma realisesI: "(\<And>t'. op K t = (Inr (), t') \<Longrightarrow> unclocked t' = unclocked (f t)) \<Longrightarrow> realises K f op t"
  by (auto simp: realises_def split: prod.splits sum.splits)

lemma unclocked_eqE: "unclocked t = unclocked u \<Longrightarrow> (\<And>n. t = u\<lparr>t_clock := n\<rparr> \<Longrightarrow> P) \<Longrightarrow> P"
  by (cases t; cases u) (auto simp: unclocked_def)

lemma subset_mask_simps [simp]: "subset_mask 0 b" "subset_mask a a"
  by (simp_all add: subset_mask_def)

context linux_abi
begin

lemma capset_abi:
  assumes "eff = join_slots (cd_effective d) (cd_effective e)" "per = join_slots (cd_permitted d) (cd_permitted e)"
    "inh = join_slots (cd_inheritable d) (cd_inheritable e)"
    "subset_mask per (t_permitted t)" "subset_mask eff per" "subset_mask inh (t_inheritable t)"
  shows "invoke kcall (abi_capset cap_header [d, e]) t = t\<lparr>t_effective := eff, t_permitted := per, t_inheritable := inh\<rparr>"
  using capset_law [of "header_bytes cap_header" "data_bytes d @ data_bytes e @ []" eff per inh t Map.empty] assms
    second_slot [of d "data_bytes e @ []" 0] second_slot [of d "data_bytes e @ []" 4] second_slot [of d "data_bytes e @ []" 8]
  by (simp add: invoke_def abi_capset_def cap_header_def LINUX_CAPABILITY_VERSION_3_def del: append_Nil2)

lemma clear_all_abi: "invoke kcall abi_clear_all_sets t = t\<lparr>t_effective := 0, t_permitted := 0, t_inheritable := 0\<rparr>"
  by (simp add: abi_clear_all_sets_def capset_abi CapUserData_default_def)

lemma clear_inheritable_abi:
  assumes "subset_mask (t_effective t) (t_permitted t)"
  shows "abi_clear_inheritable kcall t = t\<lparr>t_inheritable := 0\<rparr>"
proof -
  let ?b = "concat (map (le_bytes 4) [low_slot (t_effective t), low_slot (t_permitted t), low_slot (t_inheritable t),
    high_slot (t_effective t), high_slot (t_permitted t), high_slot (t_inheritable t)])"
  have "kcall Map.empty (abi_capget cap_header [CapUserData_default, CapUserData_default]) t = (?b, t)"
    unfolding abi_capget_def by (rule capget_law) (simp_all add: cap_header_def LINUX_CAPABILITY_VERSION_3_def)
  moreover have "read_slots ?b =
      [\<lparr>cd_effective = low_slot (t_effective t), cd_permitted = low_slot (t_permitted t), cd_inheritable = low_slot (t_inheritable t)\<rparr>,
       \<lparr>cd_effective = high_slot (t_effective t), cd_permitted = high_slot (t_permitted t), cd_inheritable = high_slot (t_inheritable t)\<rparr>]"
    by (simp add: read_slots_def u32_at_def)
  ultimately show ?thesis using assms by (simp add: abi_clear_inheritable_def capset_abi)
qed

lemma prctl_abi:
  "invoke kcall abi_set_no_new_privs t = t\<lparr>t_nnp := True\<rparr>" "invoke kcall abi_clear_ambient t = t\<lparr>t_ambient := 0\<rparr>"
  "cap < 64 \<Longrightarrow> invoke kcall (abi_capbset_drop cap) t = t\<lparr>t_bounding := t_bounding t AND NOT (push_bit cap 1)\<rparr>"
proof -
  have c: "of_nat cap < (64 :: u64)" "unat (of_nat cap :: u64) = cap" if "cap < 64"
    using that by (simp_all add: word_less_nat_alt unat_of_nat)
  show "invoke kcall abi_set_no_new_privs t = t\<lparr>t_nnp := True\<rparr>" "invoke kcall abi_clear_ambient t = t\<lparr>t_ambient := 0\<rparr>"
    "cap < 64 \<Longrightarrow> invoke kcall (abi_capbset_drop cap) t = t\<lparr>t_bounding := t_bounding t AND NOT (push_bit cap 1)\<rparr>"
    by (simp_all add: invoke_def abi_set_no_new_privs_def abi_clear_ambient_def abi_capbset_drop_def abi_prctl_def int_arg_def PR_SET_NO_NEW_PRIVS_def
        PR_CAP_AMBIENT_def PR_CAP_AMBIENT_CLEAR_ALL_def PR_CAPBSET_DROP_def no_new_privs_law ambient_law bounding_law c)
qed

lemma landlock_rule_abi:
  "landlock_rule K handled rule t = (Inr (), t') \<Longrightarrow> unclocked t = unclocked u \<Longrightarrow>
   unclocked t' = unclocked (abi_landlock_rule kcall rfd dfd handled rule u)"
  by (erule unclocked_eqE)
     (auto simp: unclocked_def landlock_rule_def abi_landlock_rule_def Let_def sbind_Inr_iff syscall_Inr abi_landlock_add_rule_def int_arg_def
      uint_arg_def LANDLOCK_RULE_PATH_BENEATH_def add_law split: if_splits)

lemma landlock_rules_abi:
  "siter (landlock_rule K handled) rules t = (Inr x, t') \<Longrightarrow> unclocked t = unclocked u \<Longrightarrow>
   unclocked t' = unclocked (fold (abi_landlock_rule kcall rfd dfd handled) rules u)"
  by (induction rules arbitrary: t u) (auto simp: sbind_Inr_iff dest: landlock_rule_abi)

lemma apply_landlock_abi:
  assumes "apply_landlock K plan t = (Inr (), t')"
  shows "unclocked t' = unclocked (abi_apply_landlock kcall rfd dfd plan t)"
proof -
  let ?h = "known_at_abi (ll_abi plan)"
  obtain n t1 where t1: "siter (landlock_rule K ?h) (ll_rules plan) (t\<lparr>t_clock := n, t_ruleset := Some (?h, [])\<rparr>) = (Inr (), t1)"
    "t' = t1\<lparr>t_clock := Suc (t_clock t1), t_landlock := t_ruleset t1, t_ruleset := None\<rparr>"
    using assms by (auto simp: apply_landlock_def Let_def sbind_Inr_iff syscall_Inr)
  let ?u = "fold (abi_landlock_rule kcall rfd dfd ?h) (ll_rules plan) (t\<lparr>t_ruleset := Some (?h, [])\<rparr>)"
  have "unclocked t1 = unclocked ?u" by (rule landlock_rules_abi [OF t1(1)]) (simp add: unclocked_def)
  moreover have "abi_apply_landlock kcall rfd dfd plan t = ?u\<lparr>t_landlock := t_ruleset ?u, t_ruleset := None\<rparr>"
    by (simp add: abi_apply_landlock_def Let_def invoke_def abi_landlock_create_ruleset_def abi_landlock_restrict_self_def int_arg_def uint_arg_def
        create_law restrict_law close_law)
  ultimately show ?thesis by (auto simp: t1(2) unclocked_def elim!: unclocked_eqE [unfolded unclocked_def])
qed

end

section \<open>A kernel with these laws\<close>

definition ref_capset :: "bytes \<Rightarrow> bytes \<Rightarrow> task \<Rightarrow> task" where
  "ref_capset h d t =
     (let eff = join_slots (u32_at d 0) (u32_at d 12); per = join_slots (u32_at d 4) (u32_at d 16); inh = join_slots (u32_at d 8) (u32_at d 20)
      in if u32_at h 0 = 0x20080522 \<and> u32_at h 4 = 0 \<and> subset_mask per (t_permitted t) \<and> subset_mask eff per \<and> subset_mask inh (t_inheritable t)
         then t\<lparr>t_effective := eff, t_permitted := per, t_inheritable := inh\<rparr> else t)"

definition ref_prctl :: "sysarg list \<Rightarrow> task \<Rightarrow> task" where
  "ref_prctl args t =
     (case args of
        [Num opt, Num a, Num b, Num c, Num d] \<Rightarrow>
          if opt = 38 \<and> a = 1 then t\<lparr>t_nnp := True\<rparr>
          else if opt = 47 \<and> a = 4 then t\<lparr>t_ambient := 0\<rparr>
          else if opt = 24 \<and> a < 64 then t\<lparr>t_bounding := t_bounding t AND NOT (push_bit (unat a) 1)\<rparr>
          else t
      | _ \<Rightarrow> t)"

definition ref_add_rule :: "(u32 \<Rightarrow> string option) \<Rightarrow> bytes \<Rightarrow> task \<Rightarrow> task" where
  "ref_add_rule F a t =
     (case F (u32_at a 8) of
        None \<Rightarrow> t
      | Some p \<Rightarrow> t\<lparr>t_ruleset := map_option (\<lambda>(h, rs). (h, rs @ [(p, u64_at a 0)])) (t_ruleset t)\<rparr>)"

definition ref_kernel :: "(u32 \<Rightarrow> string option) \<Rightarrow> kernel_call \<Rightarrow> task \<Rightarrow> bytes \<times> task" where
  "ref_kernel F c t =
     (case c of (name, args) \<Rightarrow>
        if name = ''prctl'' then ([], ref_prctl args t)
        else if name = ''landlock_restrict_self'' then ([], t\<lparr>t_landlock := t_ruleset t\<rparr>)
        else if name = ''close'' then ([], t\<lparr>t_ruleset := None\<rparr>)
        else (case args of
          [Ptr h, Ptr d] \<Rightarrow>
            if name = ''capset'' then ([], ref_capset h d t)
            else (concat (map (le_bytes 4)
              [low_slot (t_effective t), low_slot (t_permitted t), low_slot (t_inheritable t),
               high_slot (t_effective t), high_slot (t_permitted t), high_slot (t_inheritable t)]), t)
        | [Ptr a, Num sz, Num fl] \<Rightarrow> ([], if sz = 16 \<and> u64_at a 8 = 0 then t\<lparr>t_ruleset := Some (u64_at a 0, [])\<rparr> else t)
        | [Num fd, Num ty, Ptr a, Num fl] \<Rightarrow> ([], if ty = 1 \<and> length a = 12 then ref_add_rule F a t else t)
        | _ \<Rightarrow> ([], t)))"

interpretation ref: linux_abi ref_kernel
  by unfold_locales (simp_all add: ref_kernel_def ref_prctl_def ref_capset_def ref_add_rule_def)

section \<open>The calls as the set-up is modelled\<close>

lemma unat_of_char [simp]: "unat (of_char c :: u8) = of_char c"
proof -
  have "(of_char c :: nat) < 2 ^ 8" by simp
  then have "unat (of_nat (of_char c) :: u8) = of_char c" by (subst unat_of_nat) simp
  then show ?thesis by (simp only: of_nat_of_char)
qed

lemma of_char_u8_eq_0 [simp]: "(of_char c :: u8) = 0 \<longleftrightarrow> c = CHR 0x00"
proof -
  have "(of_char c :: u8) = 0 \<longleftrightarrow> unat (of_char c :: u8) = 0" by (simp only: unat_eq_0)
  also have "\<dots> \<longleftrightarrow> (of_char c :: nat) = of_char (CHR 0x00)" by simp
  finally show ?thesis by (simp only: of_char_eq_iff)
qed

text \<open>A path accepted for a system call reaches the kernel whole.\<close>

lemma path_reaches_kernel:
  assumes "path_cstring p = Inr q"
  shows "read_c_string (c_string q) = p"
proof -
  from assms have q: "CHR 0x00 \<notin> set q" "p = q" by (auto simp: path_cstring_def split: if_splits)
  then have "takeWhile (\<lambda>x. x \<noteq> 0) (map of_char q @ [0 :: u8]) = map of_char q" by (subst takeWhile_append2) auto
  then show ?thesis by (simp add: read_c_string_def c_string_def comp_def q(2))
qed



end
