(* ===== verification/Cli_Main.thy ===== *)
theory Cli_Main
  imports Cli
begin

text \<open>
  The whole command line (\<^verbatim>\<open>main\<close> of \<^verbatim>\<open>aivisor-cli/src/main.rs\<close>): the subcommands, the manager each invocation brings up, what is
  printed and saved, and how the process ends. The argument parser \<^verbatim>\<open>clap\<close> gives the command; the layout of printed tables is left out.
\<close>

section \<open>Sandboxes as they are listed\<close>

record SandboxSummary =
  sm_id :: string
  sm_state :: SandboxState
  sm_template :: string

text \<open>The registry is a hash map: \<open>order\<close> is the order in which its keys come.\<close>

definition mgr_list :: "('t Manager \<Rightarrow> string list) \<Rightarrow> 't Manager \<Rightarrow> SandboxSummary list" where
  "mgr_list order m =
     concat (map (\<lambda>sid. case registry m sid of
                          None \<Rightarrow> []
                        | Some h \<Rightarrow> [\<lparr>sm_id = sid, sm_state = h_state h, sm_template = template (h_spec h)\<rparr>]) (order m))"

section \<open>An invocation\<close>

text \<open>
  What an invocation runs on: the host and its kernel, the text of identifiers, the identifier drawn for \<^verbatim>\<open>run\<close> with its text, the order of
  the registry, whether the state file can be written, and what follows the checks of \<^verbatim>\<open>exec\<close> (the launch).
\<close>

record 't cli_env =
  cl_probe :: probe_env
  cl_libbpf :: libbpf
  cl_contents :: "BpfMaps \<Rightarrow> 't bpf_maps"
  cl_cgfs :: cgroup_fs
  cl_cgroups :: "cgroup_entry list option"
  cl_world :: "'t world"
  cl_uuid :: "string \<Rightarrow> string option"
  cl_id :: "SandboxId \<times> string"
  cl_order :: "'t Manager \<Rightarrow> string list"
  cl_writable :: bool
  cl_launch :: "string \<Rightarrow> string list \<Rightarrow> launch_snapshot \<Rightarrow> ('t, int) mop"

datatype Commands =
    CmdDoctor | CmdRun run_args | CmdPs | CmdExec string "string list" | CmdPause string | CmdResume string | CmdDestroy string
  | CmdInspect string

datatype cli_output = Line string | NoSandboxes | Table "SandboxSummary list" | Details SandboxSummary | Report KernelCaps

text \<open>A process ends with a code of its own, with an error that \<^verbatim>\<open>main\<close> returns (status 1), or normally after its output.\<close>

datatype cli_result = CliExit int | CliFailed cli_error | CliDone cli_output

record 't invocation =
  iv_result :: cli_result
  iv_process :: process
  iv_manager :: "'t Manager option"
  iv_removed :: "string list"
  iv_saved :: "SandboxSummary list option"

definition save_manager :: "'t cli_env \<Rightarrow> 't Manager \<Rightarrow> SandboxSummary list option" where
  "save_manager X m = (if cl_writable X then Some (mgr_list (cl_order X) m) else None)"

text \<open>A manager that cannot be brought up ends the process with status 1.\<close>

definition load_manager ::
    "'t cli_env \<Rightarrow> process \<Rightarrow> ('t world \<Rightarrow> 't Manager \<Rightarrow> cli_result \<times> 't Manager \<times> SandboxSummary list option) \<Rightarrow> 't invocation" where
  "load_manager X p body =
     (case sandbox_manager_new (cl_probe X) (cl_libbpf X) (cl_contents X) (cl_cgfs X) (cl_cgroups X) p of
        (Inl _, p) \<Rightarrow> \<lparr>iv_result = CliExit 1, iv_process = p, iv_manager = None, iv_removed = [], iv_saved = None\<rparr>
      | (Inr (abi, m, removed), p) \<Rightarrow>
          (let (r, m, saved) = body ((cl_world X)\<lparr>w_landlock_abi := abi\<rparr>) m
           in \<lparr>iv_result = r, iv_process = p, iv_manager = Some m, iv_removed = removed, iv_saved = saved\<rparr>))"

section \<open>The subcommands\<close>

definition cmd_doctor :: "probe_env \<Rightarrow> cli_result" where
  "cmd_doctor E =
     (let caps = probe_all E
      in case check_hard_requirements caps of Inr _ \<Rightarrow> CliDone (Report caps) | Inl _ \<Rightarrow> CliExit 1)"

definition cmd_ps :: "'t cli_env \<Rightarrow> 't Manager \<Rightarrow> cli_result" where
  "cmd_ps X m = (let list = mgr_list (cl_order X) m in if list = [] then CliDone NoSandboxes else CliDone (Table list))"

definition cmd_inspect :: "'t cli_env \<Rightarrow> string \<Rightarrow> 't Manager \<Rightarrow> cli_result" where
  "cmd_inspect X i m =
     (case cl_uuid X i of
        None \<Rightarrow> CliFailed (FromManager (Io ''invalid uuid''))
      | Some sid \<Rightarrow>
          (case find (\<lambda>sb. sm_id sb = sid) (mgr_list (cl_order X) m) of
             None \<Rightarrow> CliExit 1
           | Some sb \<Rightarrow> CliDone (Details sb)))"

text \<open>\<^verbatim>\<open>SandboxManager::exec\<close>: its checks, then the launch.\<close>

definition sandbox_exec :: "'t cli_env \<Rightarrow> 't world \<Rightarrow> string list \<Rightarrow> string \<Rightarrow> ('t, int) mop" where
  "sandbox_exec X W cmd sid = sbind (exec_begin W sid (hd cmd)) (cl_launch X sid cmd)"

text \<open>An operation of the manager with what is made of its result; the state is saved only after a success.\<close>

definition saving ::
    "'t cli_env \<Rightarrow> ('a \<Rightarrow> cli_result) \<Rightarrow> ('t, 'a) mop \<Rightarrow> 't Manager \<Rightarrow> cli_result \<times> 't Manager \<times> SandboxSummary list option" where
  "saving X report f m =
     (case f m of
        (Inl e, m) \<Rightarrow> (CliFailed (FromManager e), m, None)
      | (Inr x, m) \<Rightarrow> (report x, m, save_manager X m))"

text \<open>An empty command panics at \<^verbatim>\<open>cmd[0]\<close>, after the identifier is read; \<^verbatim>\<open>clap\<close> requires one.\<close>

definition run_exec :: "'t cli_env \<Rightarrow> string \<Rightarrow> string list \<Rightarrow> 't world \<Rightarrow> 't Manager \<Rightarrow> cli_result \<times> 't Manager \<times> SandboxSummary list option" where
  "run_exec X i cmd W m =
     (if cmd = [] \<and> cl_uuid X i \<noteq> None then (CliExit 101, m, None)
      else saving X CliExit (cmd_exec (cl_uuid X) (sandbox_exec X W cmd) i) m)"

definition relative_cmd :: "run_args \<Rightarrow> bool" where
  "relative_cmd a = (case ra_cmd a of [] \<Rightarrow> True | c # _ \<Rightarrow> \<not> starts_with c ''/'')"

definition run_run :: "'t cli_env \<Rightarrow> run_args \<Rightarrow> 't world \<Rightarrow> 't Manager \<Rightarrow> cli_result \<times> 't Manager \<times> SandboxSummary list option" where
  "run_run X a W m =
     (case cl_id X of (i, sid) \<Rightarrow>
       (case cmd_run W i sid a (sandbox_exec X W (ra_cmd a) sid) m of
          (Inl e, m) \<Rightarrow> (CliFailed e, m, None)
        | (Inr code, m) \<Rightarrow> (CliExit code, m, save_manager X m)))"

text \<open>The command of \<^verbatim>\<open>run\<close> is checked before a manager is brought up.\<close>

definition cli_main :: "'t cli_env \<Rightarrow> Commands \<Rightarrow> process \<Rightarrow> 't invocation" where
  "cli_main X cmd p =
     (let unloaded = (\<lambda>r. \<lparr>iv_result = r, iv_process = p, iv_manager = None, iv_removed = [], iv_saved = None\<rparr>)
      in case cmd of
           CmdDoctor \<Rightarrow> unloaded (cmd_doctor (cl_probe X))
         | CmdRun a \<Rightarrow>
             if relative_cmd a then unloaded (CliFailed (Bail ''cmd must be an absolute path inside the sandbox''))
             else load_manager X p (run_run X a)
         | CmdPs \<Rightarrow> load_manager X p (\<lambda>W m. (cmd_ps X m, m, None))
         | CmdExec i c \<Rightarrow> load_manager X p (run_exec X i c)
         | CmdPause i \<Rightarrow> load_manager X p (\<lambda>W. saving X (\<lambda>s. CliDone (Line s)) (cmd_pause W (cl_uuid X) i))
         | CmdResume i \<Rightarrow> load_manager X p (\<lambda>W. saving X (\<lambda>s. CliDone (Line s)) (cmd_resume W (cl_uuid X) i))
         | CmdDestroy i \<Rightarrow> load_manager X p (\<lambda>W. saving X (\<lambda>s. CliDone (Line s)) (cmd_destroy W (cl_uuid X) i))
         | CmdInspect i \<Rightarrow> load_manager X p (\<lambda>W m. (cmd_inspect X i m, m, None)))"

section \<open>An invocation sees only itself\<close>

lemma mgr_list_new [simp]: "mgr_list order (mgr_new maps0 c) = []"
  by (simp add: mgr_list_def mgr_new_def)

lemma sandbox_manager_new_Inr:
  "sandbox_manager_new E L contents c cgroups p = (Inr (abi, m, removed), p') \<Longrightarrow>
   (\<exists>mm. m = mgr_new (contents mm) c) \<and> removed = clean_orphan_cgroups cgroups"
  by (auto simp: sandbox_manager_new_def split: sum.splits prod.splits)

lemma load_manager_result:
  assumes "\<And>W mm. P (body W (mgr_new (cl_contents X mm) (cl_cgfs X)))"
  shows "let v = load_manager X p body in
    (case iv_manager v of
       None \<Rightarrow> iv_result v = CliExit 1 \<and> iv_removed v = [] \<and> iv_saved v = None
     | Some m \<Rightarrow> iv_removed v = clean_orphan_cgroups (cl_cgroups X) \<and> P (iv_result v, m, iv_saved v))"
  using assms sandbox_manager_new_Inr [of "cl_probe X" "cl_libbpf X" "cl_contents X" "cl_cgfs X" "cl_cgroups X" p]
  by (auto simp: load_manager_def Let_def split: prod.splits sum.splits) (metis prod.collapse)+

text \<open>What an operation on a fresh manager gives: nothing is changed, and only destroying succeeds.\<close>

definition nothing_done :: "'t cli_env \<Rightarrow> Commands \<Rightarrow> cli_result \<times> 't Manager \<times> SandboxSummary list option \<Rightarrow> bool" where
  "nothing_done X cmd v \<longleftrightarrow>
     (case v of (r, m, saved) \<Rightarrow>
       (\<exists>mm. m = mgr_new (cl_contents X mm) (cl_cgfs X)) \<and> (saved = None \<or> saved = Some []) \<and>
       (case r of
          CliDone out \<Rightarrow> cmd = CmdPs \<and> out = NoSandboxes \<or> (\<exists>i. cmd = CmdDestroy i \<and> out = Line (''Destroyed '' @ i))
        | CliExit code \<Rightarrow> code = 1 \<or> code = 101 \<and> (\<exists>i. cmd = CmdExec i [])
        | CliFailed _ \<Rightarrow> True))"

lemma saving_nothing:
  assumes "f (mgr_new maps0 c) = (r, mgr_new maps0 c)"
  shows "saving X report f (mgr_new maps0 c) =
    (case r of Inl e \<Rightarrow> (CliFailed (FromManager e), mgr_new maps0 c, None)
     | Inr x \<Rightarrow> (report x, mgr_new maps0 c, if cl_writable X then Some [] else None))"
  using assms by (cases r) (simp_all add: saving_def save_manager_def)

lemma cmd_on_fresh:
  "\<exists>e. cmd_pause W u i (mgr_new maps0 c) = (Inl e, mgr_new maps0 c)" "\<exists>e. cmd_resume W u i (mgr_new maps0 c) = (Inl e, mgr_new maps0 c)"
  "\<exists>r. cmd_destroy W u i (mgr_new maps0 c) = (r, mgr_new maps0 c) \<and> (\<forall>s. r = Inr s \<longrightarrow> s = ''Destroyed '' @ i)"
  "\<exists>e. cmd_exec u (sandbox_exec X W cmd) i (mgr_new maps0 c) = (Inl e, mgr_new maps0 c)"
  using destroy_reports_success_without_effect [of u i _ W maps0 c] exec_of_earlier_invocation_refused [of u W "hd cmd" "\<lambda>sid. cl_launch X sid cmd" i maps0 c]
  by (cases "u i"; simp add: cmd_pause_def cmd_resume_def cmd_destroy_def cmd_on_def cmd_exec_def sandbox_exec_def [abs_def] sbind_def slift_def)+

lemma commands_do_nothing:
  "nothing_done X CmdPs (cmd_ps X m, m, None)" "nothing_done X (CmdInspect i) (cmd_inspect X i m, m, None)"
  "nothing_done X (CmdPause i) (saving X (\<lambda>s. CliDone (Line s)) (cmd_pause W (cl_uuid X) i) m)"
  "nothing_done X (CmdResume i) (saving X (\<lambda>s. CliDone (Line s)) (cmd_resume W (cl_uuid X) i) m)"
  "nothing_done X (CmdDestroy i) (saving X (\<lambda>s. CliDone (Line s)) (cmd_destroy W (cl_uuid X) i) m)"
  "nothing_done X (CmdExec i c) (run_exec X i c W m)"
  if "m = mgr_new (cl_contents X mm) (cl_cgfs X)"
proof -
  note fresh = cmd_on_fresh [where u = "cl_uuid X" and ?maps0.0 = "cl_contents X mm" and c = "cl_cgfs X"]
  show "nothing_done X CmdPs (cmd_ps X m, m, None)" "nothing_done X (CmdInspect i) (cmd_inspect X i m, m, None)"
    using that by (auto simp: nothing_done_def cmd_ps_def cmd_inspect_def split: option.splits)
  show "nothing_done X (CmdPause i) (saving X (\<lambda>s. CliDone (Line s)) (cmd_pause W (cl_uuid X) i) m)"
    "nothing_done X (CmdResume i) (saving X (\<lambda>s. CliDone (Line s)) (cmd_resume W (cl_uuid X) i) m)"
    "nothing_done X (CmdExec i c) (run_exec X i c W m)"
    using that fresh(1,2) [of W i] fresh(4) [of X W c i] by (auto simp: nothing_done_def run_exec_def saving_nothing)
  show "nothing_done X (CmdDestroy i) (saving X (\<lambda>s. CliDone (Line s)) (cmd_destroy W (cl_uuid X) i) m)"
    using that fresh(3) [of W i] by (auto simp: nothing_done_def saving_nothing split: sum.splits)
qed

lemma run_run_registry: "registry (fst (snd (run_run X a W (mgr_new maps0 c)))) (snd (cl_id X)) = None"
  using run_leaves_no_sandbox [of "mgr_new maps0 c" "snd (cl_id X)" W "fst (cl_id X)" a]
  by (auto simp: run_run_def mgr_new_def split: prod.splits sum.splits) (metis snd_conv)+

text \<open>
  C38. An invocation sees only its own sandboxes. A command other than \<^verbatim>\<open>run\<close> finds none: \<^verbatim>\<open>ps\<close> reports that there are none, and pausing,
  resuming, inspecting or running a command fails, only \<^verbatim>\<open>destroy\<close> reports a success; none of them changes a kernel map, a cgroup or a sandbox, beyond the
  sweep of cgroups taken for orphans, and the state they save is empty. \<^verbatim>\<open>run\<close> leaves no sandbox registered, whatever its command did; \<^verbatim>\<open>doctor\<close> brings
  nothing up.
\<close>
theorem invocations_see_only_themselves:
  "let v = cli_main X cmd p in
   (case iv_manager v of
      None \<Rightarrow> iv_removed v = [] \<and> iv_saved v = None \<and>
        (case iv_result v of CliDone out \<Rightarrow> cmd = CmdDoctor \<and> out = Report (probe_all (cl_probe X)) | CliExit code \<Rightarrow> code = 1 | CliFailed _ \<Rightarrow> \<exists>a. cmd = CmdRun a)
    | Some m \<Rightarrow> iv_removed v = clean_orphan_cgroups (cl_cgroups X) \<and>
        (case cmd of
           CmdRun _ \<Rightarrow> registry m (snd (cl_id X)) = None
         | _ \<Rightarrow> nothing_done X cmd (iv_result v, m, iv_saved v)))"
proof -
  note load = load_manager_result [where X = X and p = p, unfolded Let_def]
  have loaded: ?thesis if "cli_main X cmd p = load_manager X p body" "\<And>W mm. nothing_done X cmd (body W (mgr_new (cl_contents X mm) (cl_cgfs X)))"
      "\<And>a. cmd \<noteq> CmdRun a" for body
    using load [where P = "nothing_done X cmd" and body = body, OF that(2)] that(1,3) by (cases cmd) (auto simp: Let_def split: option.splits)
  show ?thesis
  proof (cases cmd)
    case CmdDoctor
    then show ?thesis by (simp add: cli_main_def cmd_doctor_def Let_def split: sum.splits)
  next
    case (CmdRun a)
    then show ?thesis
      using load [where P = "\<lambda>v. registry (fst (snd v)) (snd (cl_id X)) = None" and body = "run_run X a", OF run_run_registry]
      by (auto simp: cli_main_def Let_def split: option.splits)
  qed (rule loaded, simp only: cli_main_def Let_def Commands.case, simp only: commands_do_nothing [OF refl], simp)+
qed

text \<open>
  The sweep takes a cgroup for an orphan when it is half a minute old and empty, as that of a sandbox without a command is: listing the
  sandboxes removes the cgroups of those a daemon keeps ready.
\<close>

theorem idle_sandbox_swept:
  assumes "iv_manager (cli_main X CmdPs p) = Some m" "cl_cgroups X = Some es" "e \<in> set es" "ce_is_dir e" "length (ce_name e) = 36" "CHR ''-'' \<in> set (ce_name e)"
    "ce_age e = Some age" "30 \<le> age" "ce_procs e = Some []"
  shows "ce_name e \<in> set (iv_removed (cli_main X CmdPs p))"
proof -
  have "is_orphan e" using assms by (simp add: is_orphan_def ORPHAN_GRACE_PERIOD_def trim_def)
  then show ?thesis
    using assms(1-3) sandbox_manager_new_Inr [of "cl_probe X" "cl_libbpf X" "cl_contents X" "cl_cgfs X" "cl_cgroups X" p]
    by (auto simp: cli_main_def load_manager_def clean_orphan_cgroups_def split: prod.splits sum.splits)
qed

end
