(* ===== verification/Daemon_Main.thy ===== *)
theory Daemon_Main
  imports Daemon
begin

text \<open>
  The daemon process (\<^verbatim>\<open>aivisord/src/main.rs\<close>, \<^verbatim>\<open>Daemon::new\<close> and \<^verbatim>\<open>Daemon::run\<close> of \<^verbatim>\<open>daemon.rs\<close>, \<^verbatim>\<open>spawn_refill_task\<close> of
  \<^verbatim>\<open>warmpool.rs\<close>): bring-up, the directory of its socket, and the timer that refills the warm pool for ever. There is no service on
  the socket yet; what else happens to the daemon between two ticks is arbitrary.
\<close>

section \<open>The refill timer\<close>

text \<open>What a tick logs.\<close>

datatype tick_log = Refilled nat | Quiet | RefillFailed error

definition refill_tick :: "'t world \<Rightarrow> pool_env \<Rightarrow> 't Daemon \<Rightarrow> tick_log \<times> 't Daemon" where
  "refill_tick W E d =
     (case refill W E d of
        (Inr n, d) \<Rightarrow> (if 0 < n then Refilled n else Quiet, d)
      | (Inl e, d) \<Rightarrow> (RefillFailed e, d))"

text \<open>The loop, for the ticks of a finite run: each element is what is done to the daemon until the next tick.\<close>

primrec spawn_refill_task :: "'t world \<Rightarrow> pool_env \<Rightarrow> ('t Daemon \<Rightarrow> 't Daemon) list \<Rightarrow> 't Daemon \<Rightarrow> tick_log list \<times> 't Daemon" where
  "spawn_refill_task W E [] d = ([], d)"
| "spawn_refill_task W E (g # gs) d =
     (let (l, d) = refill_tick W E d; (ls, d) = spawn_refill_task W E gs (g d) in (l # ls, d))"

section \<open>The process\<close>

text \<open>\<^verbatim>\<open>Path::parent\<close>: there is none for an empty path and for a root.\<close>

definition path_parent :: "string \<Rightarrow> path_component list option" where
  "path_parent p = (let cs = path_components p in if cs = [] \<or> last cs = RootDir then None else Some (butlast cs))"

definition daemon_serve ::
    "'t world \<Rightarrow> pool_env \<Rightarrow> (path_component list \<Rightarrow> bool) \<Rightarrow> string \<Rightarrow> ('t Daemon \<Rightarrow> 't Daemon) list \<Rightarrow> 't Daemon
       \<Rightarrow> (error + tick_log list) \<times> 't Daemon" where
  "daemon_serve W E create_dir_all socket_path gs d =
     (if (case path_parent socket_path of None \<Rightarrow> True | Some parent \<Rightarrow> create_dir_all parent)
      then (let (ls, d) = spawn_refill_task W E gs d in (Inr ls, d))
      else (Inl (LaunchFailed ''failed to create daemon socket directory''), d))"

definition aivisord_main ::
    "probe_env \<Rightarrow> libbpf \<Rightarrow> (BpfMaps \<Rightarrow> 't bpf_maps) \<Rightarrow> cgroup_fs \<Rightarrow> cgroup_entry list option \<Rightarrow> 't world \<Rightarrow> pool_env
       \<Rightarrow> (path_component list \<Rightarrow> bool) \<Rightarrow> string \<Rightarrow> ('t Daemon \<Rightarrow> 't Daemon) list \<Rightarrow> process \<Rightarrow> (error + tick_log list) \<times> 't Daemon option \<times> process" where
  "aivisord_main PE L contents c cgroups W E create_dir_all socket gs p =
     (case sandbox_manager_new PE L contents c cgroups p of
        (Inl e, p) \<Rightarrow> (Inl e, None, p)
      | (Inr (abi, m, _), p) \<Rightarrow>
          (let (r, d) = daemon_serve (W\<lparr>w_landlock_abi := abi\<rparr>) E create_dir_all socket gs (daemon_new m 0 0) in (r, Some d, p)))"

section \<open>The timer keeps the pool full\<close>

text \<open>A refill that fails keeps what is in the pool and what it had provisioned before the failure.\<close>

lemma refill_loop_keeps: "\<exists>es. pool_entries (warm_pool (snd (refill_loop W E n k d))) = pool_entries (warm_pool d) @ es \<and>
    target_depth (warm_pool (snd (refill_loop W E n k d))) = target_depth (warm_pool d) \<and> length es \<le> n"
proof (induction n arbitrary: k d)
  case (Suc n)
  obtain r d1 where p: "provision W E d = (r, d1)" by force
  then have 1: "\<exists>es. pool_entries (warm_pool d1) = pool_entries (warm_pool d) @ es \<and> target_depth (warm_pool d1) = target_depth (warm_pool d) \<and> length es \<le> 1"
    by (auto simp: provision_def Let_def push_entry_def split: sum.splits prod.splits)
  show ?case
  proof (cases r)
    case Inl
    then show ?thesis using 1 p by (auto simp: sbind_def)
  next
    case Inr
    then show ?thesis using 1 p Suc.IH [of "k + 1" d1] by (fastforce simp: sbind_def)
  qed
qed (simp add: sreturn_def)

lemma refill_tick_pool:
  assumes "refill_tick W E d = (l, d')"
  shows "\<exists>es. pool_entries (warm_pool d') = pool_entries (warm_pool d) @ es"
    "target_depth (warm_pool d') = target_depth (warm_pool d)"
    "pool_depth (warm_pool d') \<le> max (target_depth (warm_pool d)) (pool_depth (warm_pool d))"
    "(\<And>e. l \<noteq> RefillFailed e) \<Longrightarrow> target_depth (warm_pool d) \<le> pool_depth (warm_pool d')"
proof -
  obtain r where r: "refill W E d = (r, d')" using assms by (auto simp: refill_tick_def split: prod.splits sum.splits)
  with refill_loop_keeps [of W E "target_depth (warm_pool d) - length (pool_entries (warm_pool d))" 0 d]
  show "\<exists>es. pool_entries (warm_pool d') = pool_entries (warm_pool d) @ es" "target_depth (warm_pool d') = target_depth (warm_pool d)"
    "pool_depth (warm_pool d') \<le> max (target_depth (warm_pool d)) (pool_depth (warm_pool d))"
    by (auto simp: refill_def pool_depth_def)
  show "target_depth (warm_pool d) \<le> pool_depth (warm_pool d')" if ok: "\<And>e. l \<noteq> RefillFailed e"
  proof -
    obtain n where "r = Inr n" using assms r ok by (cases r) (auto simp: refill_tick_def)
    then show ?thesis using refill_loop_fills [of W E _ 0 d n d'] r by (auto simp: refill_def pool_depth_def)
  qed
qed

lemma refill_tick_run: "daemon_run W E d out \<Longrightarrow> daemon_run W E (snd (refill_tick W E d)) out"
  using refill_run [of W E d out] by (auto simp: refill_tick_def split: prod.splits sum.splits)

text \<open>
  The timer is part of every history of the daemon: when what happens between the ticks is, so is the whole run, and so the sandboxes
  handed out of the pool are used once. A failed tick does not end the timer: there is one log entry per tick.
\<close>

theorem refill_task_history:
  assumes "daemon_run W E d out" "\<And>g d out. g \<in> set gs \<Longrightarrow> daemon_run W E d out \<Longrightarrow> \<exists>out'. daemon_run W E (g d) (out @ out')"
  shows "\<exists>out'. daemon_run W E (snd (spawn_refill_task W E gs d)) (out @ out') \<and> length (fst (spawn_refill_task W E gs d)) = length gs"
  using assms
proof (induction gs arbitrary: d out)
  case (Cons g gs)
  obtain l d1 where t: "refill_tick W E d = (l, d1)" by force
  then have "daemon_run W E d1 out" using refill_tick_run [OF Cons.prems(1)] by simp
  then obtain o1 where "daemon_run W E (g d1) (out @ o1)" using Cons.prems(2) [of g] by auto
  from Cons.IH [OF this] Cons.prems(2) obtain o2 where "daemon_run W E (snd (spawn_refill_task W E gs (g d1))) ((out @ o1) @ o2)"
    "length (fst (spawn_refill_task W E gs (g d1))) = length gs" by fastforce
  then show ?case by (auto simp: t split_def Let_def)
qed (auto intro: exI [of _ "[]"])

end
