(* ===== verification/Spec2Isabelle.thy ===== *)
theory Spec2Isabelle
  imports Policy_Parser Bpf_Audit Egress_Server Turn_Tracker Escape_Suite Build_Script Kernel_Abi Cli_Main Daemon_Main
begin

text \<open>
  A verification development of AIVisor, a sandbox runtime for agents written in Rust, with its kernel hooks in BPF C.

  \<^bold>\<open>The program.\<close> A daemon (\<^verbatim>\<open>aivisord\<close>) or a command line (\<^verbatim>\<open>aivisor-cli\<close>) owns one sandbox manager (\<^verbatim>\<open>aivisor-runtime/src/manager.rs\<close>).
  To start, the manager probes the kernel (\<^verbatim>\<open>probe.rs\<close>, \<^verbatim>\<open>landlock.rs\<close>), loads the BPF programs and opens their maps (\<^verbatim>\<open>aivisor-bpf/src/loader.rs\<close>,
  \<^verbatim>\<open>aivisor-runtime/src/bpf.rs\<close>). To create a sandbox it makes a cgroup with its limits (\<^verbatim>\<open>cgroup.rs\<close>), registers the cgroup with the BPF policy manager
  (\<^verbatim>\<open>aivisor-bpf/src/maps.rs\<close>), prepares directories (\<^verbatim>\<open>rootfs.rs\<close>) and attaches the egress hooks. To run a command it resolves a policy
  (\<^verbatim>\<open>aivisor-policy\<close>), and the launcher (\<^verbatim>\<open>launcher.rs\<close>) clones a child that builds its mount tree, drops its privileges (\<^verbatim>\<open>caps.rs\<close>), restricts itself with Landlock and
  seccomp, reports which files it may execute and waits; the parent then installs the compiled policy in the kernel maps, where the hooks
  (\<^verbatim>\<open>aivisor-bpf/src/bpf/*.bpf.c\<close>) enforce it, and lets the child go on. Grants and revocations change the installed policy of a running sandbox; turns ask
  whether anything changed since a point in time. Hook decisions flow through a ring buffer to the audit consumer (\<^verbatim>\<open>aivisor-bpf/src/audit.rs\<close>).
  Network traffic leaves through the egress proxy (\<^verbatim>\<open>aivisor-broker\<close>), which holds the credentials and charges every byte to a session.

  \<^bold>\<open>The theories,\<close> and the sources under \<^verbatim>\<open>src/crates\<close> they model. The records, datatypes and functions keep the names of the source; one function is one Rust
  or C function, or one critical section of it where the source gives up its lock.
  \<^item> \<open>Prelude\<close>: machine integers, the \<^verbatim>\<open>?\<close> operator (\<open>rbind\<close>, and \<open>sbind\<close> with a state), Rust's string functions, little-endian bytes.
  \<^item> \<open>Core\<close>: \<^verbatim>\<open>aivisor-core\<close>, with the capability grants and their text form.
  \<^item> \<open>Policy_Parser\<close>, \<open>Policy_Compile\<close>: \<^verbatim>\<open>aivisor-policy/src/parser.rs\<close> and \<^verbatim>\<open>compile.rs\<close>. The lemmas say what an accepted document looks like, what the
    compiled Landlock ruleset permits, and that a grant or revocation changes the policy by exactly what it names.
  \<^item> \<open>Rule_Allocator\<close>, \<open>Bpf_Wire\<close>, \<open>Bpf_Maps\<close>, \<open>Bpf_Manager\<close>, \<open>Bpf_Invariant\<close>: \<^verbatim>\<open>aivisor-bpf/src/maps.rs\<close>. The allocator's free list is the canonical form
    of the set of free indices (locale \<open>range_allocator\<close>); the encoders meet the C structures; the manager's invariant holds under every pattern of failing map
    operations; every operation stays within the entries of its own cgroup.
  \<^item> \<open>Bpf_Hooks\<close>, \<open>Bpf_Enforce\<close>, \<open>Bpf_Turns\<close>, \<open>Bpf_Audit\<close>: the BPF programs as functions of the maps, and with them the manager: isolation of
    sandboxes, exact enforcement after an update, nothing lost on a failed one, dirty turns, and the audit pipeline as a step relation of kernel, consumer and sink.
  \<^item> \<open>Bpf_Loader\<close>: \<^verbatim>\<open>aivisor-bpf/src/loader.rs\<close>, \<^verbatim>\<open>BpfMaps\<close> and \<^verbatim>\<open>aivisor-runtime/src/bpf.rs\<close>: the objects share their maps with the manager, and
    a cgroup has both egress hooks or none. \<open>Build_Script\<close>: \<^verbatim>\<open>aivisor-bpf/build.rs\<close>: the loader opens only objects that this build compiled.
  \<^item> \<open>Broker\<close>, \<open>Egress\<close>, \<open>Egress_Safe\<close>: \<^verbatim>\<open>aivisor-broker/src/proxy.rs\<close> and \<^verbatim>\<open>egress.rs\<close>: sessions and budgets (locale of charged accounts), the request
    path over an arbitrary network with arbitrary interference, and its guarantees. \<open>Egress_Server\<close>: the accept loop, with a thread per connection; the threads
    interleave at every use of the shared broker, and together they stay within the budgets of their sessions.
  \<^item> \<open>Seccomp\<close>, \<open>Exec_Identity\<close>, \<open>Child_Setup\<close>, \<open>Launch\<close>: \<^verbatim>\<open>aivisor-runtime/src/seccomp.rs\<close> with an interpreter for classic BPF; the mount table and
    executable identities; what the child does to itself; and the parent/child protocol as a step relation. \<open>Kernel_Abi\<close>: \<^verbatim>\<open>abi.rs\<close>, the structures as
    bytes and the calls with their numbers, and that on a kernel with the documented behaviour (locale \<open>linux_abi\<close>) they have the effects of \<open>Child_Setup\<close>.
  \<^item> \<open>Cgroup\<close>, \<open>Sandbox_Manager\<close>, \<open>Sandbox_Safe\<close>: \<^verbatim>\<open>cgroup.rs\<close> and \<^verbatim>\<open>manager.rs\<close>, and the manager's invariant over every history.
  \<^item> \<open>Probe\<close>, \<open>Daemon\<close>: \<^verbatim>\<open>probe.rs\<close>, the bring-up of the manager and \<^verbatim>\<open>aivisord/src/warmpool.rs\<close>, with the pool interleaved with every other use of the manager.
    \<open>Daemon_Main\<close>: \<^verbatim>\<open>aivisord/src/main.rs\<close> and \<^verbatim>\<open>daemon.rs\<close>, the process and its refill timer.
  \<^item> \<open>Turn_Tracker\<close>: \<^verbatim>\<open>aivisor-snapshot\<close>. \<open>Float64\<close>, \<open>Cli\<close>: \<^verbatim>\<open>aivisor-cli/src/main.rs\<close> with the binary64 arithmetic its size arguments go through.
    \<open>Cli_Main\<close>: the subcommands, and that an invocation sees only its own sandboxes.
  \<^item> \<open>Escape_Suite\<close>: \<^verbatim>\<open>src/bench/escape\<close>, the suite of escape attempts that is run as a check of the whole: its attempts and its verdict, and that under the
    manager's own default policy the attempts are refused by Landlock or the hooks.
  This theory holds the property that spans the launcher, the manager, the policy compiler and the hooks.

  \<^bold>\<open>State and errors.\<close> A stateful operation takes and returns the whole state next to its result, an error or a value (\<open>error + 'a\<close>); an early return is a
  branch that returns the state as it is then. Errors carry the fixed part of their message. Integers have the width of the source and wrap, truncate or
  saturate as it does. Operations that hold a lock throughout are single steps, and histories are sequences of steps; concurrency that the source has
  (a launch, the audit threads, proxy connections, pool refills) is the interleaving of steps.

  \<^bold>\<open>Parameters.\<close> Code that is not part of the repository is an argument: the kernel's longest-prefix trie (locale \<open>lpm_trie\<close>, interpreted on a binary trie),
  \<^verbatim>\<open>libbpf\<close> (locale \<open>libbpf_api\<close>, interpreted on a concrete library), the system calls at the level of memory (locale \<open>linux_abi\<close>), the YAML accessors, the network, SHA-256, the answers of every system call, file and
  cgroup access, the clock, and the identifiers that are drawn. Every map operation, system call and file access may fail at any point; a theorem that needs one
  to succeed says so. Each hypothesis about a parameter is met by a concrete instance in a witness.

  \<^bold>\<open>Loops.\<close> There is no fuel: list loops are structural, the coalescing loop of the allocator has a measure, the wait for an empty cgroup ends by the clock, since a
  sleep takes at least the time asked for, and protocols and consumers are step relations for which termination is a theorem.

  \<^bold>\<open>Not modelled.\<close> The gRPC service, which does not exist yet; the layout of printed tables, log lines, the readers of command-line arguments and the text of the JSON
  state file; identifiers beyond their text, whose operations are those of the \<^verbatim>\<open>uuid\<close> crate; the identity stub of the broker and its event record, which
  nothing constructs; the unit and integration tests. Whether the ring buffer has room when a hook submits an event, panics of slicing inside a multi-byte character, and the
  sign of a floating-point zero are not represented.
\<close>

section \<open>Launches under the sandbox manager\<close>

text \<open>
  C1. A command runs only confined, and only under its policy. For a launch by the manager, after any history of it and in every
  interleaving of parent and child: if the child executes the command, then the task is confined and in its
  cgroup, and the kernel hooks, as they were left by the installation, let this cgroup execute exactly the
  files the child identified inside its own mount namespace - an unidentified file never - and refuse it every mount, ptrace,
  bpf() and kernel-module request.
\<close>
theorem command_runs_enforced:
  assumes "lpm_trie (w_kernel W) stored" "manager_run W m" "launches A (exec_install W x) t m s" "l_child s = CExecd"
    "task_caps_ok (la_kernel A) t"
  shows "\<exists>ids.
    collect_exec_identities (la_host A) (la_mountinfo A) (lp_exec_paths (la_policy A)) (lp_exec_prefixes (la_policy A)) = Inr ids \<and>
    confined (la_kernel A) (la_rootfs A) (la_policy A) (l_task s) \<and> l_cgroup s \<and>
    (let k = maps (bpf (l_install s)); c = ls_cgid x
     in fst (bprm_check_security 0 k c (Some (ino, dev))) = (if \<exists>i\<in>set ids. ei_inode i = ino \<and> ei_dev i = ucast dev then 0 else - EPERM) \<and>
        fst (bprm_check_security 0 k c None) = - EPERM \<and> fst (sb_mount 0 k c) = - EPERM \<and>
        fst (ptrace_access_check 0 k c) = - EPERM \<and> fst (kill_hook 0 k c) = - EPERM)"
proof -
  obtain ids where ids: "collect_exec_identities (la_host A) (la_mountinfo A) (lp_exec_paths (la_policy A)) (lp_exec_prefixes (la_policy A)) = Inr ids"
    and conf: "confined (la_kernel A) (la_rootfs A) (la_policy A) (l_task s)" and up: "set_up s" "system_run (w_kernel W) (w_host W) (bpf m)"
    "update_policy (w_kernel W) (w_host W) (ls_cgid x) (compile_bpf (ls_policy x)) (Resolved ids) (bpf m) = (Inr (), bpf (l_install s))"
    by (rule launch_installed [OF assms(2-5)])
  obtain ex where ex: "exec_entries_of (w_host W) (compile_bpf (ls_policy x)) (Resolved ids) = Inr ex"
    "installed (bp_fs_rules (compile_bpf (ls_policy x))) ex (ls_cgid x) (maps (bpf (l_install s)))"
    by (rule update_installed [OF assms(1) up(2,3)])
  have "(\<exists>e\<in>set ex. er_inode e = ino \<and> er_dev e = ucast dev) \<longleftrightarrow> (\<exists>i\<in>set ids. ei_inode i = ino \<and> ei_dev i = ucast dev)"
    using ex(1) by (force simp: exec_entries_of_def)
  then show ?thesis
    using ids conf up(1) exec_verdict_installed [OF ex(2)] deny_hooks_installed [OF ex(2)]
    by (intro exI [of _ ids]) (simp add: Let_def set_up_def EPERM_def)
qed

theorem command_runs_enforced_witness:
  "\<exists>s. launches witness_args (exec_install witness_world (witness_snapshot witness_rootfs)) witness_task witness_m1 s \<and> l_child s = CExecd \<and>
     fst (bprm_check_security 0 (maps (bpf (l_install s))) 2 (Some (7, 8))) = - 1 \<and> fst (sb_mount 0 (maps (bpf (l_install s))) 2) = - 1"
proof -
  let ?x = "witness_snapshot witness_rootfs"
  obtain st where reg: "registered (bpf witness_m1) 2 = Some st" using witness_bpf(2) by blast
  have "bp_fs_rules (compile_bpf witness_policy) = []" "resolve_net_rules 2 (bp_net_rules (compile_bpf witness_policy)) = Inr []"
    by (simp_all add: compile_bpf_def witness_policy_def default_policy_def resolve_net_rules_def)
  from sample_update_succeeds [OF witness_bpf(1) reg this] obtain b where
    "update_policy sample_kernel sample_host 2 (compile_bpf witness_policy) (Resolved []) (bpf witness_m1) = (Inr (), b)" by blast
  then have "exec_install witness_world ?x [] witness_m1 = (Inr (), witness_m1\<lparr>bpf := b\<rparr>)"
    by (simp add: exec_install_def on_bpf_def witness_world_def witness_snapshot_def)
  from witness_args_run [of "exec_install witness_world ?x", OF this] obtain s where
    s: "launches witness_args (exec_install witness_world ?x) witness_task witness_m1 s" "l_child s = CExecd" by blast
  have "lpm_trie (w_kernel witness_world) bt_get" by (simp add: witness_world_def trie_kernel_lpm)
  moreover have "task_caps_ok (la_kernel witness_args) witness_task" by (simp add: witness_args_def witness_kernel_ok(7))
  moreover have "collect_exec_identities (la_host witness_args) (la_mountinfo witness_args) (lp_exec_paths (la_policy witness_args))
      (lp_exec_prefixes (la_policy witness_args)) = Inr []"
    by (simp add: witness_args_def witness_kernel_ok(5))
  ultimately show ?thesis
    using command_runs_enforced [OF _ witness_m1_run s, of bt_get 7 8] s by (auto simp: Let_def witness_snapshot_def EPERM_def)
qed

end
